theory Spec2Isabelle
  imports Complex_Main "HOL-Library.Word"
begin

unbundle bit_operations_syntax

section \<open>Machine types\<close>

text \<open>
  The C++ sources use \<open>uint8_t\<close>, \<open>uint16_t\<close>, \<open>uint32_t\<close> and \<open>uint64_t\<close>;
  \<open>size_t\<close> is 64 bits wide on the supported platforms.  All of them are modelled as
  words, so that \<open>+\<close> and \<open>-\<close> wrap around exactly as unsigned arithmetic does.
  A \<open>std::vector<uint8_t>\<close> is a list of bytes.
\<close>

type_synonym u8 = "8 word"
type_synonym u16 = "16 word"
type_synonym u32 = "32 word"
type_synonym u64 = "64 word"
type_synonym bytes = "u8 list"

definition size_of :: "'a list \<Rightarrow> u64" where
  "size_of xs = of_nat (length xs)"

section \<open>Ordered maps (\<open>std::map<uint64_t, V>\<close>)\<close>

text \<open>
  A \<open>std::map\<close> keeps its entries sorted by key and iterates in that order, so it is
  modelled as an association list kept in ascending key order: \<open>begin()\<close> is the head,
  \<open>find\<close> is a lookup, \<open>erase\<close> removes the entry, and \<open>m[k] = v\<close> for a key
  inserts at the sorted position (or overwrites).
\<close>

type_synonym ('k, 'v) omap = "('k \<times> 'v) list"

fun map_find :: "'k \<Rightarrow> ('k, 'v) omap \<Rightarrow> 'v option" where
  "map_find k [] = None"
| "map_find k ((k', v) # m) = (if k = k' then Some v else map_find k m)"

fun map_erase :: "'k \<Rightarrow> ('k, 'v) omap \<Rightarrow> ('k, 'v) omap" where
  "map_erase k [] = []"
| "map_erase k ((k', v) # m) = (if k = k' then map_erase k m else (k', v) # map_erase k m)"

fun map_put :: "'k::linorder \<Rightarrow> 'v \<Rightarrow> ('k, 'v) omap \<Rightarrow> ('k, 'v) omap" where
  "map_put k v [] = [(k, v)]"
| "map_put k v ((k', v') # m) =
     (if k < k' then (k, v) # (k', v') # m
      else if k = k' then (k, v) # m
      else (k', v') # map_put k v m)"

definition map_count :: "'k \<Rightarrow> ('k, 'v) omap \<Rightarrow> nat" where
  "map_count k m = (case map_find k m of None \<Rightarrow> 0 | Some _ \<Rightarrow> 1)"

lemma length_map_erase_le: "length (map_erase k m) \<le> length m"
  by (induction m) (auto simp: le_SucI)

lemma length_map_erase_less: "map_find k m = Some v \<Longrightarrow> length (map_erase k m) < length m"
  by (induction m) (auto simp: less_Suc_eq_le length_map_erase_le split: if_splits)

section \<open>Replay window (\<open>src/mux/replay_window.cpp\<close>)\<close>

record ReplayWindow =
  rw_highest_seq :: u64
  rw_bitmap :: u64
  rw_initialized :: bool

definition WINDOW_SIZE :: u64 where
  "WINDOW_SIZE = 64"

definition ReplayWindow_new :: ReplayWindow where
  "ReplayWindow_new = \<lparr>rw_highest_seq = 0, rw_bitmap = 0, rw_initialized = False\<rparr>"

text \<open>\<open>ReplayWindow::check\<close>, branch by branch.  The sum \<open>seq + WINDOW_SIZE\<close> is a
  \<open>uint64_t\<close> sum and wraps.  \<open>1ULL << diff\<close> is only evaluated for \<open>diff < 64\<close>.\<close>

definition ReplayWindow_check :: "ReplayWindow \<Rightarrow> u64 \<Rightarrow> bool" where
  "ReplayWindow_check w seq =
     (if \<not> rw_initialized w then True
      else if seq + WINDOW_SIZE \<le> rw_highest_seq w then False
      else if seq > rw_highest_seq w then True
      else if seq = rw_highest_seq w then False
      else (let diff = rw_highest_seq w - seq - 1 in
            if diff < WINDOW_SIZE then rw_bitmap w AND push_bit (unat diff) 1 = 0
            else False))"

definition ReplayWindow_update :: "ReplayWindow \<Rightarrow> u64 \<Rightarrow> ReplayWindow" where
  "ReplayWindow_update w seq =
     (if \<not> rw_initialized w then \<lparr>rw_highest_seq = seq, rw_bitmap = 0, rw_initialized = True\<rparr>
      else if seq > rw_highest_seq w then
        (let shift = seq - rw_highest_seq w in
         w\<lparr>rw_bitmap := (if shift \<ge> WINDOW_SIZE then 0
                         else push_bit (unat shift) (rw_bitmap w) OR push_bit (unat (shift - 1)) 1),
           rw_highest_seq := seq\<rparr>)
      else if seq < rw_highest_seq w then
        (let diff = rw_highest_seq w - seq - 1 in
         if diff < WINDOW_SIZE then w\<lparr>rw_bitmap := rw_bitmap w OR push_bit (unat diff) 1\<rparr> else w)
      else w)"

definition ReplayWindow_check_and_update :: "ReplayWindow \<Rightarrow> u64 \<Rightarrow> bool \<times> ReplayWindow" where
  "ReplayWindow_check_and_update w seq =
     (if \<not> ReplayWindow_check w seq then (False, w) else (True, ReplayWindow_update w seq))"

text \<open>\<open>rw_seen w c\<close>: the window records counter \<open>c\<close> as already presented (it is the
  highest, or it has fallen out of the window, or its bit is set).\<close>

definition rw_seen :: "ReplayWindow \<Rightarrow> u64 \<Rightarrow> bool" where
  "rw_seen w c \<longleftrightarrow> rw_initialized w \<and> c \<le> rw_highest_seq w \<and>
     (c = rw_highest_seq w \<or> 64 \<le> unat (rw_highest_seq w) - unat c \<or>
      bit (rw_bitmap w) (unat (rw_highest_seq w) - unat c - 1))"

section \<open>Ack tracker (\<open>src/mux/ack_bitmap.cpp\<close>)\<close>

record AckBitmap =
  ab_ack_number :: u64
  ab_bitmap :: u64
  ab_initialized :: bool

definition BITMAP_SIZE :: u64 where
  "BITMAP_SIZE = 64"

definition AckBitmap_new :: AckBitmap where
  "AckBitmap_new = \<lparr>ab_ack_number = 0, ab_bitmap = 0, ab_initialized = False\<rparr>"

lemma drop_bit_1_less: "(b :: u64) AND 1 \<noteq> 0 \<Longrightarrow> unat (drop_bit (Suc 0) b) < unat b"
proof -
  assume "b AND 1 \<noteq> 0"
  then have "b \<noteq> 0" by auto
  then have "unat b \<noteq> 0" by (simp add: unat_eq_0)
  moreover have "unat (drop_bit (Suc 0) b) = unat b div 2"
    by (simp add: drop_bit_eq_div unat_div)
  ultimately show ?thesis by simp
qed

text \<open>The loop \<open>while (bitmap_ & 1) { bitmap_ >>= 1; ++ack_number_; }\<close>.\<close>

function consume_contiguous :: "u64 \<Rightarrow> u64 \<Rightarrow> u64 \<times> u64" where
  "consume_contiguous ack bm =
     (if bm AND 1 \<noteq> 0 then consume_contiguous (ack + 1) (drop_bit 1 bm) else (ack, bm))"
  by pat_completeness auto
termination
  by (relation "measure (\<lambda>(ack, bm). unat bm)") (auto simp: drop_bit_1_less)

definition AckBitmap_mark_received :: "AckBitmap \<Rightarrow> u64 \<Rightarrow> AckBitmap" where
  "AckBitmap_mark_received a seq =
     (if \<not> ab_initialized a then \<lparr>ab_ack_number = seq, ab_bitmap = 0, ab_initialized = True\<rparr>
      else if seq \<le> ab_ack_number a then a
      else if seq = ab_ack_number a + 1 then
        (let (ack, bm) = consume_contiguous seq (drop_bit 1 (ab_bitmap a))
         in a\<lparr>ab_ack_number := ack, ab_bitmap := bm\<rparr>)
      else
        (let offset = seq - ab_ack_number a - 1 in
         if offset < BITMAP_SIZE then a\<lparr>ab_bitmap := ab_bitmap a OR push_bit (unat offset) 1\<rparr>
         else a))"

definition AckBitmap_get_ack_number :: "AckBitmap \<Rightarrow> u64" where
  "AckBitmap_get_ack_number a = ab_ack_number a"

definition AckBitmap_get_bitmap :: "AckBitmap \<Rightarrow> u64" where
  "AckBitmap_get_bitmap a = ab_bitmap a"

section \<open>Retransmission manager (\<open>src/mux/retransmission.cpp\<close>)\<close>

text \<open>
  The two smoothing factors are \<open>double\<close>s in the source, and \<open>update_rtt\<close> computes in
  \<open>double\<close>.  A \<open>double\<close> is modelled by the rational it denotes.  \<open>to_double\<close> rounds a
  rational to the nearest IEEE binary64 value, ties to even, with the 53-bit significand
  of the normal range and the fixed spacing \<open>2^-1074\<close> below it; every conversion of an
  integer to \<open>double\<close> and every product, sum and difference is rounded once.  Overflow
  to infinity is not modelled.
\<close>

function bit_length :: "int \<Rightarrow> int" where
  "bit_length n = (if n \<le> 0 then 0 else 1 + bit_length (n div 2))"
  by pat_completeness auto
termination
  by (relation "measure nat") auto

declare bit_length.simps [simp del]

definition pow2 :: "int \<Rightarrow> rat" where
  "pow2 e = (if e \<ge> 0 then 2 ^ nat e else 1 / 2 ^ nat (- e))"

text \<open>\<open>floor_log2 x\<close> is the exponent \<open>e\<close> with \<open>2^e \<le> |x| < 2^(e+1)\<close>, for \<open>x \<noteq> 0\<close>.\<close>

definition floor_log2 :: "rat \<Rightarrow> int" where
  "floor_log2 x =
     (let (p, q) = quotient_of \<bar>x\<bar>;
          e0 = bit_length p - bit_length q
      in if pow2 e0 \<le> \<bar>x\<bar> then e0 else e0 - 1)"

definition round_half_even :: "rat \<Rightarrow> int" where
  "round_half_even x =
     (let f = \<lfloor>x\<rfloor>; d = x - of_int f
      in if d < 1 / 2 then f else if d > 1 / 2 then f + 1 else if even f then f else f + 1)"

definition to_double :: "rat \<Rightarrow> rat" where
  "to_double x =
     (if x = 0 then 0
      else (let e = max (floor_log2 x) (- 1022); ulp = pow2 (e - 52)
            in of_int (round_half_even (x / ulp)) * ulp))"

record RetransmissionConfig =
  initial_rto_ms :: u64
  min_rto_ms :: u64
  max_rto_ms :: u64
  max_retries :: u32
  max_unacked_packets :: u64
  max_unacked_bytes :: u64
  rtt_alpha :: rat
  rtt_beta :: rat

record UnackedPacket =
  up_data :: bytes
  send_time_ms :: u64
  last_sent_ms :: u64
  retransmit_count :: u32

text \<open>The callbacks are \<open>std::function\<close> objects that may be empty.  Each invocation is
  recorded, in order, in \<open>rm_calls\<close>.\<close>

datatype rtx_call = RetransmitCall u64 bytes | DropCall u64

record RetransmissionManager =
  rm_config :: RetransmissionConfig
  unacked :: "(u64, UnackedPacket) omap"
  unacked_bytes :: u64
  srtt_ms :: u64
  rttvar_ms :: u64
  rto_ms :: u64
  rtt_initialized :: bool
  total_retransmits :: u64
  total_drops :: u64
  has_retransmit_callback :: bool
  has_drop_callback :: bool
  rm_calls :: "rtx_call list"

definition RetransmissionManager_new :: "RetransmissionConfig \<Rightarrow> RetransmissionManager" where
  "RetransmissionManager_new cfg =
     \<lparr>rm_config = cfg, unacked = [], unacked_bytes = 0, srtt_ms = 0, rttvar_ms = 0,
      rto_ms = initial_rto_ms cfg, rtt_initialized = False, total_retransmits = 0,
      total_drops = 0, has_retransmit_callback = False, has_drop_callback = False,
      rm_calls = []\<rparr>"

definition set_retransmit_callback :: "RetransmissionManager \<Rightarrow> RetransmissionManager" where
  "set_retransmit_callback m = m\<lparr>has_retransmit_callback := True\<rparr>"

definition set_drop_callback :: "RetransmissionManager \<Rightarrow> RetransmissionManager" where
  "set_drop_callback m = m\<lparr>has_drop_callback := True\<rparr>"

definition register_packet ::
  "RetransmissionManager \<Rightarrow> u64 \<Rightarrow> bytes \<Rightarrow> u64 \<Rightarrow> bool \<times> RetransmissionManager" where
  "register_packet m seq dat send_time =
     (if size_of (unacked m) \<ge> max_unacked_packets (rm_config m) then (False, m)
      else if unacked_bytes m + size_of dat > max_unacked_bytes (rm_config m) then (False, m)
      else if map_count seq (unacked m) > 0 then (False, m)
      else (True, m\<lparr>unacked_bytes := unacked_bytes m + size_of dat,
                     unacked := map_put seq
                        \<lparr>up_data = dat, send_time_ms = send_time, last_sent_ms = send_time,
                         retransmit_count = 0\<rparr> (unacked m)\<rparr>))"

text \<open>\<open>static_cast<uint64_t>\<close> of a \<open>double\<close> truncates towards zero.  The source has no
  defined result for a value outside the range of \<open>uint64_t\<close>; the model reduces the
  truncated value modulo \<open>2^64\<close> there.\<close>

definition double_to_u64 :: "rat \<Rightarrow> u64" where
  "double_to_u64 x = word_of_int (if x \<ge> 0 then \<lfloor>x\<rfloor> else \<lceil>x\<rceil>)"

text \<open>In \<open>update_rtt\<close> the difference of the two \<open>int64_t\<close> casts and the negation of
  \<open>delta\<close> are taken in two's complement.\<close>

definition update_rtt :: "RetransmissionManager \<Rightarrow> u64 \<Rightarrow> RetransmissionManager" where
  "update_rtt m rtt_sample =
     (let m1 =
        (if \<not> rtt_initialized m
         then m\<lparr>srtt_ms := rtt_sample, rttvar_ms := rtt_sample div 2, rtt_initialized := True\<rparr>
         else
           (let delta = sint (rtt_sample - srtt_ms m);
                srtt' = double_to_u64
                          (to_double (to_double (of_nat (unat (srtt_ms m)))
                                      + to_double (rtt_alpha (rm_config m)
                                                   * to_double (of_int delta))));
                abs_delta = (word_of_int (if delta \<ge> 0 then delta else - delta) :: u64);
                rttvar' = double_to_u64
                            (to_double
                               (to_double (to_double (1 - rtt_beta (rm_config m))
                                           * to_double (of_nat (unat (rttvar_ms m))))
                                + to_double (rtt_beta (rm_config m)
                                             * to_double (of_nat (unat abs_delta)))))
            in m\<lparr>srtt_ms := srtt', rttvar_ms := rttvar'\<rparr>));
          rto1 = srtt_ms m1 + 4 * rttvar_ms m1;
          rto2 = max rto1 (min_rto_ms (rm_config m));
          rto3 = min rto2 (max_rto_ms (rm_config m))
      in m1\<lparr>rto_ms := rto3\<rparr>)"

definition ack_packet :: "RetransmissionManager \<Rightarrow> u64 \<Rightarrow> u64 \<Rightarrow> RetransmissionManager" where
  "ack_packet m seq ack_time =
     (case map_find seq (unacked m) of
        None \<Rightarrow> m
      | Some p \<Rightarrow>
          (let m1 = (if retransmit_count p = 0 then update_rtt m (ack_time - send_time_ms p) else m)
           in m1\<lparr>unacked_bytes := unacked_bytes m1 - size_of (up_data p),
                 unacked := map_erase seq (unacked m1)\<rparr>))"

text \<open>First loop of \<open>process_sack\<close>: one pass over the map in key order, erasing every
  entry whose key is at most \<open>ack_number\<close>.  The entries kept so far are returned with
  the manager; the manager's own \<open>unacked\<close> field is set by the caller.\<close>

fun sack_cumulative ::
  "u64 \<Rightarrow> u64 \<Rightarrow> (u64, UnackedPacket) omap \<Rightarrow> RetransmissionManager
     \<Rightarrow> (u64, UnackedPacket) omap \<times> RetransmissionManager" where
  "sack_cumulative ack_no ack_time [] m = ([], m)"
| "sack_cumulative ack_no ack_time ((seq, p) # rest) m =
     (if seq \<le> ack_no then
        (let m1 = (if retransmit_count p = 0 then update_rtt m (ack_time - send_time_ms p) else m);
             m2 = m1\<lparr>unacked_bytes := unacked_bytes m1 - size_of (up_data p)\<rparr>
         in sack_cumulative ack_no ack_time rest m2)
      else
        (let (kept, m') = sack_cumulative ack_no ack_time rest m in ((seq, p) # kept, m')))"

text \<open>Second loop: \<open>for (i = 0; i < 64; ++i) if (bitmap & (1ULL << i)) ack_packet(...)\<close>.\<close>

fun sack_selective ::
  "u64 \<Rightarrow> u64 \<Rightarrow> u64 \<Rightarrow> nat list \<Rightarrow> RetransmissionManager \<Rightarrow> RetransmissionManager" where
  "sack_selective ack_no bm ack_time [] m = m"
| "sack_selective ack_no bm ack_time (i # is) m =
     sack_selective ack_no bm ack_time is
       (if bm AND push_bit i 1 \<noteq> 0 then ack_packet m (ack_no + 1 + of_nat i) ack_time else m)"

definition process_sack ::
  "RetransmissionManager \<Rightarrow> u64 \<Rightarrow> u64 \<Rightarrow> u64 \<Rightarrow> RetransmissionManager" where
  "process_sack m ack_no bm ack_time =
     (let (kept, m1) = sack_cumulative ack_no ack_time (unacked m) m
      in sack_selective ack_no bm ack_time [0..<64] (m1\<lparr>unacked := kept\<rparr>))"

text \<open>First loop of \<open>retransmit_expired\<close>.  It walks the map in key order and mutates the
  visited entry in place; \<open>rto_ms_\<close> doubles after each retransmission, so later entries of
  the same pass are compared against the new value.  The triple carried along is
  \<open>(manager, to_drop, count)\<close>.\<close>

fun retransmit_scan ::
  "u64 \<Rightarrow> (u64, UnackedPacket) omap \<Rightarrow> RetransmissionManager \<times> u64 list \<times> nat
     \<Rightarrow> (u64, UnackedPacket) omap \<times> RetransmissionManager \<times> u64 list \<times> nat" where
  "retransmit_scan now [] acc = ([], acc)"
| "retransmit_scan now ((seq, p) # rest) (m, to_drop, count) =
     (if now - last_sent_ms p < rto_ms m then
        (let (rest', acc') = retransmit_scan now rest (m, to_drop, count)
         in ((seq, p) # rest', acc'))
      else if retransmit_count p \<ge> max_retries (rm_config m) then
        (let (rest', acc') = retransmit_scan now rest (m, to_drop @ [seq], count)
         in ((seq, p) # rest', acc'))
      else
        (let m1 = (if has_retransmit_callback m
                   then m\<lparr>rm_calls := rm_calls m @ [RetransmitCall seq (up_data p)]\<rparr> else m);
             p' = p\<lparr>last_sent_ms := now, retransmit_count := retransmit_count p + 1\<rparr>;
             m2 = m1\<lparr>total_retransmits := total_retransmits m1 + 1,
                     rto_ms := min (rto_ms m1 * 2) (max_rto_ms (rm_config m1))\<rparr>;
             (rest', acc') = retransmit_scan now rest (m2, to_drop, count + 1)
         in ((seq, p') # rest', acc')))"

text \<open>Second loop: the entries collected in \<open>to_drop\<close> are reported and erased.\<close>

fun drop_expired :: "u64 list \<Rightarrow> RetransmissionManager \<Rightarrow> RetransmissionManager" where
  "drop_expired [] m = m"
| "drop_expired (seq # seqs) m =
     (let m1 = (if has_drop_callback m then m\<lparr>rm_calls := rm_calls m @ [DropCall seq]\<rparr> else m);
          m2 = (case map_find seq (unacked m1) of
                  None \<Rightarrow> m1
                | Some p \<Rightarrow> m1\<lparr>unacked_bytes := unacked_bytes m1 - size_of (up_data p),
                                unacked := map_erase seq (unacked m1)\<rparr>)
      in drop_expired seqs (m2\<lparr>total_drops := total_drops m2 + 1\<rparr>))"

definition retransmit_expired :: "RetransmissionManager \<Rightarrow> u64 \<Rightarrow> nat \<times> RetransmissionManager" where
  "retransmit_expired m now =
     (let (entries, m1, to_drop, count) = retransmit_scan now (unacked m) (m, [], 0)
      in (count, drop_expired to_drop (m1\<lparr>unacked := entries\<rparr>)))"

section \<open>Reorder buffer (\<open>src/mux/reorder_buffer.cpp\<close>)\<close>

record ReorderBufferConfig =
  max_buffered_packets :: u64
  max_buffered_bytes :: u64
  max_delay_ms :: u64

record BufferedPacket =
  bp_data :: bytes
  timestamp_ms :: u64

text \<open>
  The delivery callback has the signature
  \<open>void(uint64_t seq, std::vector<uint8_t> data)\<close> and is called as
  \<open>callback_(seq, std::move(it->second.data))\<close>: the by-value parameter is move-constructed
  from the stored vector, which leaves the stored vector empty.  When no callback is
  installed nothing is moved and the stored vector keeps its bytes.  \<open>stored_after_call\<close> is
  the vector that \<open>it->second.data\<close> denotes after that statement.  Each invocation of the
  callback is recorded in \<open>delivered_log\<close>.
\<close>

record ReorderBuffer =
  rb_config :: ReorderBufferConfig
  buffer :: "(u64, BufferedPacket) omap"
  next_expected :: u64
  buffered_bytes :: u64
  has_callback :: bool
  delivered_log :: "(u64 \<times> bytes) list"

definition ReorderBuffer_new :: "ReorderBufferConfig \<Rightarrow> ReorderBuffer" where
  "ReorderBuffer_new cfg =
     \<lparr>rb_config = cfg, buffer = [], next_expected = 1, buffered_bytes = 0,
      has_callback = False, delivered_log = []\<rparr>"

definition set_deliver_callback :: "ReorderBuffer \<Rightarrow> ReorderBuffer" where
  "set_deliver_callback rb = rb\<lparr>has_callback := True\<rparr>"

definition invoke_callback :: "ReorderBuffer \<Rightarrow> u64 \<Rightarrow> bytes \<Rightarrow> ReorderBuffer" where
  "invoke_callback rb seq dat =
     (if has_callback rb then rb\<lparr>delivered_log := delivered_log rb @ [(seq, dat)]\<rparr> else rb)"

definition stored_after_call :: "ReorderBuffer \<Rightarrow> bytes \<Rightarrow> bytes" where
  "stored_after_call rb dat = (if has_callback rb then [] else dat)"

definition insert_packet :: "ReorderBuffer \<Rightarrow> u64 \<Rightarrow> bytes \<Rightarrow> u64 \<Rightarrow> bool \<times> ReorderBuffer" where
  "insert_packet rb seq dat ts =
     (if seq < next_expected rb \<or> map_count seq (buffer rb) > 0 then (False, rb)
      else if size_of (buffer rb) \<ge> max_buffered_packets (rb_config rb) then (False, rb)
      else if buffered_bytes rb + size_of dat > max_buffered_bytes (rb_config rb) then (False, rb)
      else (True, rb\<lparr>buffered_bytes := buffered_bytes rb + size_of dat,
                      buffer := map_put seq \<lparr>bp_data = dat, timestamp_ms = ts\<rparr> (buffer rb)\<rparr>))"

definition has_deliverable :: "ReorderBuffer \<Rightarrow> bool" where
  "has_deliverable rb = (map_count (next_expected rb) (buffer rb) > 0)"

definition deliver_step :: "ReorderBuffer \<Rightarrow> BufferedPacket \<Rightarrow> ReorderBuffer" where
  "deliver_step rb pkt =
     (let rb1 = invoke_callback rb (next_expected rb) (bp_data pkt)
      in rb1\<lparr>buffered_bytes := buffered_bytes rb1 - size_of (stored_after_call rb (bp_data pkt)),
             buffer := map_erase (next_expected rb) (buffer rb),
             next_expected := next_expected rb + 1\<rparr>)"

function deliver_loop :: "ReorderBuffer \<Rightarrow> nat \<Rightarrow> ReorderBuffer \<times> nat" where
  "deliver_loop rb delivered =
     (case map_find (next_expected rb) (buffer rb) of
        None \<Rightarrow> (rb, delivered)
      | Some pkt \<Rightarrow> deliver_loop (deliver_step rb pkt) (delivered + 1))"
  by pat_completeness auto
termination
  by (relation "measure (\<lambda>(rb, d). length (buffer rb))")
     (auto simp: deliver_step_def invoke_callback_def length_map_erase_less)

declare deliver_loop.simps [simp del]

definition deliver :: "ReorderBuffer \<Rightarrow> nat \<times> ReorderBuffer" where
  "deliver rb = (let (rb', delivered) = deliver_loop rb 0 in (delivered, rb'))"

lemma deliver_loop_length:
  "deliver_loop rb d = (rb', d') \<Longrightarrow> length (buffer rb') \<le> length (buffer rb)"
proof (induction rb d arbitrary: rb' d' rule: deliver_loop.induct)
  case (1 rb delivered)
  show ?case
  proof (cases "map_find (next_expected rb) (buffer rb)")
    case None
    with "1.prems" show ?thesis by (simp add: deliver_loop.simps [of rb])
  next
    case (Some pkt)
    with "1.prems" have "deliver_loop (deliver_step rb pkt) (delivered + 1) = (rb', d')"
      by (simp add: deliver_loop.simps [of rb])
    from "1.IH" [OF Some this]
    have "length (buffer rb') \<le> length (buffer (deliver_step rb pkt))" .
    also have "\<dots> \<le> length (buffer rb)"
      by (simp add: deliver_step_def invoke_callback_def length_map_erase_le)
    finally show ?thesis .
  qed
qed

definition flush_step :: "ReorderBuffer \<Rightarrow> u64 \<Rightarrow> BufferedPacket \<Rightarrow> ReorderBuffer" where
  "flush_step rb seq pkt =
     (let rb1 = invoke_callback rb seq (bp_data pkt)
      in rb1\<lparr>buffered_bytes := buffered_bytes rb1 - size_of (stored_after_call rb (bp_data pkt)),
             next_expected := seq + 1,
             buffer := tl (buffer rb)\<rparr>)"

function flush_loop :: "u64 \<Rightarrow> ReorderBuffer \<Rightarrow> nat \<Rightarrow> ReorderBuffer \<times> nat" where
  "flush_loop now rb delivered =
     (case buffer rb of
        [] \<Rightarrow> (rb, delivered)
      | (seq, pkt) # rest \<Rightarrow>
          if now - timestamp_ms pkt < max_delay_ms (rb_config rb) then (rb, delivered)
          else (case deliver_loop (flush_step rb seq pkt) 0 of
                  (rb', d) \<Rightarrow> flush_loop now rb' (delivered + 1 + d)))"
  by pat_completeness auto
termination
  apply (relation "measure (\<lambda>(now, rb, d). length (buffer rb))")
   apply simp
  apply (auto dest!: deliver_loop_length [OF sym] simp: flush_step_def invoke_callback_def
              split: if_splits)
  done

declare flush_loop.simps [simp del]

definition flush :: "ReorderBuffer \<Rightarrow> u64 \<Rightarrow> nat \<times> ReorderBuffer" where
  "flush rb now =
     (let (rb1, d1) = deliver_loop rb 0;
          (rb2, d2) = flush_loop now rb1 d1
      in (d2, rb2))"

section \<open>External primitives (libsodium)\<close>

text \<open>
  The cryptographic primitives are libsodium's and are not part of the repository.  They
  are parameters of the model: a record of four functions, passed to every operation that
  reaches them.  \<open>sodium_aead_encrypt key nonce plaintext aad\<close> is
  \<open>crypto_aead_chacha20poly1305_ietf_encrypt\<close> (ciphertext followed by the 16-byte tag),
  \<open>sodium_aead_decrypt\<close> its inverse (\<open>None\<close> for a non-zero return code),
  \<open>sodium_hmacsha256 key message\<close> is \<open>crypto_auth_hmacsha256\<close> and
  \<open>sodium_scalarmult secret public\<close> is \<open>crypto_scalarmult\<close> (\<open>None\<close> for a non-zero
  return code).
\<close>

record Sodium =
  sodium_aead_encrypt :: "bytes \<Rightarrow> bytes \<Rightarrow> bytes \<Rightarrow> bytes \<Rightarrow> bytes"
  sodium_aead_decrypt :: "bytes \<Rightarrow> bytes \<Rightarrow> bytes \<Rightarrow> bytes \<Rightarrow> bytes option"
  sodium_hmacsha256 :: "bytes \<Rightarrow> bytes \<Rightarrow> bytes"
  sodium_scalarmult :: "bytes \<Rightarrow> bytes \<Rightarrow> bytes option"

section \<open>AEAD wrapper (\<open>src/crypto/chacha20poly1305.cpp\<close>)\<close>

definition POLY1305_TAG_SIZE :: u64 where
  "POLY1305_TAG_SIZE = 16"

definition encrypt :: "Sodium \<Rightarrow> bytes \<Rightarrow> bytes \<Rightarrow> bytes \<Rightarrow> bytes \<Rightarrow> bytes" where
  "encrypt L key nonce plaintext additional_data =
     sodium_aead_encrypt L key nonce plaintext additional_data"

definition decrypt :: "Sodium \<Rightarrow> bytes \<Rightarrow> bytes \<Rightarrow> bytes \<Rightarrow> bytes \<Rightarrow> bytes option" where
  "decrypt L key nonce ciphertext_with_tag additional_data =
     (if size_of ciphertext_with_tag < POLY1305_TAG_SIZE then None
      else sodium_aead_decrypt L key nonce ciphertext_with_tag additional_data)"

text \<open>\<open>make_nonce\<close>: byte \<open>i\<close> of the counter (little-endian) is XORed into position
  \<open>4 + i\<close> of the 12-byte base.\<close>

definition make_nonce :: "bytes \<Rightarrow> u64 \<Rightarrow> bytes" where
  "make_nonce base counter =
     take 4 base @
     map2 (XOR) (take 8 (drop 4 base)) (map (\<lambda>i. ucast (drop_bit (i * 8) counter)) [0..<8])"

section \<open>Frames (\<open>include/veil/packet/frame.hpp\<close>, \<open>src/packet/frame.cpp\<close>)\<close>

text \<open>
  \<open>Frame\<close> is the \<open>std::variant\<close> of the six frame structs.  The two nested enums
  (\<open>ControlFrame::Type\<close>, \<open>HandshakeFrame::Stage\<close>) have underlying type \<open>uint8_t\<close> and
  the parser produces them by \<open>static_cast\<close> from an arbitrary byte, so they are kept as
  bytes.  \<open>SessionRotateFrame::new_session_id\<close> is a 32-byte array.
\<close>

datatype Frame =
    DataFrame u64 bytes
  | AckFrame u64 u64 u32
  | ControlFrame u8 u64 bytes
  | FragmentFrame u32 u16 u16 bytes
  | HandshakeFrame u8 bytes
  | SessionRotateFrame bytes u64

datatype FrameType = DATA | ACK | CONTROL | FRAGMENT | HANDSHAKE | SESSION_ROTATE

fun frame_type_code :: "FrameType \<Rightarrow> u8" where
  "frame_type_code DATA = 0x01"
| "frame_type_code ACK = 0x02"
| "frame_type_code CONTROL = 0x03"
| "frame_type_code FRAGMENT = 0x04"
| "frame_type_code HANDSHAKE = 0x10"
| "frame_type_code SESSION_ROTATE = 0x20"

fun get_frame_type :: "Frame \<Rightarrow> FrameType" where
  "get_frame_type (DataFrame _ _) = DATA"
| "get_frame_type (AckFrame _ _ _) = ACK"
| "get_frame_type (ControlFrame _ _ _) = CONTROL"
| "get_frame_type (FragmentFrame _ _ _ _) = FRAGMENT"
| "get_frame_type (HandshakeFrame _ _) = HANDSHAKE"
| "get_frame_type (SessionRotateFrame _ _) = SESSION_ROTATE"

definition holds_DataFrame :: "Frame \<Rightarrow> bool" where
  "holds_DataFrame f = (case f of DataFrame _ _ \<Rightarrow> True | _ \<Rightarrow> False)"

record FrameHeader =
  fh_type :: u8
  fh_flags :: u8
  fh_length :: u16

definition FrameHeader_SIZE :: u64 where
  "FrameHeader_SIZE = 4"

definition serialize_header :: "FrameHeader \<Rightarrow> bytes" where
  "serialize_header h =
     [fh_type h, fh_flags h, ucast (drop_bit 8 (fh_length h)), ucast (fh_length h AND 0xFF)]"

text \<open>\<open>parse_header\<close> of \<open>frame.cpp\<close> (the frame header).\<close>

definition parse_frame_header :: "bytes \<Rightarrow> FrameHeader option" where
  "parse_frame_header dat =
     (case dat of
        t # fl # l1 # l0 # _ \<Rightarrow>
          Some \<lparr>fh_type = t, fh_flags = fl, fh_length = push_bit 8 (ucast l1) OR ucast l0\<rparr>
      | _ \<Rightarrow> None)"

section \<open>Big-endian integers (\<open>src/packet/packet_builder.cpp\<close>, \<open>packet_parser.cpp\<close>)\<close>

definition write_u64 :: "u64 \<Rightarrow> bytes" where
  "write_u64 v = map (\<lambda>i. ucast (drop_bit (i * 8) v)) [7, 6, 5, 4, 3, 2, 1, 0]"

definition write_u32 :: "u32 \<Rightarrow> bytes" where
  "write_u32 v = map (\<lambda>i. ucast (drop_bit (i * 8) v)) [3, 2, 1, 0]"

definition write_u16 :: "u16 \<Rightarrow> bytes" where
  "write_u16 v = [ucast (drop_bit 8 v), ucast (v AND 0xFF)]"

text \<open>The readers are only called on spans that hold enough bytes; they read the first
  8, 4 and 2 bytes.\<close>

definition read_u64 :: "bytes \<Rightarrow> u64" where
  "read_u64 dat = foldl (\<lambda>v b. push_bit 8 v OR ucast b) 0 (take 8 dat)"

definition read_u32 :: "bytes \<Rightarrow> u32" where
  "read_u32 dat = foldl (\<lambda>v b. push_bit 8 v OR ucast b) 0 (take 4 dat)"

definition read_u16 :: "bytes \<Rightarrow> u16" where
  "read_u16 dat = foldl (\<lambda>v b. push_bit 8 v OR ucast b) 0 (take 2 dat)"

section \<open>Packet builder (\<open>src/packet/packet_builder.cpp\<close>)\<close>

definition PacketHeader_SIZE :: u64 where
  "PacketHeader_SIZE = 16"

record PacketBuilder =
  pb_mtu :: u64
  pb_session_id :: u64
  pb_key :: bytes
  pb_nonce_base :: bytes
  pb_has_key :: bool
  payload_buffer :: bytes

text \<open>The constructor initialises the members and then calls
  \<open>payload_buffer_.reserve(mtu - PacketHeader::SIZE - POLY1305_TAG_SIZE)\<close>, a difference
  taken in \<open>size_t\<close>.  \<open>reserve\<close> throws \<open>std::length_error\<close> for a request above
  \<open>max_size()\<close>, which is \<open>2^63 - 1\<close> for a vector of bytes; the difference wraps for every
  \<open>mtu < 32\<close>, so the constructor throws there.  \<open>PacketBuilder_new\<close> is the builder that the
  constructor leaves when it returns, \<open>PacketBuilder_construct\<close> is the constructor with its
  exception.  A request that is admitted but exhausts the memory is not modelled.\<close>

definition PacketBuilder_new :: "u64 \<Rightarrow> PacketBuilder" where
  "PacketBuilder_new mtu =
     \<lparr>pb_mtu = mtu, pb_session_id = 0, pb_key = replicate 32 0, pb_nonce_base = replicate 12 0,
      pb_has_key = False, payload_buffer = []\<rparr>"

datatype construct_error = Length_error

definition PacketBuilder_construct :: "u64 \<Rightarrow> construct_error + PacketBuilder" where
  "PacketBuilder_construct mtu =
     (if mtu - PacketHeader_SIZE - POLY1305_TAG_SIZE > 0x7FFFFFFFFFFFFFFF then Inl Length_error
      else Inr (PacketBuilder_new mtu))"

definition set_encryption_key :: "PacketBuilder \<Rightarrow> bytes \<Rightarrow> bytes \<Rightarrow> PacketBuilder" where
  "set_encryption_key pb key nonce_base =
     pb\<lparr>pb_key := key, pb_nonce_base := nonce_base, pb_has_key := True\<rparr>"

definition set_session_id :: "PacketBuilder \<Rightarrow> u64 \<Rightarrow> PacketBuilder" where
  "set_session_id pb sid = pb\<lparr>pb_session_id := sid\<rparr>"

fun frame_payload :: "Frame \<Rightarrow> bytes" where
  "frame_payload (DataFrame sequence_number payload) = write_u64 sequence_number @ payload"
| "frame_payload (AckFrame ack_number bitmap recv_window) =
     write_u64 ack_number @ write_u64 bitmap @ write_u32 recv_window"
| "frame_payload (ControlFrame type timestamp dat) = [type] @ write_u64 timestamp @ dat"
| "frame_payload (FragmentFrame message_id fragment_index total_fragments payload) =
     write_u32 message_id @ write_u16 fragment_index @ write_u16 total_fragments @ payload"
| "frame_payload (HandshakeFrame stage payload) = [stage] @ payload"
| "frame_payload (SessionRotateFrame new_session_id activation_sequence) =
     new_session_id @ write_u64 activation_sequence"

text \<open>\<open>header.length = static_cast<uint16_t>(payload.size())\<close> truncates to 16 bits.\<close>

definition serialize_frame :: "Frame \<Rightarrow> bytes" where
  "serialize_frame f =
     (let payload = frame_payload f;
          header = \<lparr>fh_type = frame_type_code (get_frame_type f), fh_flags = 0,
                    fh_length = of_nat (length payload)\<rparr>
      in serialize_header header @ payload)"

fun frame_size :: "Frame \<Rightarrow> u64" where
  "frame_size (DataFrame _ payload) = FrameHeader_SIZE + (8 + size_of payload)"
| "frame_size (AckFrame _ _ _) = FrameHeader_SIZE + 20"
| "frame_size (ControlFrame _ _ dat) = FrameHeader_SIZE + (9 + size_of dat)"
| "frame_size (FragmentFrame _ _ _ payload) = FrameHeader_SIZE + (8 + size_of payload)"
| "frame_size (HandshakeFrame _ payload) = FrameHeader_SIZE + (1 + size_of payload)"
| "frame_size (SessionRotateFrame _ _) = FrameHeader_SIZE + 40"

definition remaining_capacity :: "PacketBuilder \<Rightarrow> u64" where
  "remaining_capacity pb =
     (let overhead = PacketHeader_SIZE + POLY1305_TAG_SIZE in
      if pb_mtu pb \<le> overhead + size_of (payload_buffer pb) then 0
      else pb_mtu pb - overhead - size_of (payload_buffer pb))"

definition add_frame :: "PacketBuilder \<Rightarrow> Frame \<Rightarrow> bool \<times> PacketBuilder" where
  "add_frame pb f =
     (let serialized = serialize_frame f in
      if size_of (payload_buffer pb) + size_of serialized > remaining_capacity pb
      then (False, pb)
      else (True, pb\<lparr>payload_buffer := payload_buffer pb @ serialized\<rparr>))"

text \<open>\<open>build\<close> returns the empty vector for an empty frame buffer and throws
  \<open>std::runtime_error\<close> when no key is set (\<open>Inl\<close>).  It has no statement that assigns to
  a member; the builder it returns is the one it was given.  \<open>reset\<close> is the member
  function that clears the frame buffer.\<close>

datatype build_error = Encryption_key_not_set

definition build :: "Sodium \<Rightarrow> PacketBuilder \<Rightarrow> u64 \<Rightarrow> (build_error + bytes) \<times> PacketBuilder" where
  "build L pb packet_counter =
     (if payload_buffer pb = [] then (Inr [], pb)
      else if \<not> pb_has_key pb then (Inl Encryption_key_not_set, pb)
      else
        (let header = write_u64 (pb_session_id pb) @ write_u64 packet_counter;
             nonce = make_nonce (pb_nonce_base pb) packet_counter;
             aad = take 16 header;
             encrypted = encrypt L (pb_key pb) nonce (payload_buffer pb) aad
         in (Inr (header @ encrypted), pb)))"

definition PacketBuilder_reset :: "PacketBuilder \<Rightarrow> PacketBuilder" where
  "PacketBuilder_reset pb = pb\<lparr>payload_buffer := []\<rparr>"

section \<open>Packet parser (\<open>src/packet/packet_parser.cpp\<close>)\<close>

record PacketHeader =
  ph_session_id :: u64
  ph_packet_counter :: u64

record ParsedPacket =
  pp_session_id :: u64
  pp_packet_counter :: u64
  pp_frames :: "Frame list"

datatype ParseError = SUCCESS | PACKET_TOO_SHORT | DECRYPTION_FAILED | INVALID_FRAME
  | UNKNOWN_FRAME_TYPE

record PacketParser =
  parser_key :: bytes
  parser_nonce_base :: bytes
  parser_has_key :: bool

definition PacketParser_new :: PacketParser where
  "PacketParser_new =
     \<lparr>parser_key = replicate 32 0, parser_nonce_base = replicate 12 0, parser_has_key = False\<rparr>"

definition set_decryption_key :: "PacketParser \<Rightarrow> bytes \<Rightarrow> bytes \<Rightarrow> PacketParser" where
  "set_decryption_key p key nonce_base =
     p\<lparr>parser_key := key, parser_nonce_base := nonce_base, parser_has_key := True\<rparr>"

definition parse_header :: "bytes \<Rightarrow> PacketHeader option" where
  "parse_header dat =
     (if size_of dat < PacketHeader_SIZE then None
      else Some \<lparr>ph_session_id = read_u64 (take 8 dat),
                 ph_packet_counter = read_u64 (take 8 (drop 8 dat))\<rparr>)"

text \<open>\<open>parse_frame\<close> returns the frame and the number of bytes it occupies.  \<open>payload\<close> is
  \<open>data.subspan(4, length)\<close>.  The \<open>switch\<close> over the frame type is
  \<open>parse_frame_switch\<close>.\<close>

definition parse_frame_switch :: "u8 \<Rightarrow> bytes \<Rightarrow> nat \<Rightarrow> (Frame \<times> nat) option" where
  "parse_frame_switch type payload total_size =
     (if type = 0x01 then
        (if length payload < 8 then None
         else Some (DataFrame (read_u64 payload) (drop 8 payload), total_size))
      else if type = 0x02 then
        (if length payload < 20 then None
         else Some (AckFrame (read_u64 payload) (read_u64 (drop 8 payload))
                      (read_u32 (drop 16 payload)), total_size))
      else if type = 0x03 then
        (if length payload < 9 then None
         else Some (ControlFrame (hd payload) (read_u64 (drop 1 payload))
                      (drop 9 payload), total_size))
      else if type = 0x04 then
        (if length payload < 8 then None
         else Some (FragmentFrame (read_u32 payload) (read_u16 (drop 4 payload))
                      (read_u16 (drop 6 payload)) (drop 8 payload), total_size))
      else if type = 0x10 then
        (if payload = [] then None
         else Some (HandshakeFrame (hd payload) (drop 1 payload), total_size))
      else if type = 0x20 then
        (if length payload < 40 then None
         else Some (SessionRotateFrame (take 32 payload) (read_u64 (drop 32 payload)),
                    total_size))
      else None)"

definition parse_frame :: "bytes \<Rightarrow> (Frame \<times> nat) option" where
  "parse_frame dat =
     (case parse_frame_header dat of
        None \<Rightarrow> None
      | Some h \<Rightarrow>
          if length dat < 4 + unat (fh_length h) then None
          else parse_frame_switch (fh_type h) (take (unat (fh_length h)) (drop 4 dat))
                 (4 + unat (fh_length h)))"

lemma parse_frame_consumes:
  "parse_frame dat = Some (f, n) \<Longrightarrow> 4 \<le> n \<and> n \<le> length dat"
  by (auto simp: parse_frame_def parse_frame_switch_def split: option.splits if_splits)

text \<open>The frame loop of \<open>parse\<close>: \<open>while (!payload.empty())\<close>.\<close>

function parse_frames :: "bytes \<Rightarrow> Frame list option" where
  "parse_frames payload =
     (if payload = [] then Some []
      else (case parse_frame payload of
              None \<Rightarrow> None
            | Some (f, n) \<Rightarrow>
                (case parse_frames (drop n payload) of
                   None \<Rightarrow> None
                 | Some fs \<Rightarrow> Some (f # fs))))"
  by pat_completeness auto
termination
  by (relation "measure length") (auto dest!: parse_frame_consumes)

declare parse_frames.simps [simp del]

definition parse :: "Sodium \<Rightarrow> PacketParser \<Rightarrow> bytes \<Rightarrow> ParseError + ParsedPacket" where
  "parse L p dat =
     (if size_of dat < PacketHeader_SIZE + POLY1305_TAG_SIZE then Inl PACKET_TOO_SHORT
      else (case parse_header dat of
              None \<Rightarrow> Inl PACKET_TOO_SHORT
            | Some header \<Rightarrow>
                if \<not> parser_has_key p then Inl DECRYPTION_FAILED
                else
                  (let encrypted = drop 16 dat;
                       nonce = make_nonce (parser_nonce_base p) (ph_packet_counter header);
                       aad = take 16 dat
                   in case decrypt L (parser_key p) nonce encrypted aad of
                        None \<Rightarrow> Inl DECRYPTION_FAILED
                      | Some decrypted \<Rightarrow>
                          (case parse_frames decrypted of
                             None \<Rightarrow> Inl INVALID_FRAME
                           | Some fs \<Rightarrow>
                               Inr \<lparr>pp_session_id = ph_session_id header,
                                    pp_packet_counter = ph_packet_counter header,
                                    pp_frames = fs\<rparr>))))"

text \<open>Frames that the wire format can represent: the payload length fits the 16-bit
  length field, and the session id of a rotate frame has its 32 bytes.\<close>

definition frame_wf :: "Frame \<Rightarrow> bool" where
  "frame_wf f \<longleftrightarrow> length (frame_payload f) < 65536 \<and>
     (case f of SessionRotateFrame new_session_id _ \<Rightarrow> length new_session_id = 32 | _ \<Rightarrow> True)"

text \<open>A caller that adds the frames of a stream one after the other; the list holds the
  result of each \<open>add_frame\<close> call.\<close>

fun add_frames :: "PacketBuilder \<Rightarrow> Frame list \<Rightarrow> bool list \<times> PacketBuilder" where
  "add_frames pb [] = ([], pb)"
| "add_frames pb (f # fs) =
     (case add_frame pb f of
        (ok, pb1) \<Rightarrow> (case add_frames pb1 fs of (oks, pb2) \<Rightarrow> (ok # oks, pb2)))"

text \<open>What the wrapper relies on from the AEAD: opening what was sealed under the same
  key, nonce and associated data returns the plaintext, and sealing appends 16 bytes.\<close>

definition aead_correct :: "Sodium \<Rightarrow> bool" where
  "aead_correct L \<longleftrightarrow>
     (\<forall>key nonce plaintext aad.
        sodium_aead_decrypt L key nonce (sodium_aead_encrypt L key nonce plaintext aad) aad
          = Some plaintext
        \<and> length (sodium_aead_encrypt L key nonce plaintext aad) = length plaintext + 16)"

section \<open>A stand-in for the external primitives\<close>

text \<open>
  The closed examples below need some value for the four libsodium functions.
  \<open>demo_sodium\<close> is a deliberately simple instance with the right shapes and no security:
  a byte-wise mask with a 16-byte checksum tag in place of the AEAD, a positional
  checksum with 32 bytes of output in place of HMAC-SHA256, and byte-wise multiplication
  in place of the scalar multiplication (commutative, like Diffie-Hellman).  It is used
  only to instantiate general statements.
\<close>

definition demo_sum :: "bytes \<Rightarrow> u8" where
  "demo_sum xs = foldl (\<lambda>h b. h * 31 + b) 7 xs"

definition demo_tag :: "bytes \<Rightarrow> bytes \<Rightarrow> bytes \<Rightarrow> bytes" where
  "demo_tag key nonce aad = replicate 16 (demo_sum (key @ nonce @ aad))"

definition demo_aead_encrypt :: "bytes \<Rightarrow> bytes \<Rightarrow> bytes \<Rightarrow> bytes \<Rightarrow> bytes" where
  "demo_aead_encrypt key nonce plaintext aad =
     map (\<lambda>b. b XOR demo_sum (key @ nonce)) plaintext @ demo_tag key nonce aad"

definition demo_aead_decrypt :: "bytes \<Rightarrow> bytes \<Rightarrow> bytes \<Rightarrow> bytes \<Rightarrow> bytes option" where
  "demo_aead_decrypt key nonce ciphertext aad =
     (let n = length ciphertext - 16 in
      if length ciphertext \<ge> 16 \<and> drop n ciphertext = demo_tag key nonce aad
      then Some (map (\<lambda>b. b XOR demo_sum (key @ nonce)) (take n ciphertext))
      else None)"

definition demo_hmac :: "bytes \<Rightarrow> bytes \<Rightarrow> bytes" where
  "demo_hmac key msg = map (\<lambda>i. demo_sum (key @ msg) + of_nat i) [0..<32]"

definition demo_scalarmult :: "bytes \<Rightarrow> bytes \<Rightarrow> bytes option" where
  "demo_scalarmult secret public = Some (map2 (*) secret public)"

definition demo_sodium :: Sodium where
  "demo_sodium =
     \<lparr>sodium_aead_encrypt = demo_aead_encrypt, sodium_aead_decrypt = demo_aead_decrypt,
      sodium_hmacsha256 = demo_hmac, sodium_scalarmult = demo_scalarmult\<rparr>"

section \<open>HMAC, HKDF and key exchange (\<open>src/crypto/hkdf.cpp\<close>, \<open>x25519.cpp\<close>, \<open>crypto.cpp\<close>)\<close>

definition hmac_sha256 :: "Sodium \<Rightarrow> bytes \<Rightarrow> bytes \<Rightarrow> bytes" where
  "hmac_sha256 L key message = sodium_hmacsha256 L key message"

definition hkdf_extract :: "Sodium \<Rightarrow> bytes \<Rightarrow> bytes \<Rightarrow> bytes" where
  "hkdf_extract L salt ikm =
     (if salt = [] then hmac_sha256 L (replicate 32 0) ikm else hmac_sha256 L salt ikm)"

text \<open>The block loop of \<open>hkdf_expand\<close>: \<open>T(i) = HMAC(PRK, T(i-1) || info || i)\<close>, with
  \<open>min(32, remaining)\<close> bytes of each block copied to the output.  The arguments are the
  block index \<open>i\<close>, the number of blocks still to produce, the previous block and the
  number of output bytes still missing.\<close>

fun hkdf_expand_loop :: "Sodium \<Rightarrow> bytes \<Rightarrow> bytes \<Rightarrow> nat \<Rightarrow> nat \<Rightarrow> bytes \<Rightarrow> nat \<Rightarrow> bytes" where
  "hkdf_expand_loop L prk info i 0 t_prev remaining = []"
| "hkdf_expand_loop L prk info i (Suc blocks) t_prev remaining =
     (let t = hmac_sha256 L prk (t_prev @ info @ [of_nat i]);
          to_copy = min 32 remaining
      in take to_copy t @ hkdf_expand_loop L prk info (i + 1) blocks t (remaining - to_copy))"

datatype hkdf_error = HKDF_output_too_long

definition hkdf_expand :: "Sodium \<Rightarrow> bytes \<Rightarrow> bytes \<Rightarrow> nat \<Rightarrow> hkdf_error + bytes" where
  "hkdf_expand L prk info output_size =
     (if output_size > 255 * 32 then Inl HKDF_output_too_long
      else Inr (hkdf_expand_loop L prk info 1 ((output_size + 32 - 1) div 32) [] output_size))"

record SessionKeys =
  send_key :: bytes
  recv_key :: bytes
  send_nonce_base :: bytes
  recv_nonce_base :: bytes

definition veil_info :: "string \<Rightarrow> bytes" where
  "veil_info dir = map (\<lambda>c. of_nat (of_char c)) (''veil_v1_'' @ dir)"

text \<open>\<open>derive_session_keys\<close>: four expansions of the same PRK; the flag decides which
  of each pair is stored as the send and which as the receive value.  An exception of
  \<open>hkdf_expand\<close> would propagate.\<close>

definition derive_session_keys ::
  "Sodium \<Rightarrow> bytes \<Rightarrow> bytes \<Rightarrow> bool \<Rightarrow> hkdf_error + SessionKeys" where
  "derive_session_keys L shared_secret session_id is_initiator =
     (let prk = hkdf_extract L session_id shared_secret in
      case hkdf_expand L prk (veil_info ''key_i2r'') 32 of
        Inl e \<Rightarrow> Inl e
      | Inr key_i2r \<Rightarrow>
      (case hkdf_expand L prk (veil_info ''key_r2i'') 32 of
        Inl e \<Rightarrow> Inl e
      | Inr key_r2i \<Rightarrow>
      (case hkdf_expand L prk (veil_info ''nonce_i2r'') 12 of
        Inl e \<Rightarrow> Inl e
      | Inr nonce_i2r \<Rightarrow>
      (case hkdf_expand L prk (veil_info ''nonce_r2i'') 12 of
        Inl e \<Rightarrow> Inl e
      | Inr nonce_r2i \<Rightarrow>
          Inr (if is_initiator
               then \<lparr>send_key = key_i2r, recv_key = key_r2i,
                     send_nonce_base = nonce_i2r, recv_nonce_base = nonce_r2i\<rparr>
               else \<lparr>send_key = key_r2i, recv_key = key_i2r,
                     send_nonce_base = nonce_r2i, recv_nonce_base = nonce_i2r\<rparr>)))))"

record X25519KeyPair =
  secret_key :: bytes
  public_key :: bytes

definition key_exchange :: "Sodium \<Rightarrow> bytes \<Rightarrow> bytes \<Rightarrow> bytes option" where
  "key_exchange L our_secret their_public =
     (case sodium_scalarmult L our_secret their_public of
        None \<Rightarrow> None
      | Some shared \<Rightarrow> if list_all (\<lambda>b. b = 0) shared then None else Some shared)"

definition constant_time_compare :: "bytes \<Rightarrow> bytes \<Rightarrow> bool" where
  "constant_time_compare a b = (if length a \<noteq> length b then False else a = b)"

text \<open>\<open>std::memcmp\<close> on the first \<open>n\<close> bytes: the sign of the first difference, bytes
  compared as unsigned.  It is only called on two 32-byte arrays.\<close>

fun memcmp :: "bytes \<Rightarrow> bytes \<Rightarrow> nat \<Rightarrow> int" where
  "memcmp (a # as) (b # bs) (Suc n) =
     (if a < b then - 1 else if b < a then 1 else memcmp as bs n)"
| "memcmp _ _ _ = 0"

section \<open>Handshake (\<open>src/handshake/handshake.cpp\<close>)\<close>

datatype HandshakeState = IDLE | INIT_SENT | INIT_RECEIVED | RESPONSE_SENT | COMPLETE | FAILED

datatype HandshakeError = NONE | INVALID_MESSAGE | TIMESTAMP_OUT_OF_RANGE
  | HMAC_VERIFICATION_FAILED | KEY_EXCHANGE_FAILED | PSK_REQUIRED_BUT_MISSING | RATE_LIMITED
  | INTERNAL_ERROR

record HandshakeConfig =
  psk :: bytes
  timestamp_tolerance_sec :: u64
  require_psk :: bool
  max_handshake_attempts :: u64

record HandshakeResult =
  hr_session_keys :: SessionKeys
  hr_session_id :: bytes
  is_initiator :: bool

text \<open>
  The key pair is drawn by \<open>generate_keypair()\<close> in the constructor; it is an argument of
  \<open>Handshake_new\<close>.  \<open>system_time\<close> is what the system clock returns when no test time
  has been set.  Every invocation of the send callback is recorded in \<open>hs_sent\<close>.
\<close>

record Handshake =
  hs_config :: HandshakeConfig
  hs_state :: HandshakeState
  hs_last_error :: HandshakeError
  hs_has_send_callback :: bool
  hs_sent :: "bytes list"
  our_keypair :: X25519KeyPair
  peer_public_key :: bytes
  shared_secret :: "bytes option"
  hs_session_id :: bytes
  transcript :: bytes
  current_time :: u64
  system_time :: u64

definition Handshake_new :: "HandshakeConfig \<Rightarrow> X25519KeyPair \<Rightarrow> u64 \<Rightarrow> Handshake" where
  "Handshake_new config keypair clock =
     \<lparr>hs_config = config, hs_state = IDLE, hs_last_error = NONE, hs_has_send_callback = False,
      hs_sent = [], our_keypair = keypair, peer_public_key = replicate 32 0,
      shared_secret = None, hs_session_id = replicate 32 0, transcript = [],
      current_time = 0, system_time = clock\<rparr>"

definition set_send_callback :: "Handshake \<Rightarrow> Handshake" where
  "set_send_callback h = h\<lparr>hs_has_send_callback := True\<rparr>"

definition set_current_time :: "Handshake \<Rightarrow> u64 \<Rightarrow> Handshake" where
  "set_current_time h t = h\<lparr>current_time := t\<rparr>"

definition get_current_time :: "Handshake \<Rightarrow> u64" where
  "get_current_time h = (if current_time h \<noteq> 0 then current_time h else system_time h)"

definition MSG_INIT :: u8 where "MSG_INIT = 0x01"
definition MSG_RESPONSE :: u8 where "MSG_RESPONSE = 0x02"
definition MSG_FINISH :: u8 where "MSG_FINISH = 0x03"
definition MSG_HEADER_SIZE :: nat where "MSG_HEADER_SIZE = 1 + 8 + 2"
definition MSG_HMAC_SIZE :: nat where "MSG_HMAC_SIZE = 32"

definition compute_hmac :: "Sodium \<Rightarrow> Handshake \<Rightarrow> bytes \<Rightarrow> bytes" where
  "compute_hmac L h dat = hmac_sha256 L (psk (hs_config h)) dat"

definition verify_hmac :: "Sodium \<Rightarrow> Handshake \<Rightarrow> bytes \<Rightarrow> bytes \<Rightarrow> bool" where
  "verify_hmac L h dat expected_hmac = constant_time_compare (compute_hmac L h dat) expected_hmac"

definition send_message :: "Handshake \<Rightarrow> bytes \<Rightarrow> Handshake" where
  "send_message h msg = (if hs_has_send_callback h then h\<lparr>hs_sent := hs_sent h @ [msg]\<rparr> else h)"

text \<open>\<open>build_message\<close> returns the message and appends it to the transcript.  The local
  \<open>write_u64\<close> and \<open>write_u16\<close> of \<open>handshake.cpp\<close> are big-endian like the packet
  builder's.\<close>

definition build_message :: "Sodium \<Rightarrow> Handshake \<Rightarrow> u8 \<Rightarrow> bytes \<Rightarrow> bytes \<times> Handshake" where
  "build_message L h type payload =
     (let body = [type] @ write_u64 (get_current_time h)
                 @ write_u16 (of_nat (length payload)) @ payload;
          msg = body @ compute_hmac L h body
      in (msg, h\<lparr>transcript := transcript h @ msg\<rparr>))"

definition initiate :: "Sodium \<Rightarrow> Handshake \<Rightarrow> bool \<times> Handshake" where
  "initiate L h =
     (if hs_state h \<noteq> IDLE then (False, h\<lparr>hs_last_error := INTERNAL_ERROR\<rparr>)
      else
        (let (msg, h1) = build_message L h MSG_INIT (public_key (our_keypair h));
             h2 = send_message h1 msg
         in (True, h2\<lparr>hs_state := INIT_SENT\<rparr>)))"

definition derive_session_id :: "Sodium \<Rightarrow> Handshake \<Rightarrow> Handshake" where
  "derive_session_id L h =
     h\<lparr>hs_session_id := hmac_sha256 L (psk (hs_config h)) (transcript h)\<rparr>"

definition handle_init :: "Sodium \<Rightarrow> Handshake \<Rightarrow> bytes \<Rightarrow> bool \<times> Handshake" where
  "handle_init L h payload =
     (if hs_state h \<noteq> IDLE then (False, h\<lparr>hs_last_error := INVALID_MESSAGE\<rparr>)
      else if length payload \<noteq> 32 then (False, h\<lparr>hs_last_error := INVALID_MESSAGE\<rparr>)
      else
        (let h1 = h\<lparr>peer_public_key := payload\<rparr> in
         case key_exchange L (secret_key (our_keypair h1)) (peer_public_key h1) of
           None \<Rightarrow> (False, h1\<lparr>hs_last_error := KEY_EXCHANGE_FAILED\<rparr>)
         | Some shared \<Rightarrow>
             (let h2 = h1\<lparr>shared_secret := Some shared, hs_state := INIT_RECEIVED\<rparr>;
                  (msg, h3) = build_message L h2 MSG_RESPONSE (public_key (our_keypair h2));
                  h4 = send_message h3 msg
              in (False, h4\<lparr>hs_state := RESPONSE_SENT\<rparr>))))"

definition handle_response :: "Sodium \<Rightarrow> Handshake \<Rightarrow> bytes \<Rightarrow> bool \<times> Handshake" where
  "handle_response L h payload =
     (if hs_state h \<noteq> INIT_SENT then (False, h\<lparr>hs_last_error := INVALID_MESSAGE\<rparr>)
      else if length payload \<noteq> 32 then (False, h\<lparr>hs_last_error := INVALID_MESSAGE\<rparr>)
      else
        (let h1 = h\<lparr>peer_public_key := payload\<rparr> in
         case key_exchange L (secret_key (our_keypair h1)) (peer_public_key h1) of
           None \<Rightarrow> (False, h1\<lparr>hs_last_error := KEY_EXCHANGE_FAILED\<rparr>)
         | Some shared \<Rightarrow>
             (let h2 = h1\<lparr>shared_secret := Some shared\<rparr>;
                  (msg, h3) = build_message L h2 MSG_FINISH [];
                  h4 = send_message h3 msg;
                  h5 = derive_session_id L h4
              in (True, h5\<lparr>hs_state := COMPLETE\<rparr>))))"

definition handle_finish :: "Sodium \<Rightarrow> Handshake \<Rightarrow> bytes \<Rightarrow> bool \<times> Handshake" where
  "handle_finish L h payload =
     (if hs_state h \<noteq> RESPONSE_SENT then (False, h\<lparr>hs_last_error := INVALID_MESSAGE\<rparr>)
      else (True, (derive_session_id L h)\<lparr>hs_state := COMPLETE\<rparr>))"

definition process_message :: "Sodium \<Rightarrow> Handshake \<Rightarrow> bytes \<Rightarrow> bool \<times> Handshake" where
  "process_message L h message =
     (if length message < MSG_HEADER_SIZE + MSG_HMAC_SIZE
      then (False, h\<lparr>hs_last_error := INVALID_MESSAGE\<rparr>)
      else
        (let type = hd message;
             timestamp = read_u64 (drop 1 message);
             payload_len = unat (read_u16 (drop 9 message))
         in if length message \<noteq> MSG_HEADER_SIZE + payload_len + MSG_HMAC_SIZE
            then (False, h\<lparr>hs_last_error := INVALID_MESSAGE\<rparr>)
            else
              (let now = get_current_time h;
                   diff = (if timestamp > now then timestamp - now else now - timestamp)
               in if diff > timestamp_tolerance_sec (hs_config h)
                  then (False, h\<lparr>hs_last_error := TIMESTAMP_OUT_OF_RANGE\<rparr>)
                  else
                    (let hmac_offset = MSG_HEADER_SIZE + payload_len;
                         msg_without_hmac = take hmac_offset message;
                         received_hmac = take MSG_HMAC_SIZE (drop hmac_offset message)
                     in if \<not> verify_hmac L h msg_without_hmac received_hmac
                        then (False, h\<lparr>hs_last_error := HMAC_VERIFICATION_FAILED\<rparr>)
                        else
                          (let h1 = h\<lparr>transcript := transcript h @ message\<rparr>;
                               payload = take payload_len (drop MSG_HEADER_SIZE message)
                           in if type = MSG_INIT then handle_init L h1 payload
                              else if type = MSG_RESPONSE then handle_response L h1 payload
                              else if type = MSG_FINISH then handle_finish L h1 payload
                              else (False, h1\<lparr>hs_last_error := INVALID_MESSAGE\<rparr>))))))"

text \<open>\<open>result()\<close>: the flag is first set from the state and then overwritten by the
  comparison of the two public keys; the comparison also selects the key directions.\<close>

definition result :: "Sodium \<Rightarrow> Handshake \<Rightarrow> hkdf_error + HandshakeResult option" where
  "result L h =
     (case (hs_state h, shared_secret h) of
        (COMPLETE, Some shared) \<Rightarrow>
          (let flag = (memcmp (public_key (our_keypair h)) (peer_public_key h) 32 < 0) in
           case derive_session_keys L shared (hs_session_id h) flag of
             Inl e \<Rightarrow> Inl e
           | Inr keys \<Rightarrow>
               Inr (Some \<lparr>hr_session_keys = keys, hr_session_id = hs_session_id h,
                          is_initiator = flag\<rparr>))
      | _ \<Rightarrow> Inr None)"

text \<open>
  The three-message exchange between two endpoints, driven as in
  \<open>tests/handshake_test.cpp\<close>: each message handed to the send callback is delivered to
  the peer.  The result is the pair of final endpoint states (initiator, responder) when
  every step reports what a successful run reports, and \<open>None\<close> otherwise.
\<close>

definition last_sent :: "Handshake \<Rightarrow> bytes option" where
  "last_sent h = (case rev (hs_sent h) of [] \<Rightarrow> None | m # _ \<Rightarrow> Some m)"

definition handshake_exchange ::
  "Sodium \<Rightarrow> Handshake \<Rightarrow> Handshake \<Rightarrow> (Handshake \<times> Handshake) option" where
  "handshake_exchange L initiator responder =
     (case initiate L initiator of
        (ok, i1) \<Rightarrow>
          if \<not> ok then None
          else (case last_sent i1 of
                  None \<Rightarrow> None
                | Some init_msg \<Rightarrow>
                    (case process_message L responder init_msg of
                       (done1, r1) \<Rightarrow>
                         if done1 \<or> hs_state r1 \<noteq> RESPONSE_SENT then None
                         else (case last_sent r1 of
                                 None \<Rightarrow> None
                               | Some response_msg \<Rightarrow>
                                   (case process_message L i1 response_msg of
                                      (done2, i2) \<Rightarrow>
                                        if \<not> done2 then None
                                        else (case last_sent i2 of
                                                None \<Rightarrow> None
                                              | Some finish_msg \<Rightarrow>
                                                  (case process_message L r1 finish_msg of
                                                     (done3, r2) \<Rightarrow>
                                                       if \<not> done3 then None
                                                       else Some (i2, r2))))))))"

text \<open>A handshake message as \<open>build_message\<close> lays it out, for a given key, type,
  timestamp and payload.\<close>

definition handshake_msg :: "Sodium \<Rightarrow> bytes \<Rightarrow> u8 \<Rightarrow> u64 \<Rightarrow> bytes \<Rightarrow> bytes" where
  "handshake_msg L key type ts payload =
     (let body = [type] @ write_u64 ts @ write_u16 (of_nat (length payload)) @ payload
      in body @ hmac_sha256 L key body)"

text \<open>
  The starting point of an exchange between two honest endpoints: both are fresh
  (\<open>IDLE\<close>, empty transcript, send callback installed), they hold the same PSK, their
  clocks are within each other's tolerance, the HMAC has its 32 bytes, the public keys
  their 32 bytes, and the key exchange succeeds with the same shared secret on both sides
  (the Diffie-Hellman property of X25519).
\<close>

definition clock_skew :: "u64 \<Rightarrow> u64 \<Rightarrow> u64" where
  "clock_skew timestamp now = (if timestamp > now then timestamp - now else now - timestamp)"

definition exchange_ready :: "Sodium \<Rightarrow> Handshake \<Rightarrow> Handshake \<Rightarrow> bool" where
  "exchange_ready L i r \<longleftrightarrow>
     (\<forall>k m. length (sodium_hmacsha256 L k m) = 32)
     \<and> hs_state i = IDLE \<and> hs_state r = IDLE
     \<and> transcript i = [] \<and> transcript r = []
     \<and> hs_sent i = [] \<and> hs_sent r = []
     \<and> hs_has_send_callback i \<and> hs_has_send_callback r
     \<and> psk (hs_config i) = psk (hs_config r)
     \<and> length (public_key (our_keypair i)) = 32 \<and> length (public_key (our_keypair r)) = 32
     \<and> key_exchange L (secret_key (our_keypair i)) (public_key (our_keypair r)) \<noteq> None
     \<and> key_exchange L (secret_key (our_keypair i)) (public_key (our_keypair r))
         = key_exchange L (secret_key (our_keypair r)) (public_key (our_keypair i))
     \<and> clock_skew (get_current_time i) (get_current_time r)
           \<le> timestamp_tolerance_sec (hs_config r)
     \<and> clock_skew (get_current_time r) (get_current_time i)
           \<le> timestamp_tolerance_sec (hs_config i)"

text \<open>The single block that \<open>hkdf_expand\<close> produces for an output of at most 32 bytes
  under the label \<open>veil_v1_<dir>\<close>.\<close>

definition expand_fixed :: "Sodium \<Rightarrow> bytes \<Rightarrow> string \<Rightarrow> nat \<Rightarrow> bytes" where
  "expand_fixed L prk dir n = take n (hmac_sha256 L prk (veil_info dir @ [1]))"

section \<open>Rate limiter (\<open>src/mux/rate_limiter.cpp\<close>)\<close>

record RateLimiterConfig =
  packets_per_second :: u64
  bytes_per_second :: u64
  burst_packets :: u64
  burst_bytes :: u64

record RateLimiter =
  rl_config :: RateLimiterConfig
  packet_tokens :: u64
  byte_tokens :: u64
  rl_packets_dropped :: u64
  rl_bytes_dropped :: u64

definition RateLimiter_new :: "RateLimiterConfig \<Rightarrow> RateLimiter" where
  "RateLimiter_new cfg =
     \<lparr>rl_config = cfg, packet_tokens = burst_packets cfg, byte_tokens = burst_bytes cfg,
      rl_packets_dropped = 0, rl_bytes_dropped = 0\<rparr>"

definition RateLimiter_check :: "RateLimiter \<Rightarrow> u64 \<Rightarrow> bool" where
  "RateLimiter_check rl packet_bytes \<longleftrightarrow> packet_tokens rl \<ge> 1 \<and> byte_tokens rl \<ge> packet_bytes"

definition consume :: "RateLimiter \<Rightarrow> u64 \<Rightarrow> RateLimiter" where
  "consume rl packet_bytes =
     (let rl1 = (if packet_tokens rl > 0 then rl\<lparr>packet_tokens := packet_tokens rl - 1\<rparr> else rl)
      in if byte_tokens rl1 \<ge> packet_bytes
         then rl1\<lparr>byte_tokens := byte_tokens rl1 - packet_bytes\<rparr>
         else rl1\<lparr>byte_tokens := 0\<rparr>)"

definition try_consume :: "RateLimiter \<Rightarrow> u64 \<Rightarrow> bool \<times> RateLimiter" where
  "try_consume rl packet_bytes =
     (if \<not> RateLimiter_check rl packet_bytes
      then (False, rl\<lparr>rl_packets_dropped := rl_packets_dropped rl + 1,
                      rl_bytes_dropped := rl_bytes_dropped rl + packet_bytes\<rparr>)
      else (True, consume rl packet_bytes))"

section \<open>Transport session, send path (\<open>src/transport/transport_session.cpp\<close>)\<close>

text \<open>The session holds the members the send path reads or writes.  Of the session
  rotator these are the current session identifier and the two sent counters; of the
  statistics the four counters the send path increments.  The UDP socket is the list
  \<open>wire\<close> of the datagrams handed to \<open>sendto\<close> successfully.  What the environment decides is
  a parameter of each call: the reading of the steady clock (\<open>get_time_ms\<close>) and the result
  of \<open>socket_.send_to\<close> for a datagram.\<close>

datatype SessionState = DISCONNECTED | HANDSHAKING | CONNECTED | CLOSING | CLOSED

record TransportStats =
  packets_sent :: u64
  bytes_sent :: u64
  packets_dropped_rate_limit :: u64
  messages_fragmented :: u64

record SessionRotator =
  current_session_id :: u64
  sr_packets_sent :: u64
  sr_bytes_sent :: u64

definition on_packet_sent :: "SessionRotator \<Rightarrow> u64 \<Rightarrow> SessionRotator" where
  "on_packet_sent sr n =
     sr\<lparr>sr_packets_sent := sr_packets_sent sr + 1, sr_bytes_sent := sr_bytes_sent sr + n\<rparr>"

record TransportSessionConfig =
  mtu :: u64
  cfg_rate_limiter :: RateLimiterConfig
  cfg_retransmission :: RetransmissionConfig

record Env =
  time_ms :: u64
  send_to :: "bytes \<Rightarrow> bool"

record TransportSession =
  ts_config :: TransportSessionConfig
  ts_state :: SessionState
  packet_builder :: PacketBuilder
  rate_limiter :: RateLimiter
  retransmission :: RetransmissionManager
  session_rotator :: SessionRotator
  send_sequence :: u64
  next_message_id :: u32
  session_keys :: SessionKeys
  stats :: TransportStats
  wire :: "bytes list"

text \<open>The constructor: the builder gets the MTU, the retransmission manager gets both
  callbacks, the counters start at 1, the session keys are value-initialised.  The first
  session identifier is drawn at random by the rotator's constructor; it is the argument
  \<open>sid\<close>.\<close>

definition TransportSession_new :: "TransportSessionConfig \<Rightarrow> u64 \<Rightarrow> TransportSession" where
  "TransportSession_new cfg sid =
     \<lparr>ts_config = cfg, ts_state = DISCONNECTED,
      packet_builder = PacketBuilder_new (mtu cfg),
      rate_limiter = RateLimiter_new (cfg_rate_limiter cfg),
      retransmission = set_drop_callback (set_retransmit_callback
                         (RetransmissionManager_new (cfg_retransmission cfg))),
      session_rotator = \<lparr>current_session_id = sid, sr_packets_sent = 0, sr_bytes_sent = 0\<rparr>,
      send_sequence = 1, next_message_id = 1,
      session_keys = \<lparr>send_key = replicate 32 0, recv_key = replicate 32 0,
                      send_nonce_base = replicate 12 0, recv_nonce_base = replicate 12 0\<rparr>,
      stats = \<lparr>packets_sent = 0, bytes_sent = 0, packets_dropped_rate_limit = 0,
               messages_fragmented = 0\<rparr>,
      wire = []\<rparr>"

text \<open>The constructor builds the packet builder from the MTU and throws what that
  constructor throws; \<open>TransportSession_new\<close> is the session it leaves when it returns.\<close>

definition TransportSession_construct ::
  "TransportSessionConfig \<Rightarrow> u64 \<Rightarrow> construct_error + TransportSession" where
  "TransportSession_construct cfg sid =
     (case PacketBuilder_construct (mtu cfg) of
        Inl e \<Rightarrow> Inl e
      | Inr pb \<Rightarrow> Inr (TransportSession_new cfg sid))"

definition set_state :: "TransportSession \<Rightarrow> SessionState \<Rightarrow> TransportSession" where
  "set_state ts new_state = (if ts_state ts \<noteq> new_state then ts\<lparr>ts_state := new_state\<rparr> else ts)"

text \<open>What \<open>handle_handshake_frame\<close> does to the session once the handshake has completed with
  a result: it installs the session keys and enters \<open>CONNECTED\<close>.\<close>

definition handshake_completed :: "TransportSession \<Rightarrow> SessionKeys \<Rightarrow> TransportSession" where
  "handshake_completed ts keys =
     set_state (ts\<lparr>session_keys := keys,
                   packet_builder := set_encryption_key (packet_builder ts)
                                       (send_key keys) (send_nonce_base keys)\<rparr>) CONNECTED"

text \<open>A call leaves the session by an exception when \<open>build\<close> throws, and has no defined
  result when \<open>fragment_data\<close> divides by a zero fragment size or is asked for more than
  65535 fragments (its 16-bit loop counter then never reaches the bound).\<close>

datatype send_fault = Build_threw build_error | Fragmentation_undefined

definition send_packet_internal ::
  "Sodium \<Rightarrow> Env \<Rightarrow> TransportSession \<Rightarrow> Frame \<Rightarrow> send_fault + bool \<times> TransportSession" where
  "send_packet_internal L env ts frame =
     (case try_consume (rate_limiter ts) (frame_size frame) of
        (False, rl) \<Rightarrow>
          Inr (False, ts\<lparr>rate_limiter := rl,
                         stats := (stats ts)\<lparr>packets_dropped_rate_limit :=
                                    packets_dropped_rate_limit (stats ts) + 1\<rparr>\<rparr>)
      | (True, rl) \<Rightarrow>
         (let pb0 = PacketBuilder_reset (packet_builder ts);
              pb1 = set_session_id pb0 (current_session_id (session_rotator ts));
              pb2 = set_encryption_key pb1 (send_key (session_keys ts))
                      (send_nonce_base (session_keys ts));
              ts1 = ts\<lparr>rate_limiter := rl\<rparr>
          in case add_frame pb2 frame of
               (False, pb3) \<Rightarrow> Inr (False, ts1\<lparr>packet_builder := pb3\<rparr>)
             | (True, pb3) \<Rightarrow>
                (case build L pb3 (send_sequence ts1) of
                   (Inl e, pb4) \<Rightarrow> Inl (Build_threw e)
                 | (Inr packet_data, pb4) \<Rightarrow>
                    (let ts2 = ts1\<lparr>packet_builder := pb4\<rparr>;
                         ts3 = (if holds_DataFrame frame
                                then ts2\<lparr>retransmission :=
                                       snd (register_packet (retransmission ts2)
                                              (send_sequence ts2) packet_data (time_ms env))\<rparr>
                                else ts2);
                         sent = send_to env packet_data
                     in if sent
                        then Inr (True,
                               ts3\<lparr>wire := wire ts3 @ [packet_data],
                                   send_sequence := send_sequence ts3 + 1,
                                   stats := (stats ts3)
                                     \<lparr>packets_sent := packets_sent (stats ts3) + 1,
                                      bytes_sent := bytes_sent (stats ts3) + size_of packet_data\<rparr>,
                                   session_rotator :=
                                     on_packet_sent (session_rotator ts3) (size_of packet_data)\<rparr>)
                        else Inr (False, ts3)))))"

text \<open>The loop of \<open>fragment_data\<close>; the first argument counts the iterations that remain.\<close>

fun fragment_loop :: "nat \<Rightarrow> u64 \<Rightarrow> u32 \<Rightarrow> u64 \<Rightarrow> bytes \<Rightarrow> u64 \<Rightarrow> u16 \<Rightarrow> Frame list" where
  "fragment_loop 0 max_fragment msg_id total_fragments dat offset i = []"
| "fragment_loop (Suc n) max_fragment msg_id total_fragments dat offset i =
     (let chunk_size = min max_fragment (size_of dat - offset) in
      FragmentFrame msg_id i (ucast total_fragments)
          (take (unat chunk_size) (drop (unat offset) dat))
        # fragment_loop n max_fragment msg_id total_fragments dat (offset + chunk_size) (i + 1))"

definition fragment_data ::
  "TransportSession \<Rightarrow> bytes \<Rightarrow> (Frame list \<times> TransportSession) option" where
  "fragment_data ts dat =
     (let max_fragment = mtu (ts_config ts) - PacketHeader_SIZE - FrameHeader_SIZE - 8
                           - POLY1305_TAG_SIZE;
          msg_id = next_message_id ts;
          ts1 = ts\<lparr>next_message_id := next_message_id ts + 1\<rparr>
      in if max_fragment = 0 then None
         else
           (let total_fragments = (size_of dat + max_fragment - 1) div max_fragment
            in if total_fragments > 65535 then None
               else Some (fragment_loop (unat total_fragments) max_fragment msg_id
                            total_fragments dat 0 0, ts1)))"

fun send_fragments ::
  "Sodium \<Rightarrow> Env \<Rightarrow> TransportSession \<Rightarrow> Frame list \<Rightarrow> bool \<Rightarrow> send_fault + bool \<times> TransportSession"
  where
  "send_fragments L env ts [] success = Inr (success, ts)"
| "send_fragments L env ts (frag # frags) success =
     (case send_packet_internal L env ts frag of
        Inl e \<Rightarrow> Inl e
      | Inr (ok, ts1) \<Rightarrow> send_fragments L env ts1 frags (if \<not> ok then False else success))"

definition send ::
  "Sodium \<Rightarrow> Env \<Rightarrow> TransportSession \<Rightarrow> bytes \<Rightarrow> send_fault + bool \<times> TransportSession" where
  "send L env ts dat =
     (if ts_state ts \<noteq> CONNECTED then Inr (False, ts)
      else
        (let max_payload = mtu (ts_config ts) - PacketHeader_SIZE - FrameHeader_SIZE - 8
                             - POLY1305_TAG_SIZE
         in if size_of dat \<le> max_payload
            then
              (let frame = DataFrame (send_sequence ts) dat;
                   ts1 = ts\<lparr>send_sequence := send_sequence ts + 1\<rparr>
               in send_packet_internal L env ts1 frame)
            else
              (case fragment_data ts dat of
                 None \<Rightarrow> Inl Fragmentation_undefined
               | Some (fragments, ts1) \<Rightarrow>
                   send_fragments L env
                     (ts1\<lparr>stats := (stats ts1)\<lparr>messages_fragmented :=
                                      messages_fragmented (stats ts1) + 1\<rparr>\<rparr>)
                     fragments True)))"

text \<open>Sending one handshake message the way the send callback installed by \<open>start\<close> does:
  wrapped in a HANDSHAKE frame of stage \<open>INIT\<close> (0x01).\<close>

definition send_handshake_message ::
  "Sodium \<Rightarrow> Env \<Rightarrow> TransportSession \<Rightarrow> bytes \<Rightarrow> send_fault + bool \<times> TransportSession" where
  "send_handshake_message L env ts msg = send_packet_internal L env ts (HandshakeFrame 1 msg)"

text \<open>The sequence numbers under which the retransmission manager holds unacknowledged
  packets.\<close>

definition unacked_keys :: "TransportSession \<Rightarrow> u64 list" where
  "unacked_keys ts = map fst (unacked (retransmission ts))"

section \<open>Replay window: acceptance rule\<close>


lemma ReplayWindow_check_too_old:
  assumes "rw_initialized w" and "unat seq + 64 \<le> unat (rw_highest_seq w)"
  shows "\<not> ReplayWindow_check w seq"
proof -
  have "unat (seq + 64) = unat seq + 64"
    using assms(2) unsigned_less [of "rw_highest_seq w", where ?'a = nat]
    by (simp add: unat_word_ariths)
  then have "seq + 64 \<le> rw_highest_seq w"
    using assms(2) by (simp add: word_le_nat_alt)
  then show ?thesis
    using assms(1) by (simp add: ReplayWindow_check_def WINDOW_SIZE_def)
qed

lemma and_exp_eq_0_iff: "(b :: u64) AND 2 ^ n = 0 \<longleftrightarrow> \<not> bit b n"
proof
  assume h: "b AND 2 ^ n = 0"
  show "\<not> bit b n"
  proof
    assume "bit b n"
    then have "n < 64" using bit_imp_le_length [of b n] by simp
    with \<open>bit b n\<close> have "bit (b AND 2 ^ n) n"
      by (simp add: bit_and_iff bit_exp_iff)
    with h show False by simp
  qed
next
  assume "\<not> bit b n"
  then show "b AND 2 ^ n = 0"
    by (intro bit_eqI) (auto simp: bit_and_iff bit_exp_iff)
qed

lemma and_push_bit_1_eq_0_iff: "(b :: u64) AND push_bit n 1 = 0 \<longleftrightarrow> \<not> bit b n"
  by (simp add: and_exp_eq_0_iff)

lemma ReplayWindow_check_iff_no_wrap:
  assumes "rw_initialized w" and "unat seq + 64 < 2 ^ 64"
  shows "ReplayWindow_check w seq \<longleftrightarrow>
     (seq > rw_highest_seq w \<or>
      (1 \<le> unat (rw_highest_seq w) - unat seq \<and> unat (rw_highest_seq w) - unat seq \<le> 63 \<and>
       \<not> bit (rw_bitmap w) (unat (rw_highest_seq w) - unat seq - 1)))"
proof -
  define h where "h = rw_highest_seq w"
  have s64: "unat (seq + 64) = unat seq + 64"
    using assms(2) by (simp add: unat_word_ariths)
  show ?thesis
  proof (cases "seq + 64 \<le> h")
    case True
    then have "unat seq + 64 \<le> unat h" using s64 by (simp add: word_le_nat_alt)
    then have "\<not> h < seq" "\<not> unat h - unat seq \<le> 63"
      by (simp_all add: word_less_nat_alt)
    with True assms(1) show ?thesis
      by (simp add: ReplayWindow_check_def WINDOW_SIZE_def h_def)
  next
    case False
    then have lt: "unat h < unat seq + 64" using s64 by (simp add: word_le_nat_alt)
    show ?thesis
    proof (cases "h < seq")
      case True
      with False assms(1) show ?thesis
        by (simp add: ReplayWindow_check_def WINDOW_SIZE_def h_def)
    next
      case nlt: False
      show ?thesis
      proof (cases "seq = h")
        case True
        with False assms(1) show ?thesis
          by (simp add: ReplayWindow_check_def WINDOW_SIZE_def h_def)
      next
        case ne: False
        then have sl: "seq < h" using nlt by simp
        then have ul: "unat seq < unat h" by (simp add: word_less_nat_alt)
        have d: "unat (h - seq - 1) = unat h - unat seq - 1"
          using sl ul by unat_arith
        have dl: "h - seq - 1 < 64"
          using d lt ul by (simp add: word_less_nat_alt)
        show ?thesis
          using False nlt ne assms(1) dl d ul lt
          by (auto simp add: ReplayWindow_check_def WINDOW_SIZE_def h_def [symmetric] Let_def
              and_exp_eq_0_iff)
      qed
    qed
  qed
qed

lemma unat_diff_pred:
  fixes h c :: u64
  assumes "c < h"
  shows "unat (h - c - 1) = unat h - unat c - 1"
  using assms by unat_arith

lemma rw_seen_rejected:
  assumes "rw_seen w c"
  shows "\<not> ReplayWindow_check w c"
proof (cases "c = rw_highest_seq w")
  case True
  with assms show ?thesis by (simp add: rw_seen_def ReplayWindow_check_def)
next
  case False
  with assms have lt: "c < rw_highest_seq w" by (auto simp: rw_seen_def)
  from assms False consider "64 \<le> unat (rw_highest_seq w) - unat c"
    | "bit (rw_bitmap w) (unat (rw_highest_seq w) - unat c - 1)"
    by (auto simp: rw_seen_def)
  then show ?thesis
  proof cases
    case 1
    then have "unat c + 64 \<le> unat (rw_highest_seq w)" by simp
    then show ?thesis
      using assms ReplayWindow_check_too_old by (simp add: rw_seen_def)
  next
    case 2
    then show ?thesis
      using assms lt False
      by (auto simp: rw_seen_def ReplayWindow_check_def Let_def unat_diff_pred and_exp_eq_0_iff)
  qed
qed

lemma rw_seen_after_accept:
  assumes "ReplayWindow_check w c"
  shows "rw_seen (ReplayWindow_update w c) c"
proof (cases "rw_initialized w")
  case False
  then show ?thesis by (simp add: ReplayWindow_update_def rw_seen_def)
next
  case True
  show ?thesis
  proof (cases "rw_highest_seq w < c")
    case gt: True
    with True show ?thesis by (simp add: ReplayWindow_update_def rw_seen_def Let_def)
  next
    case False
    with assms True have lt: "c < rw_highest_seq w"
      and d: "rw_highest_seq w - c - 1 < 64"
      by (auto simp: ReplayWindow_check_def Let_def WINDOW_SIZE_def split: if_splits)
    from d have "unat (rw_highest_seq w) - unat c - 1 < 64"
      using unat_diff_pred [OF lt] by (simp add: word_less_nat_alt)
    then show ?thesis
      using True lt d unat_diff_pred [OF lt]
      by (auto simp: ReplayWindow_update_def rw_seen_def Let_def WINDOW_SIZE_def
          bit_or_iff bit_exp_iff)
  qed
qed

lemma rw_seen_preserved:
  assumes "rw_seen w c" and "ReplayWindow_check w d"
  shows "rw_seen (ReplayWindow_update w d) c"
proof -
  define h where "h = rw_highest_seq w"
  from assms(1) have init: "rw_initialized w" and le: "c \<le> h"
    and dis: "c = h \<or> 64 \<le> unat h - unat c \<or> bit (rw_bitmap w) (unat h - unat c - 1)"
    by (simp_all add: rw_seen_def h_def)
  from le have ule: "unat c \<le> unat h" by (simp add: word_le_nat_alt)
  show ?thesis
  proof (cases "h < d")
    case gt: True
    then have ugt: "unat h < unat d" by (simp add: word_less_nat_alt)
    have sh: "unat (d - h) = unat d - unat h" using gt by unat_arith
    have sh1: "unat (d - h - 1) = unat d - unat h - 1" using gt by (rule unat_diff_pred)
    have cd: "c \<le> d" using le gt by simp
    show ?thesis
    proof (cases "64 \<le> d - h")
      case True
      then have "64 \<le> unat d - unat h" using sh by (simp add: word_le_nat_alt)
      then have "64 \<le> unat d - unat c" using ule by simp
      with init gt True cd show ?thesis
        by (simp add: ReplayWindow_update_def rw_seen_def Let_def WINDOW_SIZE_def h_def [symmetric])
    next
      case False
      then have s64: "unat d - unat h < 64" using sh by (simp add: word_le_nat_alt)
      have upd: "ReplayWindow_update w d =
                   w\<lparr>rw_bitmap := push_bit (unat d - unat h) (rw_bitmap w)
                                    OR push_bit (unat d - unat h - 1) 1,
                     rw_highest_seq := d\<rparr>"
        using init gt False sh sh1
        by (simp add: ReplayWindow_update_def Let_def WINDOW_SIZE_def h_def [symmetric])
      from dis consider "c = h" | "64 \<le> unat h - unat c"
        | "c \<noteq> h" "unat h - unat c < 64" "bit (rw_bitmap w) (unat h - unat c - 1)"
        by fastforce
      then show ?thesis
      proof cases
        case 1
        then show ?thesis
          using init cd s64 ugt unfolding upd
          by (auto simp: rw_seen_def bit_or_iff bit_push_bit_iff bit_exp_iff)
      next
        case 2
        then have "64 \<le> unat d - unat c" using ugt by simp
        then show ?thesis using init cd unfolding upd by (simp add: rw_seen_def)
      next
        case 3
        then have clt: "unat c < unat h" using ule by (simp add: word_unat_eq_iff)
        show ?thesis
        proof (cases "64 \<le> unat d - unat c")
          case True
          then show ?thesis using init cd unfolding upd by (simp add: rw_seen_def)
        next
          case False
          have idx: "unat d - unat c - 1 = (unat h - unat c - 1) + (unat d - unat h)"
            using clt ugt by simp
          have "bit (push_bit (unat d - unat h) (rw_bitmap w)) (unat d - unat c - 1)"
            unfolding idx using 3(3) False clt ugt
            by (auto simp add: bit_push_bit_iff)
          then show ?thesis
            using init cd unfolding upd by (simp add: rw_seen_def bit_or_iff)
        qed
      qed
    qed
  next
    case False
    show ?thesis
    proof (cases "d < h")
      case True
      then show ?thesis
        using assms(1) init
        by (auto simp: ReplayWindow_update_def rw_seen_def Let_def h_def [symmetric] bit_or_iff)
    next
      case nlt: False
      with False have "d = h" by simp
      then show ?thesis
        using assms(1) init by (simp add: ReplayWindow_update_def h_def)
    qed
  qed
qed

lemma rw_seen_run:
  assumes "rw_seen w c"
  shows "rw_seen (foldl (\<lambda>w d. snd (ReplayWindow_check_and_update w d)) w ds) c"
  using assms
proof (induction ds arbitrary: w)
  case Nil
  then show ?case by simp
next
  case (Cons d ds)
  have "rw_seen (snd (ReplayWindow_check_and_update w d)) c"
    using Cons.prems rw_seen_preserved [of w c d]
    by (simp add: ReplayWindow_check_and_update_def)
  then show ?case using Cons.IH by simp
qed

lemma replay_window_never_accepts_twice:
  assumes "ReplayWindow_check_and_update w c = (True, w')"
  shows "fst (ReplayWindow_check_and_update
                (foldl (\<lambda>w d. snd (ReplayWindow_check_and_update w d)) w' ds) c) = False"
proof -
  from assms have "ReplayWindow_check w c" and "w' = ReplayWindow_update w c"
    by (auto simp: ReplayWindow_check_and_update_def split: if_splits)
  then have "rw_seen w' c" by (simp add: rw_seen_after_accept)
  then have "rw_seen (foldl (\<lambda>w d. snd (ReplayWindow_check_and_update w d)) w' ds) c"
    by (rule rw_seen_run)
  then show ?thesis
    using rw_seen_rejected by (simp add: ReplayWindow_check_and_update_def)
qed

text \<open>
  Claim C3.  The acceptance rule ``accepted iff \<open>c > highest\<close>, or
  \<open>highest - c\<close> in \<open>[1, 63]\<close> with the bit unset'' holds for every counter whose sum
  with 64 does not wrap (\<open>ReplayWindow_check_iff_no_wrap\<close>), counters at least 64 behind
  are rejected (\<open>ReplayWindow_check_too_old\<close>) and an accepted counter is never accepted
  again (\<open>replay_window_never_accepts_twice\<close>).  The rule fails for the 64 largest counter
  values: the first test of \<open>check\<close> computes \<open>seq + WINDOW_SIZE\<close> in 64 bits, the sum
  wraps, and a counter far above \<open>highest\<close> is taken for one below the window.  Below, a
  window that has accepted counter 2 rejects counter \<open>2^64 - 64\<close> and is left unchanged.
\<close>

theorem replay_window_rejects_new_counter_near_wrap:
  "(let w = snd (ReplayWindow_check_and_update ReplayWindow_new 2)
    in rw_initialized w \<and> rw_highest_seq w = 2 \<and> rw_highest_seq w < 0xFFFFFFFFFFFFFFC0
       \<and> ReplayWindow_check_and_update w 0xFFFFFFFFFFFFFFC0 = (False, w))"
  by (simp add: ReplayWindow_check_and_update_def ReplayWindow_check_def ReplayWindow_update_def
      ReplayWindow_new_def WINDOW_SIZE_def word_le_nat_alt word_less_nat_alt)

section \<open>Retransmission manager: the RTT estimator\<close>

text \<open>The smoothed RTT is computed in \<open>double\<close>: with \<open>srtt = 2^53\<close>, a sample of \<open>2^53 + 8\<close> and
  \<open>rtt_alpha = 1/8\<close> the exact sum \<open>2^53 + 1\<close> is not a \<open>double\<close> and rounds to \<open>2^53\<close>.\<close>

lemma update_rtt_rounds_to_double:
  "srtt_ms (update_rtt
      ((RetransmissionManager_new
         \<lparr>initial_rto_ms = 200, min_rto_ms = 100, max_rto_ms = 10000, max_retries = 5,
          max_unacked_packets = 1024, max_unacked_bytes = 1048576,
          rtt_alpha = 1 / 8, rtt_beta = 1 / 4\<rparr>)
        \<lparr>srtt_ms := 2 ^ 53, rtt_initialized := True\<rparr>) (2 ^ 53 + 8)) = 2 ^ 53"
proof -
  have f: "\<lfloor>9007199254740993 / 2 :: rat\<rfloor> = 4503599627370496"
    by (rule floor_unique) simp_all
  show ?thesis
    by (simp add: update_rtt_def RetransmissionManager_new_def Let_def to_double_def
        floor_log2_def quotient_of_int pow2_def round_half_even_def bit_length.simps
        double_to_u64_def f)
qed

section \<open>Retransmission manager: the timeout schedule\<close>

lemma backoff_bound:
  fixes r b mx :: u64
  assumes "r \<le> b" and "b \<le> 800"
  shows "min (r * 2) mx \<le> 2 * b"
proof -
  have "unat r \<le> unat b" "unat b \<le> 800"
    using assms by (simp_all add: word_le_nat_alt)
  then have "unat (r * 2) = 2 * unat r" "unat (2 * b) = 2 * unat b"
    by (simp_all add: unat_word_ariths)
  then have "r * 2 \<le> 2 * b"
    using \<open>unat r \<le> unat b\<close> by (simp add: word_le_nat_alt)
  then show ?thesis by (simp add: min_le_iff_disj)
qed

lemma retransmit_expired_single_retransmit:
  assumes "unacked m = [(seq, p)]"
    and "\<not> now - last_sent_ms p < rto_ms m"
    and "\<not> max_retries (rm_config m) \<le> retransmit_count p"
    and "has_retransmit_callback m"
  shows "retransmit_expired m now =
           (1, m\<lparr>unacked := [(seq, p\<lparr>last_sent_ms := now,
                                       retransmit_count := retransmit_count p + 1\<rparr>)],
                 rm_calls := rm_calls m @ [RetransmitCall seq (up_data p)],
                 total_retransmits := total_retransmits m + 1,
                 rto_ms := min (rto_ms m * 2) (max_rto_ms (rm_config m))\<rparr>)"
  using assms by (simp add: retransmit_expired_def)

lemma retransmit_expired_single_drop:
  assumes "unacked m = [(seq, p)]"
    and "\<not> now - last_sent_ms p < rto_ms m"
    and "max_retries (rm_config m) \<le> retransmit_count p"
    and "has_drop_callback m"
  shows "retransmit_expired m now =
           (0, m\<lparr>unacked := [],
                 unacked_bytes := unacked_bytes m - size_of (up_data p),
                 rm_calls := rm_calls m @ [DropCall seq],
                 total_drops := total_drops m + 1\<rparr>)"
  using assms by (simp add: retransmit_expired_def)

text \<open>
  Claim C5.  Take any configuration with \<open>initial_rto_ms = 100\<close> and
  \<open>max_retries = 3\<close>, install both callbacks and register sequence 1 at time 0 (the
  registration is admitted by the in-flight caps).  With no acknowledgment arriving,
  \<open>retransmit_expired\<close> at \<open>t = 100\<close>, \<open>300\<close> and \<open>700\<close> each returns a count of one
  and invokes the retransmit callback once with the stored bytes; after each of them
  \<open>rto_ms\<close> is the minimum of twice its previous value and \<open>max_rto_ms\<close>.  The call at
  \<open>t = 1500\<close> retransmits nothing, invokes the drop callback for sequence 1 and erases
  the entry.  The RTT estimator is uninitialised in every state of the run.
\<close>

theorem retransmit_expired_backoff_schedule:
  fixes cfg :: RetransmissionConfig and dat :: bytes
  assumes cfg: "initial_rto_ms cfg = 100" "max_retries cfg = 3"
    and reg: "register_packet (set_drop_callback (set_retransmit_callback
                 (RetransmissionManager_new cfg))) 1 dat 0 = (True, m0)"
    and r1: "retransmit_expired m0 100 = (c1, m1)"
    and r2: "retransmit_expired m1 300 = (c2, m2)"
    and r3: "retransmit_expired m2 700 = (c3, m3)"
    and r4: "retransmit_expired m3 1500 = (c4, m4)"
  shows "c1 = 1 \<and> c2 = 1 \<and> c3 = 1 \<and> c4 = 0
       \<and> rm_calls m0 = []
       \<and> rm_calls m1 = [RetransmitCall 1 dat]
       \<and> rm_calls m2 = [RetransmitCall 1 dat, RetransmitCall 1 dat]
       \<and> rm_calls m3 = [RetransmitCall 1 dat, RetransmitCall 1 dat, RetransmitCall 1 dat]
       \<and> rm_calls m4 = [RetransmitCall 1 dat, RetransmitCall 1 dat, RetransmitCall 1 dat, DropCall 1]
       \<and> map fst (unacked m3) = [1] \<and> unacked m4 = [] \<and> total_drops m4 = 1
       \<and> rto_ms m0 = 100
       \<and> rto_ms m1 = min (rto_ms m0 * 2) (max_rto_ms cfg)
       \<and> rto_ms m2 = min (rto_ms m1 * 2) (max_rto_ms cfg)
       \<and> rto_ms m3 = min (rto_ms m2 * 2) (max_rto_ms cfg)
       \<and> \<not> rtt_initialized m0 \<and> \<not> rtt_initialized m1 \<and> \<not> rtt_initialized m2
       \<and> \<not> rtt_initialized m3 \<and> \<not> rtt_initialized m4"
proof -
  define p0 :: UnackedPacket where
    "p0 = \<lparr>up_data = dat, send_time_ms = 0, last_sent_ms = 0, retransmit_count = 0\<rparr>"
  define mx where "mx = max_rto_ms cfg"
  have m0: "m0 = (set_drop_callback (set_retransmit_callback (RetransmissionManager_new cfg)))
      \<lparr>unacked_bytes := size_of dat, unacked := [(1, p0)]\<rparr>"
    using reg by (auto simp: p0_def register_packet_def RetransmissionManager_new_def
        set_drop_callback_def set_retransmit_callback_def split: if_splits)
  have f0: "unacked m0 = [(1, p0)]" "rto_ms m0 = 100" "rm_config m0 = cfg"
    "has_retransmit_callback m0" "has_drop_callback m0" "\<not> rtt_initialized m0" "rm_calls m0 = []"
    "total_drops m0 = 0"
    by (simp_all add: m0 RetransmissionManager_new_def set_drop_callback_def
        set_retransmit_callback_def cfg)
  have e1: "retransmit_expired m0 100 = (1, m0\<lparr>unacked := [(1, p0\<lparr>last_sent_ms := 100,
                                       retransmit_count := retransmit_count p0 + 1\<rparr>)],
                 rm_calls := rm_calls m0 @ [RetransmitCall 1 (up_data p0)],
                 total_retransmits := total_retransmits m0 + 1,
                 rto_ms := min (rto_ms m0 * 2) (max_rto_ms (rm_config m0))\<rparr>)"
    by (rule retransmit_expired_single_retransmit)
       (simp_all add: f0 cfg p0_def word_le_nat_alt word_less_nat_alt)
  define p1 where "p1 = p0\<lparr>last_sent_ms := 100, retransmit_count := 1\<rparr>"
  have f1: "c1 = 1" "unacked m1 = [(1, p1)]" "rto_ms m1 = min (rto_ms m0 * 2) mx" "rm_config m1 = cfg"
    "has_retransmit_callback m1" "has_drop_callback m1" "\<not> rtt_initialized m1"
    "rm_calls m1 = [RetransmitCall 1 dat]" "total_drops m1 = 0"
    using r1 unfolding e1 by (auto simp: f0 p1_def p0_def mx_def)
  have b1: "rto_ms m1 \<le> 200"
    using backoff_bound [of "rto_ms m0" 100 mx] by (simp add: f1 f0)
  have e2: "retransmit_expired m1 300 = (1, m1\<lparr>unacked := [(1, p1\<lparr>last_sent_ms := 300,
                                       retransmit_count := retransmit_count p1 + 1\<rparr>)],
                 rm_calls := rm_calls m1 @ [RetransmitCall 1 (up_data p1)],
                 total_retransmits := total_retransmits m1 + 1,
                 rto_ms := min (rto_ms m1 * 2) (max_rto_ms (rm_config m1))\<rparr>)"
    apply (rule retransmit_expired_single_retransmit)
    using b1 by (simp_all add: f1 cfg p1_def p0_def word_le_nat_alt word_less_nat_alt)
  define p2 where "p2 = p0\<lparr>last_sent_ms := 300, retransmit_count := 2\<rparr>"
  have f2: "c2 = 1" "unacked m2 = [(1, p2)]" "rto_ms m2 = min (rto_ms m1 * 2) mx" "rm_config m2 = cfg"
    "has_retransmit_callback m2" "has_drop_callback m2" "\<not> rtt_initialized m2"
    "rm_calls m2 = [RetransmitCall 1 dat, RetransmitCall 1 dat]" "total_drops m2 = 0"
    using r2 unfolding e2 by (auto simp: f1 p2_def p1_def p0_def mx_def)
  have b2: "rto_ms m2 \<le> 400"
    using backoff_bound [of "rto_ms m1" 200 mx] b1 by (simp add: f2)
  have e3: "retransmit_expired m2 700 = (1, m2\<lparr>unacked := [(1, p2\<lparr>last_sent_ms := 700,
                                       retransmit_count := retransmit_count p2 + 1\<rparr>)],
                 rm_calls := rm_calls m2 @ [RetransmitCall 1 (up_data p2)],
                 total_retransmits := total_retransmits m2 + 1,
                 rto_ms := min (rto_ms m2 * 2) (max_rto_ms (rm_config m2))\<rparr>)"
    apply (rule retransmit_expired_single_retransmit)
    using b2 by (simp_all add: f2 cfg p2_def p0_def word_le_nat_alt word_less_nat_alt)
  define p3 where "p3 = p0\<lparr>last_sent_ms := 700, retransmit_count := 3\<rparr>"
  have f3: "c3 = 1" "unacked m3 = [(1, p3)]" "rto_ms m3 = min (rto_ms m2 * 2) mx" "rm_config m3 = cfg"
    "has_retransmit_callback m3" "has_drop_callback m3" "\<not> rtt_initialized m3"
    "rm_calls m3 = [RetransmitCall 1 dat, RetransmitCall 1 dat, RetransmitCall 1 dat]"
    "total_drops m3 = 0"
    using r3 unfolding e3 by (auto simp: f2 p3_def p2_def p0_def mx_def)
  have b3: "rto_ms m3 \<le> 800"
    using backoff_bound [of "rto_ms m2" 400 mx] b2 by (simp add: f3)
  have e4: "retransmit_expired m3 1500 = (0, m3\<lparr>unacked := [],
                 unacked_bytes := unacked_bytes m3 - size_of (up_data p3),
                 rm_calls := rm_calls m3 @ [DropCall 1],
                 total_drops := total_drops m3 + 1\<rparr>)"
    apply (rule retransmit_expired_single_drop)
    using b3 by (simp_all add: f3 cfg p3_def p0_def word_le_nat_alt word_less_nat_alt)
  have f4: "c4 = 0" "unacked m4 = []" "\<not> rtt_initialized m4"
    "rm_calls m4 = [RetransmitCall 1 dat, RetransmitCall 1 dat, RetransmitCall 1 dat, DropCall 1]"
    "total_drops m4 = 1"
    using r4 unfolding e4 by (auto simp: f3)
  show ?thesis
    by (simp add: f0 f1 f2 f3 f4 mx_def)
qed

theorem retransmit_expired_backoff_schedule_witness:
  "\<exists>m0 c1 m1 c2 m2 c3 m3 c4 m4.
     register_packet (set_drop_callback (set_retransmit_callback (RetransmissionManager_new
        \<lparr>initial_rto_ms = 100, min_rto_ms = 50, max_rto_ms = 1000, max_retries = 3,
         max_unacked_packets = 16, max_unacked_bytes = 65536,
         rtt_alpha = 1 / 8, rtt_beta = 1 / 4\<rparr>))) 1 [1] 0 = (True, m0)
     \<and> retransmit_expired m0 100 = (c1, m1)
     \<and> retransmit_expired m1 300 = (c2, m2)
     \<and> retransmit_expired m2 700 = (c3, m3)
     \<and> retransmit_expired m3 1500 = (c4, m4)
     \<and> c1 = 1 \<and> c2 = 1 \<and> c3 = 1 \<and> c4 = 0
     \<and> rm_calls m4 = [RetransmitCall 1 [1], RetransmitCall 1 [1], RetransmitCall 1 [1], DropCall 1]
     \<and> unacked m4 = []
     \<and> rto_ms m1 = 200 \<and> rto_ms m2 = 400 \<and> rto_ms m3 = 800
     \<and> \<not> rtt_initialized m4"
proof -
  define cfg :: RetransmissionConfig where
    "cfg = \<lparr>initial_rto_ms = 100, min_rto_ms = 50, max_rto_ms = 1000, max_retries = 3,
            max_unacked_packets = 16, max_unacked_bytes = 65536,
            rtt_alpha = 1 / 8, rtt_beta = 1 / 4\<rparr>"
  define start where
    "start = set_drop_callback (set_retransmit_callback (RetransmissionManager_new cfg))"
  define m0 where "m0 = snd (register_packet start 1 [1] 0)"
  define c1 where "c1 = fst (retransmit_expired m0 100)"
  define m1 where "m1 = snd (retransmit_expired m0 100)"
  define c2 where "c2 = fst (retransmit_expired m1 300)"
  define m2 where "m2 = snd (retransmit_expired m1 300)"
  define c3 where "c3 = fst (retransmit_expired m2 700)"
  define m3 where "m3 = snd (retransmit_expired m2 700)"
  define c4 where "c4 = fst (retransmit_expired m3 1500)"
  define m4 where "m4 = snd (retransmit_expired m3 1500)"
  have cfg: "initial_rto_ms cfg = 100" "max_retries cfg = 3" "max_rto_ms cfg = 1000"
    by (simp_all add: cfg_def)
  have reg: "register_packet start 1 [1] 0 = (True, m0)"
    by (simp add: m0_def start_def cfg_def register_packet_def RetransmissionManager_new_def
        set_drop_callback_def set_retransmit_callback_def size_of_def map_count_def
        word_le_nat_alt word_less_nat_alt)
  have r1: "retransmit_expired m0 100 = (c1, m1)" by (simp add: c1_def m1_def)
  have r2: "retransmit_expired m1 300 = (c2, m2)" by (simp add: c2_def m2_def)
  have r3: "retransmit_expired m2 700 = (c3, m3)" by (simp add: c3_def m3_def)
  have r4: "retransmit_expired m3 1500 = (c4, m4)" by (simp add: c4_def m4_def)
  note sched = retransmit_expired_backoff_schedule
                 [OF cfg(1) cfg(2) reg [unfolded start_def] r1 r2 r3 r4]
  have rto: "rto_ms m1 = 200" "rto_ms m2 = 400" "rto_ms m3 = 800"
    using sched by (simp_all add: cfg word_le_nat_alt)
  show ?thesis
    using reg [unfolded start_def cfg_def] r1 r2 r3 r4 sched rto by blast
qed

section \<open>Selective acknowledgment: receiver and sender\<close>

lemma unacked_update_rtt [simp]: "unacked (update_rtt m x) = unacked m"
  by (simp add: update_rtt_def Let_def)

text \<open>
  Claim C6.  A fresh ack tracker that marks 1, 2, 4, 5, 7 as received, in that order,
  reports \<open>ack_number = 2\<close> and a bitmap whose set bits are exactly 1, 2 and 4 (the word
  \<open>0x16\<close>).  A sender whose retransmission store holds entries for 1, ..., 7 (with any
  packets, in any estimator state) and which processes a SACK carrying that ack number
  and bitmap erases 1, 2, 4, 5 and 7 and keeps exactly the entries for 3 and 6.
\<close>

theorem sack_round_trip:
  "(let a = foldl AckBitmap_mark_received AckBitmap_new [1, 2, 4, 5, 7];
        s = process_sack
              (m\<lparr>unacked := [(1, p1), (2, p2), (3, p3), (4, p4), (5, p5), (6, p6), (7, p7)]\<rparr>)
              (AckBitmap_get_ack_number a) (AckBitmap_get_bitmap a) t
    in AckBitmap_get_ack_number a = 2
       \<and> AckBitmap_get_bitmap a = push_bit 1 1 OR push_bit 2 1 OR push_bit 4 1
       \<and> unacked s = [(3, p3), (6, p6)])"
proof -
  have a: "foldl AckBitmap_mark_received AckBitmap_new [1, 2, 4, 5, 7]
             = \<lparr>ab_ack_number = 2, ab_bitmap = 0x16, ab_initialized = True\<rparr>"
    by (simp add: AckBitmap_mark_received_def AckBitmap_new_def BITMAP_SIZE_def
        word_le_nat_alt word_less_nat_alt)
  have s: "unacked (process_sack
              (m\<lparr>unacked := [(1, p1), (2, p2), (3, p3), (4, p4), (5, p5), (6, p6), (7, p7)]\<rparr>)
              2 0x16 t) = [(3, p3), (6, p6)]"
    by (simp add: process_sack_def upt_rec ack_packet_def Let_def
        word_le_nat_alt word_less_nat_alt)
  show ?thesis
    unfolding Let_def a AckBitmap_get_ack_number_def AckBitmap_get_bitmap_def
    using s by simp
qed

section \<open>Reorder buffer: in-order delivery and gap flush\<close>


lemma map_erase_absent: "k \<notin> fst ` set m \<Longrightarrow> map_erase k m = m"
  by (induction m) auto

lemma map_find_absent: "k \<notin> fst ` set m \<Longrightarrow> map_find k m = None"
  by (induction m) auto

lemma run_keys_above:
  fixes k :: u64
  assumes "unat k + m \<le> 2 ^ 64" and "0 < i" and "i < m"
  shows "k < k + of_nat i"
proof -
  have "unat (of_nat i :: u64) = i" using assms by (simp add: unat_of_nat)
  then have "unat (k + of_nat i) = unat k + i"
    using assms by (simp add: unat_word_ariths)
  then show ?thesis using assms by (simp add: word_less_nat_alt)
qed

lemma deliver_loop_run:
  assumes "map fst b = map (\<lambda>i. k + of_nat i) [0..<m]"
    and "unat k + m \<le> 2 ^ 64"
    and "buffer rb = b" and "next_expected rb = k" and "has_callback rb"
  shows "\<exists>rb'. deliver_loop rb d = (rb', d + m)
           \<and> delivered_log rb' = delivered_log rb @ map (\<lambda>(s, p). (s, bp_data p)) b
           \<and> buffer rb' = [] \<and> next_expected rb' = k + of_nat m
           \<and> has_callback rb' \<and> rb_config rb' = rb_config rb"
  using assms
proof (induction b arbitrary: rb k d m)
  case Nil
  then have "m = 0" by simp
  with Nil show ?case by (simp add: deliver_loop.simps [of rb])
next
  case (Cons e b)
  obtain s p where e: "e = (s, p)" by (cases e)
  from Cons.prems(1) obtain m' where m: "m = Suc m'"
    by (cases m) auto
  from Cons.prems(1) have s: "s = k"
    and keys: "map fst b = map (\<lambda>i. (k + 1) + of_nat i) [0..<m']"
    by (simp_all add: e m upt_conv_Cons map_Suc_upt [symmetric] add.assoc add.commute del: upt_Suc)
  have notin: "k \<notin> fst ` set b"
  proof
    assume "k \<in> fst ` set b"
    then have "k \<in> set (map fst b)" by simp
    then obtain i where "i < m'" "k = k + 1 + of_nat i" unfolding keys by auto
    then have "k = k + of_nat (Suc i)" by (simp add: add.assoc)
    moreover have "k < k + of_nat (Suc i)"
      using run_keys_above [of k m "Suc i"] Cons.prems(2) \<open>i < m'\<close> m by simp
    ultimately show False by simp
  qed
  define rb1 where "rb1 = deliver_step rb p"
  have step: "deliver_loop rb d = deliver_loop rb1 (d + 1)"
    using Cons.prems(3,4) by (simp add: deliver_loop.simps [of rb] e s rb1_def)
  have rb1: "buffer rb1 = b" "next_expected rb1 = k + 1" "has_callback rb1"
    "delivered_log rb1 = delivered_log rb @ [(k, bp_data p)]" "rb_config rb1 = rb_config rb"
    using Cons.prems(3,4,5) notin
    by (simp_all add: rb1_def deliver_step_def invoke_callback_def e s map_erase_absent)
  have nw: "unat (k + 1) + m' \<le> 2 ^ 64"
  proof (cases "m' = 0")
    case True
    then show ?thesis
      using unsigned_less [of "k + 1", where ?'a = nat] by simp
  next
    case False
    then have "unat k + 1 < 2 ^ 64" using Cons.prems(2) m by simp
    then have "unat (k + 1) = unat k + 1" by (simp add: unat_word_ariths)
    then show ?thesis using Cons.prems(2) m by simp
  qed
  from Cons.IH [OF keys nw rb1(1) rb1(2) rb1(3), of "d + 1"]
  obtain rb' where r: "deliver_loop rb1 (d + 1) = (rb', d + 1 + m')"
    "delivered_log rb' = delivered_log rb1 @ map (\<lambda>(s, p). (s, bp_data p)) b"
    "buffer rb' = []" "next_expected rb' = k + 1 + of_nat m'"
    "has_callback rb'" "rb_config rb' = rb_config rb1"
    by blast
  show ?case
    using r step rb1 by (simp add: m e s add.assoc)
qed


lemma in_run_keys:
  "x \<in> set (map (\<lambda>i. (k :: u64) + of_nat i) [0..<m]) \<Longrightarrow> \<exists>i<m. x = k + of_nat i"
  by auto

lemma run_keys_ascending:
  fixes k :: u64
  assumes "unat k + m \<le> 2 ^ 64"
  shows "sorted_wrt (<) (map (\<lambda>i. k + of_nat i) [0..<m])"
proof -
  have "k + of_nat i < k + of_nat j" if "i < j" "j < m" for i j
  proof -
    have "unat (of_nat i :: u64) = i" "unat (of_nat j :: u64) = j"
      using that assms by (simp_all add: unat_of_nat)
    then have "unat (k + of_nat i) = unat k + i" "unat (k + of_nat j) = unat k + j"
      using that assms by (simp_all add: unat_word_ariths)
    then show ?thesis using that by (simp add: word_less_nat_alt)
  qed
  then show ?thesis
    by (simp add: sorted_wrt_iff_nth_less)
qed

text \<open>
  The reorder buffer law in terms of the head of the ordered map.  Let a delivery callback
  be installed and let the buffer hold exactly the sequences \<open>k, k+1, ..., k+n\<close> (no
  wrap-around: \<open>k + n < 2^64\<close>); the ordered map then iterates them in strictly ascending
  order.
  \<^item> If \<open>next_expected = k\<close>, \<open>deliver()\<close> returns \<open>n + 1\<close>, invokes the callback exactly
    \<open>n + 1\<close> times, with the buffered payloads in ascending sequence order, empties the
    buffer and leaves \<open>next_expected = k + n + 1\<close>.
  \<^item> If there is a gap (\<open>next_expected < k\<close>) and the entry with the lowest sequence number
    (\<open>buffer_.begin()\<close>) has reached \<open>max_delay_ms\<close>, \<open>flush(now)\<close> delivers all \<open>n + 1\<close>
    buffered entries in ascending order and advances \<open>next_expected\<close> to \<open>k + n + 1\<close>, past
    the skipped sequences.  The age is the 64-bit difference \<open>now - timestamp_ms\<close>.
\<close>

lemma reorder_buffer_in_order_and_gap_flush:
  assumes cb: "has_callback rb"
    and keys: "map fst (buffer rb) = map (\<lambda>i. k + of_nat i) [0..<Suc n]"
    and nowrap: "unat k + Suc n \<le> 2 ^ 64"
  shows "sorted_wrt (<) (map fst (buffer rb))
       \<and> (next_expected rb = k \<longrightarrow>
            (\<exists>rb'. deliver rb = (Suc n, rb')
               \<and> delivered_log rb' = delivered_log rb @ map (\<lambda>(s, p). (s, bp_data p)) (buffer rb)
               \<and> length (delivered_log rb') = length (delivered_log rb) + Suc n
               \<and> buffer rb' = [] \<and> next_expected rb' = k + of_nat (Suc n)))
       \<and> (next_expected rb < k
            \<and> \<not> now - timestamp_ms (snd (hd (buffer rb))) < max_delay_ms (rb_config rb) \<longrightarrow>
            (\<exists>rb'. flush rb now = (Suc n, rb')
               \<and> delivered_log rb' = delivered_log rb @ map (\<lambda>(s, p). (s, bp_data p)) (buffer rb)
               \<and> length (delivered_log rb') = length (delivered_log rb) + Suc n
               \<and> buffer rb' = [] \<and> next_expected rb' = k + of_nat (Suc n)))"
proof (intro conjI impI)
  show "sorted_wrt (<) (map fst (buffer rb))"
    unfolding keys using nowrap by (rule run_keys_ascending)
next
  have len: "length (buffer rb) = Suc n"
    using arg_cong [OF keys, of length] by simp
  assume ne: "next_expected rb = k"
  from deliver_loop_run [OF keys nowrap refl ne cb, of 0]
  obtain rb' where r: "deliver_loop rb 0 = (rb', 0 + Suc n)"
    "delivered_log rb' = delivered_log rb @ map (\<lambda>(s, p). (s, bp_data p)) (buffer rb)"
    "buffer rb' = []" "next_expected rb' = k + of_nat (Suc n)"
    by blast
  then show "\<exists>rb'. deliver rb = (Suc n, rb')
               \<and> delivered_log rb' = delivered_log rb @ map (\<lambda>(s, p). (s, bp_data p)) (buffer rb)
               \<and> length (delivered_log rb') = length (delivered_log rb) + Suc n
               \<and> buffer rb' = [] \<and> next_expected rb' = k + of_nat (Suc n)"
    using len by (simp add: deliver_def)
next
  have len: "length (buffer rb) = Suc n"
    using arg_cong [OF keys, of length] by simp
  assume "next_expected rb < k
            \<and> \<not> now - timestamp_ms (snd (hd (buffer rb))) < max_delay_ms (rb_config rb)"
  then have gap: "next_expected rb < k"
    and old: "\<not> now - timestamp_ms (snd (hd (buffer rb))) < max_delay_ms (rb_config rb)"
    by simp_all
  from len obtain e rest where b: "buffer rb = e # rest" by (cases "buffer rb") auto
  obtain s p where e: "e = (s, p)" by (cases e)
  from keys have s: "s = k"
    and rest: "map fst rest = map (\<lambda>i. (k + 1) + of_nat i) [0..<n]"
    by (simp_all add: b e upt_conv_Cons map_Suc_upt [symmetric] add.assoc add.commute del: upt_Suc)
  have absent: "next_expected rb \<notin> fst ` set (buffer rb)"
  proof
    assume "next_expected rb \<in> fst ` set (buffer rb)"
    then have "next_expected rb \<in> set (map fst (buffer rb))" by simp
    then obtain i where i: "i < Suc n" "next_expected rb = k + of_nat i"
      unfolding keys using in_run_keys by blast
    have "k \<le> k + of_nat i"
    proof (cases "i = 0")
      case True
      then show ?thesis by simp
    next
      case False
      then show ?thesis
        using run_keys_above [of k "Suc n" i] nowrap i(1) by simp
    qed
    with gap i(2) show False by simp
  qed
  have d0: "deliver_loop rb 0 = (rb, 0)"
    using map_find_absent [OF absent] by (simp add: deliver_loop.simps [of rb])
  define rb1 where "rb1 = flush_step rb k p"
  have rb1: "buffer rb1 = rest" "next_expected rb1 = k + 1" "has_callback rb1"
    "delivered_log rb1 = delivered_log rb @ [(k, bp_data p)]" "rb_config rb1 = rb_config rb"
    using cb by (simp_all add: rb1_def flush_step_def invoke_callback_def b)
  have nw: "unat (k + 1) + n \<le> 2 ^ 64"
  proof (cases "n = 0")
    case True
    then show ?thesis
      using unsigned_less [of "k + 1", where ?'a = nat] by simp
  next
    case False
    then have "unat k + 1 < 2 ^ 64" using nowrap by simp
    then have "unat (k + 1) = unat k + 1" by (simp add: unat_word_ariths)
    then show ?thesis using nowrap by simp
  qed
  from deliver_loop_run [OF rest nw rb1(1) rb1(2) rb1(3), of 0]
  obtain rb' where r: "deliver_loop rb1 0 = (rb', 0 + n)"
    "delivered_log rb' = delivered_log rb1 @ map (\<lambda>(s, p). (s, bp_data p)) rest"
    "buffer rb' = []" "next_expected rb' = k + 1 + of_nat n"
    by blast
  have f1: "flush_loop now rb' (Suc n) = (rb', Suc n)"
    using r(3) by (simp add: flush_loop.simps [of now rb'])
  have "flush_loop now rb 0 = (rb', Suc n)"
    using old r(1) f1 by (simp add: flush_loop.simps [of now rb] b e s rb1_def)
  then have "flush rb now = (Suc n, rb')"
    by (simp add: flush_def d0)
  then show "\<exists>rb'. flush rb now = (Suc n, rb')
               \<and> delivered_log rb' = delivered_log rb @ map (\<lambda>(s, p). (s, bp_data p)) (buffer rb)
               \<and> length (delivered_log rb') = length (delivered_log rb) + Suc n
               \<and> buffer rb' = [] \<and> next_expected rb' = k + of_nat (Suc n)"
    using r rb1 len by (simp add: b e s add.assoc)
qed


lemma reorder_buffer_in_order_and_gap_flush_example:
  "(let cfg = \<lparr>max_buffered_packets = 16, max_buffered_bytes = 65536, max_delay_ms = 1000\<rparr>;
        rb0 = set_deliver_callback (ReorderBuffer_new cfg);
        rb = snd (insert_packet (snd (insert_packet (snd (insert_packet rb0 2 [2] 0)) 3 [3] 0))
                    1 [1] 0);
        gb = snd (insert_packet (snd (insert_packet rb0 3 [3] 0)) 2 [2] 0)
    in has_callback rb \<and> next_expected rb = 1 \<and> map fst (buffer rb) = [1, 2, 3]
       \<and> fst (deliver rb) = 3
       \<and> delivered_log (snd (deliver rb)) = [(1, [1]), (2, [2]), (3, [3])]
       \<and> next_expected (snd (deliver rb)) = 4
       \<and> has_callback gb \<and> next_expected gb = 1 \<and> map fst (buffer gb) = [2, 3]
       \<and> fst (flush gb 1001) = 2
       \<and> delivered_log (snd (flush gb 1001)) = [(2, [2]), (3, [3])]
       \<and> next_expected (snd (flush gb 1001)) = 4)"
proof -
  define cfg :: ReorderBufferConfig where
    "cfg = \<lparr>max_buffered_packets = 16, max_buffered_bytes = 65536, max_delay_ms = 1000\<rparr>"
  define rb0 where "rb0 = set_deliver_callback (ReorderBuffer_new cfg)"
  define rb where
    "rb = snd (insert_packet (snd (insert_packet (snd (insert_packet rb0 2 [2] 0)) 3 [3] 0))
                 1 [1] 0)"
  define gb where "gb = snd (insert_packet (snd (insert_packet rb0 3 [3] 0)) 2 [2] 0)"
  have rb: "has_callback rb" "next_expected rb = 1"
    "buffer rb = [(1, \<lparr>bp_data = [1], timestamp_ms = 0\<rparr>), (2, \<lparr>bp_data = [2], timestamp_ms = 0\<rparr>),
                  (3, \<lparr>bp_data = [3], timestamp_ms = 0\<rparr>)]"
    "delivered_log rb = []"
    by (simp_all add: rb_def rb0_def cfg_def insert_packet_def set_deliver_callback_def
        ReorderBuffer_new_def map_count_def size_of_def word_le_nat_alt word_less_nat_alt)
  have gb: "has_callback gb" "next_expected gb = 1"
    "buffer gb = [(2, \<lparr>bp_data = [2], timestamp_ms = 0\<rparr>), (3, \<lparr>bp_data = [3], timestamp_ms = 0\<rparr>)]"
    "delivered_log gb = []" "rb_config gb = cfg"
    by (simp_all add: gb_def rb0_def cfg_def insert_packet_def set_deliver_callback_def
        ReorderBuffer_new_def map_count_def size_of_def word_le_nat_alt word_less_nat_alt)
  have k1: "map fst (buffer rb) = map (\<lambda>i. 1 + of_nat i) [0..<Suc 2]"
    by (simp add: rb upt_rec)
  have k2: "map fst (buffer gb) = map (\<lambda>i. 2 + of_nat i) [0..<Suc 1]"
    by (simp add: gb upt_rec)
  have a: "fst (deliver rb) = 3 \<and> delivered_log (snd (deliver rb)) = [(1, [1]), (2, [2]), (3, [3])]
       \<and> next_expected (snd (deliver rb)) = 4"
    using reorder_buffer_in_order_and_gap_flush [OF rb(1) k1, of 0] rb
    by auto
  have old: "\<not> 1001 - timestamp_ms (snd (hd (buffer gb))) < max_delay_ms (rb_config gb)"
    by (simp add: gb cfg_def word_less_nat_alt)
  have b: "fst (flush gb 1001) = 2 \<and> delivered_log (snd (flush gb 1001)) = [(2, [2]), (3, [3])]
       \<and> next_expected (snd (flush gb 1001)) = 4"
    using reorder_buffer_in_order_and_gap_flush [OF gb(1) k2, of 1001] gb(2,3,4) old
    by (auto simp: word_less_nat_alt)
  show ?thesis
    unfolding Let_def
    using a b rb(1,2) gb(1,2) rb(3) gb(3)
    by (simp add: rb_def gb_def rb0_def cfg_def)
qed

text \<open>
  Claim C8 (reorder buffer law).  The first half holds: a buffer that holds exactly
  \<open>k, ..., k+n\<close> with \<open>next_expected = k\<close> is delivered by \<open>deliver()\<close> in \<open>n + 1\<close> callbacks in
  ascending order.  The second half speaks of the oldest entry.  \<open>flush\<close> tests the age of
  \<open>buffer_.begin()\<close> under the comment \<open>Check if oldest packet has timed out\<close>; the map is
  ordered by sequence number, so this is the entry with the lowest sequence number, and
  it is the oldest only when the packets arrived in sequence order.  Below, with
  \<open>max_delay_ms = 1000\<close>, packet 3 arrives at 0 ms and packet 2 at 900 ms while packet 1 is
  missing.  At 1000 ms the oldest entry has reached \<open>max_delay_ms\<close> and the gap persists,
  yet \<open>flush(1000)\<close> returns 0 and delivers nothing, and so does \<open>flush(1899)\<close>; the entries
  after the gap are delivered at 1900 ms, when packet 2 is 1000 ms old.
\<close>

theorem flush_waits_for_lowest_sequence_entry:
  "(let cfg = \<lparr>max_buffered_packets = 256, max_buffered_bytes = 1048576, max_delay_ms = 1000\<rparr>;
        rb0 = set_deliver_callback (ReorderBuffer_new cfg);
        (ok1, rb1) = insert_packet rb0 3 [0x03] 0;
        (ok2, rb2) = insert_packet rb1 2 [0x02] 900;
        (n, rb3) = flush rb2 1000;
        (n', rb4) = flush rb2 1899;
        (n'', rb5) = flush rb2 1900
    in ok1 \<and> ok2 \<and> next_expected rb2 = 1
       \<and> map (\<lambda>(seq, pkt). (seq, timestamp_ms pkt)) (buffer rb2) = [(2, 900), (3, 0)]
       \<and> n = 0 \<and> delivered_log rb3 = [] \<and> next_expected rb3 = 1 \<and> buffer rb3 = buffer rb2
       \<and> n' = 0 \<and> delivered_log rb4 = []
       \<and> n'' = 2 \<and> delivered_log rb5 = [(2, [0x02]), (3, [0x03])] \<and> next_expected rb5 = 4)"
proof -
  define cfg :: ReorderBufferConfig where
    "cfg = \<lparr>max_buffered_packets = 256, max_buffered_bytes = 1048576, max_delay_ms = 1000\<rparr>"
  define rb0 where "rb0 = set_deliver_callback (ReorderBuffer_new cfg)"
  define rb1 where "rb1 = rb0\<lparr>buffered_bytes := 1,
                              buffer := [(3, \<lparr>bp_data = [0x03], timestamp_ms = 0\<rparr>)]\<rparr>"
  define rb2 where "rb2 = rb0\<lparr>buffered_bytes := 2,
                              buffer := [(2, \<lparr>bp_data = [0x02], timestamp_ms = 900\<rparr>),
                                         (3, \<lparr>bp_data = [0x03], timestamp_ms = 0\<rparr>)]\<rparr>"
  have rb0: "has_callback rb0" "next_expected rb0 = 1" "buffer rb0 = []" "buffered_bytes rb0 = 0"
    "rb_config rb0 = cfg" "delivered_log rb0 = []"
    by (simp_all add: rb0_def set_deliver_callback_def ReorderBuffer_new_def)
  have i1: "insert_packet rb0 3 [0x03] 0 = (True, rb1)"
    by (simp add: insert_packet_def rb0 rb1_def cfg_def map_count_def size_of_def
        word_le_nat_alt word_less_nat_alt)
  have i2: "insert_packet rb1 2 [0x02] 900 = (True, rb2)"
    by (simp add: insert_packet_def rb0 rb1_def rb2_def cfg_def map_count_def size_of_def
        word_le_nat_alt word_less_nat_alt)
  have rb2: "has_callback rb2" "next_expected rb2 = 1" "rb_config rb2 = cfg"
    "buffer rb2 = [(2, \<lparr>bp_data = [0x02], timestamp_ms = 900\<rparr>),
                   (3, \<lparr>bp_data = [0x03], timestamp_ms = 0\<rparr>)]"
    "delivered_log rb2 = []"
    by (simp_all add: rb2_def rb0)
  have d2: "deliver_loop rb2 0 = (rb2, 0)"
    by (simp add: deliver_loop.simps [of rb2] rb2)
  have f1000: "flush rb2 1000 = (0, rb2)"
    by (simp add: flush_def d2 flush_loop.simps [of _ rb2] rb2 cfg_def word_less_nat_alt)
  have f1899: "flush rb2 1899 = (0, rb2)"
    by (simp add: flush_def d2 flush_loop.simps [of _ rb2] rb2 cfg_def word_less_nat_alt)
  define rb3 where "rb3 = flush_step rb2 2 \<lparr>bp_data = [0x02], timestamp_ms = 900\<rparr>"
  have rb3: "buffer rb3 = [(3, \<lparr>bp_data = [0x03], timestamp_ms = 0\<rparr>)]" "next_expected rb3 = 3"
    "delivered_log rb3 = [(2, [0x02])]" "has_callback rb3"
    by (simp_all add: rb3_def flush_step_def invoke_callback_def rb2)
  define rb4 where "rb4 = deliver_step rb3 \<lparr>bp_data = [0x03], timestamp_ms = 0\<rparr>"
  have rb4: "buffer rb4 = []" "next_expected rb4 = 4"
    "delivered_log rb4 = [(2, [0x02]), (3, [0x03])]"
    by (simp_all add: rb4_def deliver_step_def invoke_callback_def rb3)
  have d3: "deliver_loop rb3 0 = (rb4, 1)"
    by (simp add: deliver_loop.simps [of rb3] deliver_loop.simps [of rb4] rb3 rb4 rb4_def [symmetric])
  have f1900: "flush rb2 1900 = (2, rb4)"
    using d3
    by (simp add: flush_def d2 flush_loop.simps [of _ rb2] flush_loop.simps [of _ rb4] rb4
        rb2 cfg_def word_less_nat_alt rb3_def [symmetric])
  show ?thesis
    unfolding Let_def
    by (simp add: cfg_def [symmetric] rb0_def [symmetric] i1 i2 f1000 f1899 f1900 rb4 rb2)
qed

section \<open>Reorder buffer: byte accounting\<close>

text \<open>
  Claim C10.  With a delivery callback installed (the transport session always installs
  one), \<open>deliver\<close> does not release the bytes of the entry it delivers: the payload has
  been moved into the callback's parameter when \<open>it->second.data.size()\<close> is read, so
  zero is subtracted.  Below, with \<open>max_buffered_bytes = 8\<close>: a 5-byte payload for
  sequence 1 is inserted and delivered; afterwards the buffer is empty but
  \<open>buffered_bytes\<close> is still 5, and the next 5-byte insert is refused by the byte cap.
\<close>

theorem reorder_buffer_delivery_keeps_bytes_charged:
  "(let cfg = \<lparr>max_buffered_packets = 256, max_buffered_bytes = 8, max_delay_ms = 1000\<rparr>;
        rb0 = set_deliver_callback (ReorderBuffer_new cfg);
        (ok1, rb1) = insert_packet rb0 1 [1, 2, 3, 4, 5] 0;
        (n, rb2) = deliver rb1;
        (ok2, rb3) = insert_packet rb2 2 [6, 7, 8, 9, 10] 0
    in ok1 \<and> buffered_bytes rb1 = 5
       \<and> n = 1 \<and> delivered_log rb2 = [(1, [1, 2, 3, 4, 5])]
       \<and> buffer rb2 = [] \<and> buffered_bytes rb2 = 5
       \<and> \<not> ok2 \<and> buffer rb3 = [])"
  by (simp add: insert_packet_def set_deliver_callback_def ReorderBuffer_new_def map_count_def
      size_of_def deliver_def deliver_loop.simps deliver_step_def invoke_callback_def
      stored_after_call_def word_le_nat_alt word_less_nat_alt)

section \<open>Packet codec: round trip of what the builder accepted\<close>


lemma length_write_u64 [simp]: "length (write_u64 v) = 8"
  by (simp add: write_u64_def)

lemma length_write_u32 [simp]: "length (write_u32 v) = 4"
  by (simp add: write_u32_def)

lemma length_write_u16 [simp]: "length (write_u16 v) = 2"
  by (simp add: write_u16_def)

lemma be_fold_step:
  fixes a v :: "'a::len word"
  shows "push_bit (8 * k) (push_bit 8 a OR ucast (ucast (drop_bit (k * 8) v) :: u8))
           OR take_bit (8 * k) v
         = push_bit (8 * Suc k) a OR take_bit (8 * Suc k) v"
proof (rule bit_eqI)
  fix n
  assume "possible_bit TYPE('a word) n"
  then have n: "n < LENGTH('a)" by (simp add: possible_bit_word)
  consider "n < 8 * k" | "8 * k \<le> n" "n < 8 * k + 8" | "8 * k + 8 \<le> n" by linarith
  then show "bit (push_bit (8 * k) (push_bit 8 a OR ucast (ucast (drop_bit (k * 8) v) :: u8))
                  OR take_bit (8 * k) v) n
             = bit (push_bit (8 * Suc k) a OR take_bit (8 * Suc k) v) n"
  proof cases
    case 1
    then show ?thesis by (simp add: bit_simps)
  next
    case 2
    then have "n - 8 * k < 8" "k * 8 + (n - 8 * k) = n" by simp_all
    with 2 n show ?thesis by (simp add: bit_simps)
  next
    case 3
    then have "n - 8 * k - 8 = n - (8 + 8 * k)" "\<not> n - 8 * k < 8" by simp_all
    with 3 n show ?thesis by (simp add: bit_simps)
  qed
qed

lemma be_fold:
  fixes a v :: "'a::len word"
  shows "foldl (\<lambda>v b. push_bit 8 v OR ucast b) a
           (map (\<lambda>i. (ucast (drop_bit (i * 8) v) :: u8)) (rev [0..<k]))
         = push_bit (8 * k) a OR take_bit (8 * k) v"
proof (induction k arbitrary: a)
  case 0
  show ?case by simp
next
  case (Suc k)
  let ?f = "\<lambda>(v :: 'a word) (b :: u8). push_bit 8 v OR ucast b"
  let ?g = "\<lambda>i. (ucast (drop_bit (i * 8) v) :: u8)"
  have "foldl ?f a (map ?g (rev [0..<Suc k])) = foldl ?f (?f a (?g k)) (map ?g (rev [0..<k]))"
    by simp
  also have "\<dots> = push_bit (8 * k) (?f a (?g k)) OR take_bit (8 * k) v"
    by (rule Suc.IH)
  also have "\<dots> = push_bit (8 * Suc k) a OR take_bit (8 * Suc k) v"
    by (rule be_fold_step)
  finally show ?case .
qed

lemma read_write_u64 [simp]: "read_u64 (write_u64 v @ rest) = v"
proof -
  have l: "[7, 6, 5, 4, 3, 2, 1, 0] = rev [0..<8::nat]" by (simp add: upt_rec)
  have "read_u64 (write_u64 v @ rest)
          = foldl (\<lambda>v b. push_bit 8 v OR ucast b) 0
              (map (\<lambda>i. (ucast (drop_bit (i * 8) v) :: u8)) (rev [0..<8]))"
    unfolding read_u64_def write_u64_def l by simp
  also have "\<dots> = v"
    unfolding be_fold by (simp add: take_bit_word_eq_self)
  finally show ?thesis .
qed

lemma read_write_u32 [simp]: "read_u32 (write_u32 v @ rest) = v"
proof -
  have l: "[3, 2, 1, 0] = rev [0..<4::nat]" by (simp add: upt_rec)
  have "read_u32 (write_u32 v @ rest)
          = foldl (\<lambda>v b. push_bit 8 v OR ucast b) 0
              (map (\<lambda>i. (ucast (drop_bit (i * 8) v) :: u8)) (rev [0..<4]))"
    unfolding read_u32_def write_u32_def l by simp
  also have "\<dots> = v"
    unfolding be_fold by (simp add: take_bit_word_eq_self)
  finally show ?thesis .
qed

lemma read_write_u64' [simp]: "read_u64 (write_u64 v) = v"
  using read_write_u64 [of v "[]"] by simp

lemma read_write_u32' [simp]: "read_u32 (write_u32 v) = v"
  using read_write_u32 [of v "[]"] by simp

lemma ucast_and_255: "(ucast ((v :: u16) AND 0xFF) :: u8) = ucast v"
proof -
  have m: "(0xFF :: u16) = mask 8" by (simp add: mask_eq_exp_minus_1)
  show ?thesis
    unfolding m by (intro bit_eqI) (auto simp: bit_simps)
qed

lemma read_write_u16 [simp]: "read_u16 (write_u16 v @ rest) = v"
proof -
  have "read_u16 (write_u16 v @ rest)
          = foldl (\<lambda>v b. push_bit 8 v OR ucast b) 0
              (map (\<lambda>i. (ucast (drop_bit (i * 8) v) :: u8)) (rev [0..<2]))"
    unfolding read_u16_def write_u16_def by (simp add: upt_rec ucast_and_255)
  also have "\<dots> = v"
    unfolding be_fold by (simp add: take_bit_word_eq_self)
  finally show ?thesis .
qed


lemma header_length_round_trip:
  "push_bit 8 (ucast (ucast (drop_bit 8 l) :: u8)) OR ucast (ucast (l AND 0xFF) :: u8) = (l :: u16)"
  using read_write_u16 [of l "[]"]
  by (simp add: read_u16_def write_u16_def)

lemma parse_frame_header_serialize:
  "parse_frame_header (serialize_header h @ rest) = Some h"
  by (simp add: parse_frame_header_def serialize_header_def header_length_round_trip)

lemma length_serialize_frame: "length (serialize_frame f) = 4 + length (frame_payload f)"
  by (simp add: serialize_frame_def serialize_header_def Let_def)

lemma parse_frame_switch_payload:
  assumes "frame_wf f"
  shows "parse_frame_switch (frame_type_code (get_frame_type f)) (frame_payload f) n = Some (f, n)"
  using assms by (cases f) (simp_all add: parse_frame_switch_def frame_wf_def)

lemma parse_frame_serialize:
  assumes "frame_wf f"
  shows "parse_frame (serialize_frame f @ rest) = Some (f, length (serialize_frame f))"
proof -
  let ?p = "frame_payload f"
  let ?h = "\<lparr>fh_type = frame_type_code (get_frame_type f), fh_flags = 0,
             fh_length = (of_nat (length ?p) :: u16)\<rparr>"
  have len: "unat (of_nat (length ?p) :: u16) = length ?p"
    using assms by (simp add: frame_wf_def unat_of_nat)
  have ser: "serialize_frame f @ rest = serialize_header ?h @ (?p @ rest)"
    by (simp add: serialize_frame_def Let_def)
  have hdr: "parse_frame_header (serialize_frame f @ rest) = Some ?h"
    unfolding ser by (rule parse_frame_header_serialize)
  have d4: "drop 4 (serialize_frame f @ rest) = ?p @ rest"
    by (simp add: serialize_frame_def Let_def serialize_header_def)
  have pl: "take (length ?p) (drop 4 (serialize_frame f @ rest)) = ?p"
    unfolding d4 by simp
  have "parse_frame (serialize_frame f @ rest)
          = parse_frame_switch (frame_type_code (get_frame_type f)) ?p (4 + length ?p)"
    unfolding parse_frame_def hdr
    by (simp only: option.case FrameHeader.simps len pl)
       (simp add: length_serialize_frame)
  then show ?thesis
    by (simp add: parse_frame_switch_payload [OF assms] length_serialize_frame)
qed


lemma parse_frames_serialize:
  assumes "\<forall>f \<in> set fs. frame_wf f"
  shows "parse_frames (concat (map serialize_frame fs)) = Some fs"
  using assms
proof (induction fs)
  case Nil
  show ?case by (simp add: parse_frames.simps)
next
  case (Cons f fs)
  have ne: "serialize_frame f @ concat (map serialize_frame fs) \<noteq> []"
    by (simp add: serialize_frame_def serialize_header_def Let_def)
  have pf: "parse_frame (serialize_frame f @ concat (map serialize_frame fs))
              = Some (f, length (serialize_frame f))"
    using Cons.prems by (simp add: parse_frame_serialize)
  show ?case
    using Cons.IH Cons.prems ne
    by (subst parse_frames.simps) (simp add: pf)
qed

lemma add_frame_accepted:
  assumes "add_frame pb f = (True, pb')"
  shows "pb' = pb\<lparr>payload_buffer := payload_buffer pb @ serialize_frame f\<rparr>"
    and "size_of (payload_buffer pb) + size_of (serialize_frame f) \<le> remaining_capacity pb"
  using assms by (auto simp: add_frame_def Let_def split: if_splits)

lemma remaining_capacity_le_mtu: "remaining_capacity pb \<le> pb_mtu pb"
proof -
  have "x - y \<le> x" if "y \<le> x" for x y :: u64
    using that by (simp add: word_sub_le)
  moreover have "pb_mtu pb - (PacketHeader_SIZE + POLY1305_TAG_SIZE) - size_of (payload_buffer pb)
                   = pb_mtu pb - (PacketHeader_SIZE + POLY1305_TAG_SIZE + size_of (payload_buffer pb))"
    by simp
  ultimately show ?thesis
    by (simp add: remaining_capacity_def Let_def not_le less_imp_le del: diff_diff_eq)
       (metis add.commute diff_diff_eq less_imp_le)
qed


lemma unat_size_of: "length xs < 2 ^ 64 \<Longrightarrow> unat (size_of xs) = length xs"
  by (simp add: size_of_def unat_of_nat)

lemma add_frame_accepted_length:
  assumes acc: "add_frame pb f = (True, pb')"
    and mtu: "unat (pb_mtu pb) \<le> 65535"
    and buf: "length (payload_buffer pb) \<le> 65535"
    and wf: "frame_wf f"
  shows "length (payload_buffer pb') \<le> 65535"
proof -
  let ?b = "payload_buffer pb" and ?s = "serialize_frame f"
  have ls: "length ?s < 65540"
    using wf by (simp add: length_serialize_frame frame_wf_def)
  have ub: "unat (size_of ?b) = length ?b" using buf by (simp add: unat_size_of)
  have us: "unat (size_of ?s) = length ?s" using ls by (simp add: unat_size_of)
  have "unat (size_of ?b + size_of ?s) = length ?b + length ?s"
    using ub us buf ls by (simp add: unat_word_ariths)
  moreover have "unat (size_of ?b + size_of ?s) \<le> unat (pb_mtu pb)"
    using add_frame_accepted(2) [OF acc] remaining_capacity_le_mtu [of pb]
    by (simp add: word_le_nat_alt)
  ultimately show ?thesis
    using mtu add_frame_accepted(1) [OF acc] by simp
qed

lemma add_frames_accepted:
  assumes "add_frames pb fs = (oks, pb')" and "list_all (\<lambda>ok. ok) oks"
    and "unat (pb_mtu pb) \<le> 65535" and "length (payload_buffer pb) \<le> 65535"
    and "\<forall>f \<in> set fs. frame_wf f"
  shows "pb' = pb\<lparr>payload_buffer := payload_buffer pb @ concat (map serialize_frame fs)\<rparr>
         \<and> length (payload_buffer pb') \<le> 65535"
  using assms
proof (induction fs arbitrary: pb oks pb')
  case Nil
  then show ?case by simp
next
  case (Cons f fs)
  obtain ok pb1 where a1: "add_frame pb f = (ok, pb1)" by (cases "add_frame pb f")
  obtain oks1 pb2 where a2: "add_frames pb1 fs = (oks1, pb2)" by (cases "add_frames pb1 fs")
  from Cons.prems(1) a1 a2 have e: "oks = ok # oks1" "pb' = pb2" by simp_all
  with Cons.prems(2) have ok: "ok" and oks1: "list_all (\<lambda>ok. ok) oks1" by simp_all
  from a1 ok have acc: "add_frame pb f = (True, pb1)" by simp
  have pb1: "pb1 = pb\<lparr>payload_buffer := payload_buffer pb @ serialize_frame f\<rparr>"
    by (rule add_frame_accepted(1) [OF acc])
  have l1: "length (payload_buffer pb1) \<le> 65535"
    using add_frame_accepted_length [OF acc Cons.prems(3) Cons.prems(4)] Cons.prems(5) by simp
  have m1: "unat (pb_mtu pb1) \<le> 65535" using Cons.prems(3) pb1 by simp
  have wfs: "\<forall>f \<in> set fs. frame_wf f" using Cons.prems(5) by simp
  note ih = Cons.IH [OF a2 oks1 m1 l1 wfs]
  have "pb2 = pb1\<lparr>payload_buffer := payload_buffer pb1 @ concat (map serialize_frame fs)\<rparr>"
    using ih by (rule conjunct1)
  moreover have "length (payload_buffer pb2) \<le> 65535"
    using ih by (rule conjunct2)
  ultimately show ?case using e pb1 by simp
qed

lemma serialize_frame_nonempty: "serialize_frame f \<noteq> []"
  by (simp add: serialize_frame_def serialize_header_def Let_def)

lemma build_parse_round_trip:
  assumes aead: "aead_correct L"
    and key: "pb_has_key pb" and ne: "payload_buffer pb \<noteq> []"
    and len: "length (payload_buffer pb) \<le> 65535"
    and frames: "parse_frames (payload_buffer pb) = Some fs"
    and pk: "parser_has_key p" "parser_key p = pb_key pb" "parser_nonce_base p = pb_nonce_base pb"
  shows "\<exists>dat. build L pb c = (Inr dat, pb)
           \<and> parse L p dat = Inr \<lparr>pp_session_id = pb_session_id pb, pp_packet_counter = c,
                                    pp_frames = fs\<rparr>"
proof -
  define header where "header = write_u64 (pb_session_id pb) @ write_u64 c"
  define nonce where "nonce = make_nonce (pb_nonce_base pb) c"
  define enc where "enc = encrypt L (pb_key pb) nonce (payload_buffer pb) header"
  have hl: "length header = 16" by (simp add: header_def)
  have el: "length enc = length (payload_buffer pb) + 16"
    using aead by (simp add: enc_def encrypt_def aead_correct_def)
  have b: "build L pb c = (Inr (header @ enc), pb)"
    using key ne hl by (simp add: build_def Let_def header_def enc_def nonce_def)
  have sz: "unat (size_of (header @ enc)) = length header + length enc"
    using hl el len by (simp add: unat_size_of)
  have big: "\<not> size_of (header @ enc) < PacketHeader_SIZE + POLY1305_TAG_SIZE"
    using sz hl el by (simp add: word_less_nat_alt PacketHeader_SIZE_def POLY1305_TAG_SIZE_def)
  have big16: "\<not> size_of (header @ enc) < PacketHeader_SIZE"
    using sz hl el by (simp add: word_less_nat_alt PacketHeader_SIZE_def)
  have ph: "parse_header (header @ enc)
              = Some \<lparr>ph_session_id = pb_session_id pb, ph_packet_counter = c\<rparr>"
    using big16 by (simp add: parse_header_def header_def)
  have esz: "\<not> size_of enc < POLY1305_TAG_SIZE"
    using el len by (simp add: word_less_nat_alt POLY1305_TAG_SIZE_def unat_size_of)
  have dec: "decrypt L (pb_key pb) nonce enc header = Some (payload_buffer pb)"
    using aead esz by (simp add: decrypt_def enc_def [symmetric])
       (simp add: enc_def encrypt_def aead_correct_def)
  have "parse L p (header @ enc) = Inr \<lparr>pp_session_id = pb_session_id pb, pp_packet_counter = c,
                                    pp_frames = fs\<rparr>"
    using big ph pk hl dec frames
    by (simp add: parse_def Let_def nonce_def [symmetric])
  with b show ?thesis by blast
qed

lemma packet_round_trip_when_accepted:
  assumes aead: "aead_correct L"
    and key: "pb_has_key pb" and empty: "payload_buffer pb = []"
    and mtu: "unat (pb_mtu pb) \<le> 65535"
    and fs: "fs \<noteq> []" "\<forall>f \<in> set fs. frame_wf f"
    and added: "add_frames pb fs = (oks, pb')" "list_all (\<lambda>ok. ok) oks"
    and pk: "parser_has_key p" "parser_key p = pb_key pb" "parser_nonce_base p = pb_nonce_base pb"
  shows "\<exists>dat. build L pb' c = (Inr dat, pb')
           \<and> parse L p dat = Inr \<lparr>pp_session_id = pb_session_id pb, pp_packet_counter = c,
                                    pp_frames = fs\<rparr>"
proof -
  have "length (payload_buffer pb) \<le> 65535" using empty by simp
  from add_frames_accepted [OF added mtu this fs(2)]
  have pb': "pb' = pb\<lparr>payload_buffer := concat (map serialize_frame fs)\<rparr>"
    and l: "length (payload_buffer pb') \<le> 65535" using empty by auto
  have ne: "payload_buffer pb' \<noteq> []"
    using fs(1) by (cases fs) (simp_all add: pb' serialize_frame_nonempty)
  have pf: "parse_frames (payload_buffer pb') = Some fs"
    using parse_frames_serialize [OF fs(2)] by (simp add: pb')
  from build_parse_round_trip [OF aead _ ne l pf pk(1), of c] key pk(2,3)
  show ?thesis by (simp add: pb')
qed

text \<open>The constructor returns for every MTU from 32 up to \<open>2^63 + 31\<close> and throws below
  32; the builder of MTU 1400 used below is the one it returns.\<close>

lemma PacketBuilder_construct_returns:
  "PacketBuilder_construct m = Inr (PacketBuilder_new m)
     \<longleftrightarrow> 32 \<le> m \<and> m \<le> 0x800000000000001F"
proof (cases "32 \<le> m")
  case True
  then have "unat (m - 32) = unat m - 32"
    by (simp add: unat_sub)
  with True show ?thesis
    by (simp add: PacketBuilder_construct_def PacketHeader_SIZE_def POLY1305_TAG_SIZE_def
        word_le_nat_alt word_less_nat_alt) arith
next
  case False
  then have "unat m < 32" by (simp add: word_le_nat_alt)
  then have "unat (m - 32) = unat m + 2 ^ 64 - 32"
    by (simp add: unat_sub_if')
  with False \<open>unat m < 32\<close> show ?thesis
    by (simp add: PacketBuilder_construct_def PacketHeader_SIZE_def POLY1305_TAG_SIZE_def
        word_less_nat_alt)
qed

lemma PacketBuilder_construct_default:
  "PacketBuilder_construct 1400 = Inr (PacketBuilder_new 1400)"
  by (simp add: PacketBuilder_construct_returns)

section \<open>Packet builder: what \<open>build\<close> changes\<close>

text \<open>
  Claim C9 says that \<open>build(counter)\<close> clears the frame buffer.  It does not: with one
  DATA frame buffered and a key configured, \<open>build\<close> returns a 49-byte datagram and the
  frame buffer still holds the 17 frame bytes afterwards, so \<open>remaining_capacity()\<close> is
  \<open>MTU - 32 - 17\<close>, not \<open>MTU - 32\<close>.
\<close>

theorem build_leaves_frame_buffer:
  "(let pb = snd (add_frame (set_encryption_key (PacketBuilder_new 1400)
                               (replicate 32 1) (replicate 12 2))
                    (DataFrame 1 [72, 101, 108, 108, 111]));
        (r, pb') = build demo_sodium pb 1
    in payload_buffer pb \<noteq> [] \<and> pb_has_key pb
       \<and> (\<exists>pkt. r = Inr pkt \<and> length pkt = 16 + 17 + 16)
       \<and> payload_buffer pb' \<noteq> []
       \<and> remaining_capacity pb' = 1400 - 32 - 17
       \<and> remaining_capacity pb' \<noteq> 1400 - 32)"
  by (simp add: add_frame_def set_encryption_key_def PacketBuilder_new_def serialize_frame_def
      serialize_header_def remaining_capacity_def size_of_def PacketHeader_SIZE_def
      POLY1305_TAG_SIZE_def build_def Let_def encrypt_def demo_sodium_def demo_aead_encrypt_def
      demo_tag_def word_le_nat_alt word_less_nat_alt)

text \<open>
  Claim C9, amended.  For every builder state with at least one buffered frame and a
  configured key, \<open>build(counter)\<close> returns the complete datagram (the 16-byte header
  followed by the AEAD-sealed frame bytes, sealed with the header as associated data) and
  leaves the builder, its frame buffer included, unchanged.  The frame buffer is cleared
  by \<open>reset()\<close>, after which the payload buffer is empty and \<open>remaining_capacity()\<close> equals
  \<open>MTU - 32\<close> (for an MTU of at least 32).  \<open>build\<close> returns an empty datagram when the
  frame buffer is empty, and throws when frames are buffered but no key is configured.
\<close>

theorem build_and_reset:
  "(payload_buffer pb \<noteq> [] \<and> pb_has_key pb \<longrightarrow>
      build L pb c =
        (Inr (write_u64 (pb_session_id pb) @ write_u64 c @
              encrypt L (pb_key pb) (make_nonce (pb_nonce_base pb) c) (payload_buffer pb)
                (write_u64 (pb_session_id pb) @ write_u64 c)), pb)
      \<and> length (write_u64 (pb_session_id pb) @ write_u64 c) = 16)
   \<and> payload_buffer (PacketBuilder_reset pb) = []
   \<and> (32 \<le> pb_mtu pb \<longrightarrow> remaining_capacity (PacketBuilder_reset pb) = pb_mtu pb - 32)
   \<and> (payload_buffer pb = [] \<longrightarrow> build L pb c = (Inr [], pb))
   \<and> (payload_buffer pb \<noteq> [] \<and> \<not> pb_has_key pb \<longrightarrow>
        build L pb c = (Inl Encryption_key_not_set, pb))"
  by (auto simp: build_def Let_def PacketBuilder_reset_def remaining_capacity_def size_of_def
      PacketHeader_SIZE_def POLY1305_TAG_SIZE_def)

theorem build_and_reset_witness:
  "(let pb = snd (add_frame (set_encryption_key (PacketBuilder_new 1400)
                               (replicate 32 1) (replicate 12 2))
                    (DataFrame 1 [72, 101, 108, 108, 111]))
    in payload_buffer pb \<noteq> [] \<and> pb_has_key pb
       \<and> snd (build demo_sodium pb 1) = pb
       \<and> payload_buffer (PacketBuilder_reset pb) = []
       \<and> remaining_capacity (PacketBuilder_reset pb) = 1368)
   \<and> build demo_sodium (PacketBuilder_new 1400) 1 = (Inr [], PacketBuilder_new 1400)
   \<and> (let pb = snd (add_frame (PacketBuilder_new 1400) (DataFrame 1 [72, 101, 108, 108, 111]))
       in payload_buffer pb \<noteq> [] \<and> \<not> pb_has_key pb
          \<and> build demo_sodium pb 1 = (Inl Encryption_key_not_set, pb))"
proof -
  define pb1 where
    "pb1 = snd (add_frame (set_encryption_key (PacketBuilder_new 1400)
                             (replicate 32 1) (replicate 12 2))
                  (DataFrame 1 [72, 101, 108, 108, 111]))"
  define pb3 where
    "pb3 = snd (add_frame (PacketBuilder_new 1400) (DataFrame 1 [72, 101, 108, 108, 111]))"
  have p1: "payload_buffer pb1 \<noteq> []" "pb_has_key pb1" "pb_mtu pb1 = 1400"
    by (simp_all add: pb1_def add_frame_def set_encryption_key_def PacketBuilder_new_def
        serialize_frame_def serialize_header_def remaining_capacity_def size_of_def
        PacketHeader_SIZE_def POLY1305_TAG_SIZE_def Let_def word_le_nat_alt word_less_nat_alt)
  have p2: "payload_buffer (PacketBuilder_new 1400) = []"
    by (simp add: PacketBuilder_new_def)
  have p3: "payload_buffer pb3 \<noteq> []" "\<not> pb_has_key pb3"
    by (simp_all add: pb3_def add_frame_def PacketBuilder_new_def
        serialize_frame_def serialize_header_def remaining_capacity_def size_of_def
        PacketHeader_SIZE_def POLY1305_TAG_SIZE_def Let_def word_le_nat_alt word_less_nat_alt)
  have a: "snd (build demo_sodium pb1 1) = pb1 \<and> payload_buffer (PacketBuilder_reset pb1) = []
           \<and> remaining_capacity (PacketBuilder_reset pb1) = 1368"
    using build_and_reset [of pb1 demo_sodium 1] p1 by (simp add: word_le_nat_alt)
  have b: "build demo_sodium (PacketBuilder_new 1400) 1 = (Inr [], PacketBuilder_new 1400)"
    using build_and_reset [of "PacketBuilder_new 1400" demo_sodium 1] p2 by simp
  have c: "build demo_sodium pb3 1 = (Inl Encryption_key_not_set, pb3)"
    using build_and_reset [of pb3 demo_sodium 1] p3 by simp
  show ?thesis
    unfolding Let_def pb1_def [symmetric] pb3_def [symmetric]
    using a b c p1 p3 by simp
qed

section \<open>Packet codec: a stream that fits but is not carried\<close>


lemma demo_aead_correct: "aead_correct demo_sodium"
proof -
  have x: "map ((\<lambda>b. b XOR m) \<circ> (\<lambda>b. b XOR m)) p = p" for m :: u8 and p
    by (induction p) (simp_all add: xor.assoc)
  show ?thesis
    by (simp add: aead_correct_def demo_sodium_def demo_aead_encrypt_def demo_aead_decrypt_def
        demo_tag_def x)
qed

text \<open>
  Claim C4.  A stream whose frames the builder accepts does round-trip
  (\<open>packet_round_trip_when_accepted\<close>).  But \<open>add_frame\<close> does not accept every stream
  that fits: it compares \<open>payload_buffer_.size() + serialized.size()\<close> with
  \<open>remaining_capacity()\<close>, which has already subtracted \<open>payload_buffer_.size()\<close>, so the
  bytes already buffered are counted twice.  Below, with the default MTU of 1400 (1368
  payload bytes), two DATA frames of 700 and 100 serialized bytes fit together (800
  bytes); the second \<open>add_frame\<close> returns false, and the datagram built afterwards parses
  (same key and nonce base) to the first frame alone.
\<close>

theorem add_frame_rejects_frame_that_fits:
  "(let key = replicate 32 1; nonce_base = replicate 12 2;
        pb0 = set_session_id (set_encryption_key (PacketBuilder_new 1400) key nonce_base) 7;
        f1 = DataFrame 1 (replicate 688 0x41);
        f2 = DataFrame 2 (replicate 88 0x42);
        (ok1, pb1) = add_frame pb0 f1;
        (ok2, pb2) = add_frame pb1 f2
    in length (serialize_frame f1 @ serialize_frame f2) = 800
       \<and> ok1 \<and> \<not> ok2 \<and> payload_buffer pb2 = serialize_frame f1
       \<and> (case fst (build demo_sodium pb2 1) of
             Inl e \<Rightarrow> False
           | Inr dat \<Rightarrow>
               (case parse demo_sodium (set_decryption_key PacketParser_new key nonce_base) dat of
                  Inl e \<Rightarrow> False
                | Inr pp \<Rightarrow> pp_session_id pp = 7 \<and> pp_packet_counter pp = 1
                            \<and> pp_frames pp = [f1])))"
proof -
  define key :: bytes where "key = replicate 32 1"
  define nonce_base :: bytes where "nonce_base = replicate 12 2"
  define pb0 where
    "pb0 = set_session_id (set_encryption_key (PacketBuilder_new 1400) key nonce_base) 7"
  define f1 where "f1 = DataFrame 1 (replicate 688 0x41)"
  define f2 where "f2 = DataFrame 2 (replicate 88 0x42)"
  define pb1 where "pb1 = pb0\<lparr>payload_buffer := serialize_frame f1\<rparr>"
  define p where "p = set_decryption_key PacketParser_new key nonce_base"
  have l1: "length (serialize_frame f1) = 700" and l2: "length (serialize_frame f2) = 100"
    by (simp_all add: f1_def f2_def length_serialize_frame)
  have pb0: "payload_buffer pb0 = []" "pb_mtu pb0 = 1400" "pb_has_key pb0"
    "pb_session_id pb0 = 7" "pb_key pb0 = key" "pb_nonce_base pb0 = nonce_base"
    by (simp_all add: pb0_def set_session_id_def set_encryption_key_def PacketBuilder_new_def)
  have a1: "add_frame pb0 f1 = (True, pb1)"
    by (simp add: add_frame_def pb0 l1 pb1_def remaining_capacity_def size_of_def
        PacketHeader_SIZE_def POLY1305_TAG_SIZE_def word_le_nat_alt word_less_nat_alt)
  have a2: "add_frame pb1 f2 = (False, pb1)"
    by (simp add: add_frame_def pb0 l1 l2 pb1_def remaining_capacity_def size_of_def
        PacketHeader_SIZE_def POLY1305_TAG_SIZE_def word_le_nat_alt word_less_nat_alt)
  have wf: "\<forall>f \<in> set [f1]. frame_wf f"
    by (simp add: f1_def frame_wf_def)
  have pf: "parse_frames (payload_buffer pb1) = Some [f1]"
    using parse_frames_serialize [OF wf] by (simp add: pb1_def)
  have pk: "parser_has_key p" "parser_key p = pb_key pb1" "parser_nonce_base p = pb_nonce_base pb1"
    by (simp_all add: p_def set_decryption_key_def pb1_def pb0)
  have "\<exists>dat. build demo_sodium pb1 1 = (Inr dat, pb1)
           \<and> parse demo_sodium p dat = Inr \<lparr>pp_session_id = pb_session_id pb1,
                 pp_packet_counter = 1, pp_frames = [f1]\<rparr>"
    by (rule build_parse_round_trip [OF demo_aead_correct _ _ _ pf pk])
       (simp_all add: pb1_def pb0 l1 serialize_frame_nonempty)
  then obtain dat where d: "build demo_sodium pb1 1 = (Inr dat, pb1)"
    "parse demo_sodium p dat = Inr \<lparr>pp_session_id = 7, pp_packet_counter = 1, pp_frames = [f1]\<rparr>"
    by (auto simp: pb1_def pb0)
  show ?thesis
    unfolding Let_def key_def [symmetric] nonce_base_def [symmetric] pb0_def [symmetric]
      f1_def [symmetric] f2_def [symmetric]
    using a1 a2 d l1 l2 by (simp add: p_def [symmetric] pb1_def)
qed

section \<open>Handshake: the three-message exchange\<close>


lemma build_message_eq:
  "build_message L h type payload =
     (handshake_msg L (psk (hs_config h)) type (get_current_time h) payload,
      h\<lparr>transcript := transcript h
            @ handshake_msg L (psk (hs_config h)) type (get_current_time h) payload\<rparr>)"
  by (simp add: build_message_def handshake_msg_def Let_def compute_hmac_def)

lemma process_handshake_msg:
  assumes hmac32: "\<forall>k m. length (sodium_hmacsha256 L k m) = 32"
    and len: "length payload < 65536"
    and key: "psk (hs_config h) = key"
    and time: "\<not> (if ts > get_current_time h then ts - get_current_time h
                   else get_current_time h - ts) > timestamp_tolerance_sec (hs_config h)"
  shows "process_message L h (handshake_msg L key type ts payload) =
           (let h1 = h\<lparr>transcript := transcript h @ handshake_msg L key type ts payload\<rparr>
            in if type = MSG_INIT then handle_init L h1 payload
               else if type = MSG_RESPONSE then handle_response L h1 payload
               else if type = MSG_FINISH then handle_finish L h1 payload
               else (False, h1\<lparr>hs_last_error := INVALID_MESSAGE\<rparr>))"
proof -
  define body where
    "body = [type] @ write_u64 ts @ write_u16 (of_nat (length payload)) @ payload"
  define mac where "mac = hmac_sha256 L key body"
  have msg: "handshake_msg L key type ts payload = body @ mac"
    by (simp add: handshake_msg_def body_def mac_def Let_def)
  have lm: "length mac = 32" using hmac32 by (simp add: mac_def hmac_sha256_def)
  have lb: "length body = 11 + length payload" by (simp add: body_def)
  have hd: "hd (body @ mac) = type" by (simp add: body_def)
  have d1: "drop 1 (body @ mac) = write_u64 ts @ (write_u16 (of_nat (length payload)) @ payload @ mac)"
    by (simp add: body_def)
  have d9: "drop 9 (body @ mac) = write_u16 (of_nat (length payload)) @ (payload @ mac)"
    by (simp add: body_def)
  have pl: "unat (read_u16 (drop 9 (body @ mac))) = length payload"
    unfolding d9 using len by (simp add: unat_of_nat)
  have ts: "read_u64 (drop 1 (body @ mac)) = ts"
    unfolding d1 by simp
  have d11: "drop 11 (body @ mac) = payload @ mac"
    by (simp add: body_def)
  have tk: "take (11 + length payload) (body @ mac) = body"
    "take 32 (drop (11 + length payload) (body @ mac)) = mac"
    "take (length payload) (drop 11 (body @ mac)) = payload"
    unfolding d11 using lb lm by simp_all
  have sz: "\<not> length (body @ mac) < MSG_HEADER_SIZE + MSG_HMAC_SIZE"
    "length (body @ mac) = MSG_HEADER_SIZE + length payload + MSG_HMAC_SIZE"
    using lm lb by (simp_all add: MSG_HEADER_SIZE_def MSG_HMAC_SIZE_def)
  have vf: "verify_hmac L h body mac"
    by (simp add: verify_hmac_def compute_hmac_def constant_time_compare_def key mac_def)
  have tk': "take (MSG_HEADER_SIZE + length payload) (body @ mac) = body"
    "take MSG_HMAC_SIZE (drop (MSG_HEADER_SIZE + length payload) (body @ mac)) = mac"
    "take (length payload) (drop MSG_HEADER_SIZE (body @ mac)) = payload"
    using tk by (simp_all add: MSG_HEADER_SIZE_def MSG_HMAC_SIZE_def)
  show ?thesis
    unfolding msg process_message_def Let_def pl ts hd
    apply (simp only: sz if_False if_True simp_thms tk' vf)
    using time apply (simp only: if_False if_True simp_thms)
    apply simp
    done
qed


lemma get_current_time_simps [simp]:
  "get_current_time (h\<lparr>transcript := a\<rparr>) = get_current_time h"
  "get_current_time (h\<lparr>hs_sent := b\<rparr>) = get_current_time h"
  "get_current_time (h\<lparr>hs_state := c\<rparr>) = get_current_time h"
  "get_current_time (h\<lparr>peer_public_key := d\<rparr>) = get_current_time h"
  "get_current_time (h\<lparr>shared_secret := e\<rparr>) = get_current_time h"
  "get_current_time (h\<lparr>hs_session_id := f\<rparr>) = get_current_time h"
  by (simp_all add: get_current_time_def)

lemma handshake_exchange_completes:
  assumes ready: "exchange_ready L i r"
  defines "key \<equiv> psk (hs_config i)"
    and "pk_i \<equiv> public_key (our_keypair i)" and "pk_r \<equiv> public_key (our_keypair r)"
  defines "m1 \<equiv> handshake_msg L key MSG_INIT (get_current_time i) pk_i"
    and "m2 \<equiv> handshake_msg L key MSG_RESPONSE (get_current_time r) pk_r"
    and "m3 \<equiv> handshake_msg L key MSG_FINISH (get_current_time i) []"
  shows "handshake_exchange L i r =
           Some (i\<lparr>transcript := m1 @ m2 @ m3, hs_sent := [m1, m3], peer_public_key := pk_r,
                   shared_secret := key_exchange L (secret_key (our_keypair i)) pk_r,
                   hs_session_id := hmac_sha256 L key (m1 @ m2 @ m3), hs_state := COMPLETE\<rparr>,
                 r\<lparr>transcript := m1 @ m2 @ m3, hs_sent := [m2], peer_public_key := pk_i,
                   shared_secret := key_exchange L (secret_key (our_keypair i)) pk_r,
                   hs_session_id := hmac_sha256 L key (m1 @ m2 @ m3), hs_state := COMPLETE\<rparr>)"
proof -
  from ready have hmac32: "\<forall>k m. length (sodium_hmacsha256 L k m) = 32"
    and st: "hs_state i = IDLE" "hs_state r = IDLE"
    and tr: "transcript i = []" "transcript r = []"
    and sent: "hs_sent i = []" "hs_sent r = []"
    and cb: "hs_has_send_callback i" "hs_has_send_callback r"
    and kr: "psk (hs_config r) = key"
    and lk: "length pk_i = 32" "length pk_r = 32"
    and kx: "key_exchange L (secret_key (our_keypair i)) pk_r \<noteq> None"
      "key_exchange L (secret_key (our_keypair r)) pk_i
         = key_exchange L (secret_key (our_keypair i)) pk_r"
    and t1: "\<not> clock_skew (get_current_time i) (get_current_time r)
               > timestamp_tolerance_sec (hs_config r)"
    and t2: "\<not> clock_skew (get_current_time r) (get_current_time i)
               > timestamp_tolerance_sec (hs_config i)"
    by (auto simp: exchange_ready_def key_def pk_i_def pk_r_def not_less)
  obtain z where z: "key_exchange L (secret_key (our_keypair i)) pk_r = Some z"
    using kx(1) by blast
  have zr: "key_exchange L (secret_key (our_keypair r)) pk_i = Some z"
    using kx(2) z by simp

  define i1 where "i1 = i\<lparr>transcript := m1, hs_sent := [m1], hs_state := INIT_SENT\<rparr>"
  have s1: "initiate L i = (True, i1)"
    by (simp add: initiate_def st build_message_eq send_message_def cb sent tr i1_def m1_def
        key_def pk_i_def)
  have ls1: "last_sent i1 = Some m1" by (simp add: last_sent_def i1_def)

  define r1 where
    "r1 = r\<lparr>transcript := m1 @ m2, hs_sent := [m2], peer_public_key := pk_i,
            shared_secret := Some z, hs_state := RESPONSE_SENT\<rparr>"
  have l1: "length pk_i < 65536" "length pk_r < 65536" "length ([] :: bytes) < 65536"
    using lk by simp_all
  have sk1: "\<not> (if get_current_time i > get_current_time r
                  then get_current_time i - get_current_time r
                  else get_current_time r - get_current_time i)
               > timestamp_tolerance_sec (hs_config r)"
    using t1 by (auto simp: clock_skew_def split: if_splits)
  have p1: "process_message L r m1 = handle_init L (r\<lparr>transcript := m1\<rparr>) pk_i"
    unfolding m1_def
    by (simp add: process_handshake_msg [OF hmac32 l1(1) kr sk1] tr Let_def)
  have s2: "process_message L r m1 = (False, r1)"
    unfolding p1
    by (simp add: handle_init_def st lk zr pk_r_def [symmetric] build_message_eq
        send_message_def cb sent kr r1_def m2_def Let_def)
  have ls2: "last_sent r1 = Some m2" by (simp add: last_sent_def r1_def)

  define i2 where
    "i2 = i\<lparr>transcript := m1 @ m2 @ m3, hs_sent := [m1, m3], peer_public_key := pk_r,
            shared_secret := Some z,
            hs_session_id := hmac_sha256 L key (m1 @ m2 @ m3), hs_state := COMPLETE\<rparr>"
  have ki1: "psk (hs_config i1) = key" by (simp add: i1_def key_def)
  have sk2: "\<not> (if get_current_time r > get_current_time i1
                  then get_current_time r - get_current_time i1
                  else get_current_time i1 - get_current_time r)
               > timestamp_tolerance_sec (hs_config i1)"
    using t2 by (auto simp: clock_skew_def i1_def split: if_splits)
  have p2: "process_message L i1 m2 = handle_response L (i1\<lparr>transcript := m1 @ m2\<rparr>) pk_r"
    unfolding m2_def
    by (simp add: process_handshake_msg [OF hmac32 l1(2) ki1 sk2] Let_def
          MSG_INIT_def MSG_RESPONSE_def)
       (simp add: i1_def)
  have s3: "process_message L i1 m2 = (True, i2)"
    unfolding p2
    by (simp add: handle_response_def i1_def lk z pk_i_def [symmetric] build_message_eq
        send_message_def cb key_def [symmetric] i2_def m3_def Let_def derive_session_id_def)
  have ls3: "last_sent i2 = Some m3" by (simp add: last_sent_def i2_def)
  define r2 where
    "r2 = r\<lparr>transcript := m1 @ m2 @ m3, hs_sent := [m2], peer_public_key := pk_i,
            shared_secret := Some z,
            hs_session_id := hmac_sha256 L key (m1 @ m2 @ m3), hs_state := COMPLETE\<rparr>"
  have kr1: "psk (hs_config r1) = key" by (simp add: r1_def kr)
  have sk3: "\<not> (if get_current_time i > get_current_time r1
                  then get_current_time i - get_current_time r1
                  else get_current_time r1 - get_current_time i)
               > timestamp_tolerance_sec (hs_config r1)"
    using t1 by (auto simp: clock_skew_def r1_def split: if_splits)
  have p3: "process_message L r1 m3 = handle_finish L (r1\<lparr>transcript := m1 @ m2 @ m3\<rparr>) []"
    unfolding m3_def
    by (simp add: process_handshake_msg [OF hmac32 l1(3) kr1 sk3] Let_def
          MSG_INIT_def MSG_RESPONSE_def MSG_FINISH_def)
       (simp add: r1_def)
  have s4: "process_message L r1 m3 = (True, r2)"
    unfolding p3
    by (simp add: handle_finish_def r1_def r2_def derive_session_id_def kr)
  show ?thesis
    unfolding handshake_exchange_def s1
    by (simp add: ls1 s2 ls2 s3 ls3 s4)
       (simp add: r1_def i2_def r2_def z)
qed

section \<open>Handshake: roles and key directions\<close>


lemma hkdf_expand_one_block:
  assumes "0 < n" and "n \<le> 32"
  shows "hkdf_expand L prk (veil_info dir) n = Inr (expand_fixed L prk dir n)"
proof -
  have "(n + 32 - 1) div 32 = Suc 0" using assms by simp
  then show ?thesis
    using assms by (simp add: hkdf_expand_def expand_fixed_def Let_def)
qed

lemma derive_session_keys_eq:
  "derive_session_keys L z sid flag =
     (let prk = hkdf_extract L sid z in
      Inr (if flag
           then \<lparr>send_key = expand_fixed L prk ''key_i2r'' 32,
                 recv_key = expand_fixed L prk ''key_r2i'' 32,
                 send_nonce_base = expand_fixed L prk ''nonce_i2r'' 12,
                 recv_nonce_base = expand_fixed L prk ''nonce_r2i'' 12\<rparr>
           else \<lparr>send_key = expand_fixed L prk ''key_r2i'' 32,
                 recv_key = expand_fixed L prk ''key_i2r'' 32,
                 send_nonce_base = expand_fixed L prk ''nonce_r2i'' 12,
                 recv_nonce_base = expand_fixed L prk ''nonce_i2r'' 12\<rparr>))"
  by (simp add: derive_session_keys_def hkdf_expand_one_block Let_def)

lemma memcmp_sym:
  "length a = length b \<Longrightarrow> (memcmp a b n < 0) = (0 < memcmp b a n)"
proof (induction a b n rule: memcmp.induct)
  case (1 a as b bs n)
  then show ?case by auto
qed simp_all

lemma memcmp_zero:
  "n \<le> length a \<Longrightarrow> n \<le> length b \<Longrightarrow> memcmp a b n = 0 \<Longrightarrow> take n a = take n b"
proof (induction a b n rule: memcmp.induct)
  case (1 a as b bs n)
  then show ?case by (auto split: if_splits)
qed simp_all

lemma memcmp_refl [simp]: "memcmp a a n = 0"
proof (induction a arbitrary: n)
  case Nil
  show ?case by simp
next
  case (Cons x xs)
  show ?case using Cons.IH by (cases n) simp_all
qed

lemma memcmp_roles_differ:
  assumes "length a = 32" and "length b = 32" and "a \<noteq> b"
  shows "(memcmp b a 32 < 0) = (\<not> memcmp a b 32 < 0)"
proof -
  have "memcmp a b 32 \<noteq> 0"
    using memcmp_zero [of 32 a b] assms by auto
  moreover have "(memcmp b a 32 < 0) = (0 < memcmp a b 32)"
    using memcmp_sym [of b a 32] assms by simp
  ultimately show ?thesis by auto
qed

lemma handshake_results:
  assumes ready: "exchange_ready L i r"
  defines "key \<equiv> psk (hs_config i)"
    and "pk_i \<equiv> public_key (our_keypair i)" and "pk_r \<equiv> public_key (our_keypair r)"
  defines "m1 \<equiv> handshake_msg L key MSG_INIT (get_current_time i) pk_i"
    and "m2 \<equiv> handshake_msg L key MSG_RESPONSE (get_current_time r) pk_r"
    and "m3 \<equiv> handshake_msg L key MSG_FINISH (get_current_time i) []"
  shows "\<exists>i2 r2 z ki kr.
           handshake_exchange L i r = Some (i2, r2)
           \<and> hs_state i2 = COMPLETE \<and> hs_state r2 = COMPLETE
           \<and> hs_sent i2 = [m1, m3] \<and> hs_sent r2 = [m2]
           \<and> key_exchange L (secret_key (our_keypair i)) pk_r = Some z
           \<and> derive_session_keys L z (hmac_sha256 L key (m1 @ m2 @ m3))
                (memcmp pk_i pk_r 32 < 0) = Inr ki
           \<and> derive_session_keys L z (hmac_sha256 L key (m1 @ m2 @ m3))
                (memcmp pk_r pk_i 32 < 0) = Inr kr
           \<and> result L i2 = Inr (Some \<lparr>hr_session_keys = ki,
                                       hr_session_id = hmac_sha256 L key (m1 @ m2 @ m3),
                                       is_initiator = (memcmp pk_i pk_r 32 < 0)\<rparr>)
           \<and> result L r2 = Inr (Some \<lparr>hr_session_keys = kr,
                                       hr_session_id = hmac_sha256 L key (m1 @ m2 @ m3),
                                       is_initiator = (memcmp pk_r pk_i 32 < 0)\<rparr>)"
proof -
  from ready obtain z where z: "key_exchange L (secret_key (our_keypair i)) pk_r = Some z"
    by (auto simp: exchange_ready_def pk_r_def)
  define sid where "sid = hmac_sha256 L key (m1 @ m2 @ m3)"
  define i2 where
    "i2 = i\<lparr>transcript := m1 @ m2 @ m3, hs_sent := [m1, m3], peer_public_key := pk_r,
            shared_secret := Some z, hs_session_id := sid, hs_state := COMPLETE\<rparr>"
  define r2 where
    "r2 = r\<lparr>transcript := m1 @ m2 @ m3, hs_sent := [m2], peer_public_key := pk_i,
            shared_secret := Some z, hs_session_id := sid, hs_state := COMPLETE\<rparr>"
  have ex: "handshake_exchange L i r = Some (i2, r2)"
    using handshake_exchange_completes [OF ready]
    by (simp add: i2_def r2_def sid_def key_def pk_i_def pk_r_def m1_def m2_def m3_def z [unfolded pk_r_def])
  obtain ki where ki: "derive_session_keys L z sid (memcmp pk_i pk_r 32 < 0) = Inr ki"
    by (simp add: derive_session_keys_eq Let_def)
  obtain kr where kr: "derive_session_keys L z sid (memcmp pk_r pk_i 32 < 0) = Inr kr"
    by (simp add: derive_session_keys_eq Let_def)
  have ri: "result L i2 = Inr (Some \<lparr>hr_session_keys = ki, hr_session_id = sid,
                                       is_initiator = (memcmp pk_i pk_r 32 < 0)\<rparr>)"
    using ki by (simp add: result_def i2_def pk_i_def Let_def)
  have rr: "result L r2 = Inr (Some \<lparr>hr_session_keys = kr, hr_session_id = sid,
                                       is_initiator = (memcmp pk_r pk_i 32 < 0)\<rparr>)"
    using kr by (simp add: result_def r2_def pk_r_def Let_def)
  have st: "hs_state i2 = COMPLETE" "hs_state r2 = COMPLETE" "hs_sent i2 = [m1, m3]"
    "hs_sent r2 = [m2]"
    by (simp_all add: i2_def r2_def)
  show ?thesis
    using ex st z ki kr ri rr unfolding sid_def by blast
qed


lemma demo_hmac_length: "length (sodium_hmacsha256 demo_sodium k m) = 32"
  by (simp add: demo_sodium_def demo_hmac_def)

section \<open>Handshake: a concrete exchange\<close>


lemma memcmp_replicate:
  "memcmp (replicate n a) (replicate n b) n =
     (if n = 0 then 0 else if a < b then - 1 else if b < a then 1 else 0)"
  by (induction n) auto

lemma hd_handshake_msg: "hd (handshake_msg L key type ts payload) = type"
  by (simp add: handshake_msg_def Let_def)

lemma demo_key_exchange_replicate:
  "a * b \<noteq> 0 \<Longrightarrow>
   key_exchange demo_sodium (replicate 32 a) (replicate 32 b) = Some (replicate 32 (a * b))"
  by (simp add: key_exchange_def demo_sodium_def demo_scalarmult_def zip_replicate
      list_all_iff)

lemma demo_exchange_ready:
  assumes "sa * pb \<noteq> 0" and "sa * pb = sb * pa"
  shows "exchange_ready demo_sodium
           (set_current_time (set_send_callback (Handshake_new
              \<lparr>psk = key, timestamp_tolerance_sec = 60, require_psk = False,
               max_handshake_attempts = 3\<rparr>
              \<lparr>secret_key = replicate 32 sa, public_key = replicate 32 pa\<rparr> 0)) 1700000000)
           (set_current_time (set_send_callback (Handshake_new
              \<lparr>psk = key, timestamp_tolerance_sec = 60, require_psk = False,
               max_handshake_attempts = 3\<rparr>
              \<lparr>secret_key = replicate 32 sb, public_key = replicate 32 pb\<rparr> 0)) 1700000000)"
  using assms
  by (simp add: exchange_ready_def demo_hmac_length set_current_time_def set_send_callback_def
      Handshake_new_def get_current_time_def clock_skew_def demo_key_exchange_replicate)

text \<open>
  Claim C1 (role flag of the handshake result). The claim says that \<open>is_initiator\<close> is true
  exactly on the endpoint that emitted INIT and does not depend on a comparison of the two
  ephemeral public keys. \<open>Handshake::result\<close> computes the flag as
  \<open>memcmp(our_public_key, peer_public_key, 32) < 0\<close>. In the run below the endpoint that
  calls \<open>initiate\<close> and sends INIT and FINISH owns the lexicographically larger public key:
  the handshake completes on both sides, the initiator's result carries
  \<open>is_initiator = false\<close> and the responder's result carries \<open>is_initiator = true\<close>.
\<close>
theorem initiator_flag_follows_key_order:
  "(let cfg = \<lparr>psk = replicate 32 0xAB, timestamp_tolerance_sec = 60, require_psk = False,
               max_handshake_attempts = 3\<rparr>;
        initiator = set_current_time (set_send_callback (Handshake_new cfg
                      \<lparr>secret_key = replicate 32 7, public_key = replicate 32 21\<rparr> 0))
                      1700000000;
        responder = set_current_time (set_send_callback (Handshake_new cfg
                      \<lparr>secret_key = replicate 32 5, public_key = replicate 32 15\<rparr> 0))
                      1700000000
    in case handshake_exchange demo_sodium initiator responder of
         None \<Rightarrow> False
       | Some (i2, r2) \<Rightarrow>
           hs_state i2 = COMPLETE \<and> hs_state r2 = COMPLETE
           \<and> map hd (hs_sent i2) = [MSG_INIT, MSG_FINISH]
           \<and> map hd (hs_sent r2) = [MSG_RESPONSE]
           \<and> (case result demo_sodium i2 of
                 Inr (Some ri) \<Rightarrow> is_initiator ri = False | _ \<Rightarrow> False)
           \<and> (case result demo_sodium r2 of
                 Inr (Some rr) \<Rightarrow> is_initiator rr = True | _ \<Rightarrow> False))"
proof -
  have ready: "exchange_ready demo_sodium
           (set_current_time (set_send_callback (Handshake_new
              \<lparr>psk = replicate 32 0xAB, timestamp_tolerance_sec = 60, require_psk = False,
               max_handshake_attempts = 3\<rparr>
              \<lparr>secret_key = replicate 32 7, public_key = replicate 32 21\<rparr> 0)) 1700000000)
           (set_current_time (set_send_callback (Handshake_new
              \<lparr>psk = replicate 32 0xAB, timestamp_tolerance_sec = 60, require_psk = False,
               max_handshake_attempts = 3\<rparr>
              \<lparr>secret_key = replicate 32 5, public_key = replicate 32 15\<rparr> 0)) 1700000000)"
    by (rule demo_exchange_ready) simp_all
  have pk: "public_key (our_keypair (set_current_time (set_send_callback (Handshake_new c
              \<lparr>secret_key = s, public_key = p\<rparr> k)) t)) = p" for c s p k t
    by (simp add: set_current_time_def set_send_callback_def Handshake_new_def)
  from handshake_results [OF ready]
  show ?thesis
    unfolding Let_def
    by (auto simp: pk memcmp_replicate hd_handshake_msg)
qed

text \<open>
  Claim C2 (key symmetry of a completed handshake). Two endpoints share the PSK, their
  clocks agree within the timestamp tolerance and the X25519 exchange succeeds with the
  same shared secret on both sides (\<open>exchange_ready\<close>). Each constructor draws its own
  ephemeral key pair, so the two public keys differ. Then the exchange of INIT, RESPONSE
  and FINISH completes on both sides, and the two results mirror each other: the
  initiator's send key is the responder's receive key, the initiator's receive key is the
  responder's send key, likewise for the two nonce bases, and both results carry the same
  32-byte session identifier, the HMAC-SHA256 under the PSK of the transcript, which is the
  concatenation of the three messages.
\<close>

theorem handshake_keys_symmetric_when_keys_differ:
  assumes ready: "exchange_ready L i r"
    and neq: "public_key (our_keypair i) \<noteq> public_key (our_keypair r)"
  shows "\<exists>i2 r2 ri rr init_msg response_msg finish_msg.
           handshake_exchange L i r = Some (i2, r2)
           \<and> hs_state i2 = COMPLETE \<and> hs_state r2 = COMPLETE
           \<and> hs_sent i2 = [init_msg, finish_msg] \<and> hs_sent r2 = [response_msg]
           \<and> transcript i2 = init_msg @ response_msg @ finish_msg
           \<and> result L i2 = Inr (Some ri) \<and> result L r2 = Inr (Some rr)
           \<and> send_key (hr_session_keys ri) = recv_key (hr_session_keys rr)
           \<and> recv_key (hr_session_keys ri) = send_key (hr_session_keys rr)
           \<and> send_nonce_base (hr_session_keys ri) = recv_nonce_base (hr_session_keys rr)
           \<and> recv_nonce_base (hr_session_keys ri) = send_nonce_base (hr_session_keys rr)
           \<and> hr_session_id ri = hr_session_id rr
           \<and> hr_session_id ri = hmac_sha256 L (psk (hs_config i)) (transcript i2)
           \<and> length (hr_session_id ri) = 32
           \<and> transcript i2 = transcript r2"
proof -
  let ?pi = "public_key (our_keypair i)" and ?pr = "public_key (our_keypair r)"
  have len: "length ?pi = 32" "length ?pr = 32"
    using ready by (simp_all add: exchange_ready_def)
  have h32: "length (hmac_sha256 L k m) = 32" for k m
    using ready by (simp add: exchange_ready_def hmac_sha256_def)
  have flip: "(memcmp ?pr ?pi 32 < 0) = (\<not> memcmp ?pi ?pr 32 < 0)"
    by (rule memcmp_roles_differ [OF len neq])
  from handshake_exchange_completes [OF ready] handshake_results [OF ready]
  show ?thesis
    unfolding flip
    by (cases "memcmp ?pi ?pr 32 < 0") (auto simp: derive_session_keys_eq Let_def h32)
qed

theorem handshake_keys_symmetric_when_keys_differ_witness:
  "\<exists>i2 r2 ri rr.
     handshake_exchange demo_sodium
       (set_current_time (set_send_callback (Handshake_new
          \<lparr>psk = replicate 32 0xAB, timestamp_tolerance_sec = 60, require_psk = False,
           max_handshake_attempts = 3\<rparr>
          \<lparr>secret_key = replicate 32 7, public_key = replicate 32 21\<rparr> 0)) 1700000000)
       (set_current_time (set_send_callback (Handshake_new
          \<lparr>psk = replicate 32 0xAB, timestamp_tolerance_sec = 60, require_psk = False,
           max_handshake_attempts = 3\<rparr>
          \<lparr>secret_key = replicate 32 5, public_key = replicate 32 15\<rparr> 0)) 1700000000)
       = Some (i2, r2)
     \<and> hs_state i2 = COMPLETE \<and> hs_state r2 = COMPLETE
     \<and> result demo_sodium i2 = Inr (Some ri) \<and> result demo_sodium r2 = Inr (Some rr)
     \<and> send_key (hr_session_keys ri) = recv_key (hr_session_keys rr)
     \<and> recv_key (hr_session_keys ri) = send_key (hr_session_keys rr)
     \<and> send_nonce_base (hr_session_keys ri) = recv_nonce_base (hr_session_keys rr)
     \<and> recv_nonce_base (hr_session_keys ri) = send_nonce_base (hr_session_keys rr)
     \<and> hr_session_id ri = hr_session_id rr
     \<and> length (hr_session_id ri) = 32"
proof -
  have ready: "exchange_ready demo_sodium
           (set_current_time (set_send_callback (Handshake_new
              \<lparr>psk = replicate 32 0xAB, timestamp_tolerance_sec = 60, require_psk = False,
               max_handshake_attempts = 3\<rparr>
              \<lparr>secret_key = replicate 32 7, public_key = replicate 32 21\<rparr> 0)) 1700000000)
           (set_current_time (set_send_callback (Handshake_new
              \<lparr>psk = replicate 32 0xAB, timestamp_tolerance_sec = 60, require_psk = False,
               max_handshake_attempts = 3\<rparr>
              \<lparr>secret_key = replicate 32 5, public_key = replicate 32 15\<rparr> 0)) 1700000000)"
    by (rule demo_exchange_ready) simp_all
  have neq: "public_key (our_keypair
           (set_current_time (set_send_callback (Handshake_new
              \<lparr>psk = replicate 32 0xAB, timestamp_tolerance_sec = 60, require_psk = False,
               max_handshake_attempts = 3\<rparr>
              \<lparr>secret_key = replicate 32 7, public_key = replicate 32 21\<rparr> 0)) 1700000000))
        \<noteq> public_key (our_keypair
           (set_current_time (set_send_callback (Handshake_new
              \<lparr>psk = replicate 32 0xAB, timestamp_tolerance_sec = 60, require_psk = False,
               max_handshake_attempts = 3\<rparr>
              \<lparr>secret_key = replicate 32 5, public_key = replicate 32 15\<rparr> 0)) 1700000000))"
    by (simp add: set_current_time_def set_send_callback_def Handshake_new_def)
  from handshake_keys_symmetric_when_keys_differ [OF ready neq]
  show ?thesis by blast
qed

section \<open>Transport session: what the send path registers\<close>


lemma try_consume_allowed:
  "RateLimiter_check rl n \<Longrightarrow> try_consume rl n = (True, consume rl n)"
  by (simp add: try_consume_def)

lemma add_frame_to_empty:
  assumes e: "payload_buffer pb = []"
    and fit: "length (serialize_frame f) + 32 \<le> unat (pb_mtu pb)"
  shows "add_frame pb f = (True, pb\<lparr>payload_buffer := serialize_frame f\<rparr>)"
proof -
  have lt: "length (serialize_frame f) < 2 ^ 64"
    using fit unsigned_less [of "pb_mtu pb", where ?'a = nat] by simp
  have s: "unat (size_of (serialize_frame f)) = length (serialize_frame f)"
    using lt by (rule unat_size_of)
  have m: "\<not> pb_mtu pb \<le> 32"
    using fit by (simp add: word_le_nat_alt length_serialize_frame)
  have u: "unat (pb_mtu pb - 32) = unat (pb_mtu pb) - 32"
    using m by (simp add: unat_sub word_le_nat_alt)
  have "\<not> size_of (serialize_frame f) > pb_mtu pb - 32"
    using fit s u by (simp add: word_less_nat_alt)
  then show ?thesis
    using m e
    by (simp add: add_frame_def remaining_capacity_def Let_def PacketHeader_SIZE_def
        POLY1305_TAG_SIZE_def size_of_def)
qed

lemma build_length:
  assumes "aead_correct L" and "build L pb c = (Inr dat, pb')" and "payload_buffer pb \<noteq> []"
  shows "length dat = length (payload_buffer pb) + 32"
  using assms
  by (auto simp: build_def Let_def encrypt_def aead_correct_def split: if_splits)

lemma send_packet_internal_accepted:
  assumes aead: "aead_correct L"
    and rl: "RateLimiter_check (rate_limiter ts) (frame_size f)"
    and wf: "frame_wf f"
    and fit: "length (serialize_frame f) + 32 \<le> unat (pb_mtu (packet_builder ts))"
    and small: "unat (pb_mtu (packet_builder ts)) \<le> 65535"
    and net: "\<And>d. send_to env d"
    and pk: "parser_has_key p" "parser_key p = send_key (session_keys ts)"
      "parser_nonce_base p = send_nonce_base (session_keys ts)"
  shows "\<exists>packet pb.
           send_packet_internal L env ts f =
             Inr (True,
                  ts\<lparr>rate_limiter := consume (rate_limiter ts) (frame_size f),
                     packet_builder := pb,
                     retransmission :=
                       (if holds_DataFrame f
                        then snd (register_packet (retransmission ts) (send_sequence ts) packet
                                    (time_ms env))
                        else retransmission ts),
                     wire := wire ts @ [packet],
                     send_sequence := send_sequence ts + 1,
                     stats := (stats ts)\<lparr>packets_sent := packets_sent (stats ts) + 1,
                                bytes_sent := bytes_sent (stats ts) + size_of packet\<rparr>,
                     session_rotator := on_packet_sent (session_rotator ts) (size_of packet)\<rparr>)
           \<and> pb_mtu pb = pb_mtu (packet_builder ts)
           \<and> length packet = length (serialize_frame f) + 32
           \<and> parse L p packet =
               Inr \<lparr>pp_session_id = current_session_id (session_rotator ts),
                    pp_packet_counter = send_sequence ts, pp_frames = [f]\<rparr>"
proof -
  define pb2 where
    "pb2 = set_encryption_key
             (set_session_id (PacketBuilder_reset (packet_builder ts))
                (current_session_id (session_rotator ts)))
             (send_key (session_keys ts)) (send_nonce_base (session_keys ts))"
  define pb3 where "pb3 = pb2\<lparr>payload_buffer := serialize_frame f\<rparr>"
  have pb2: "payload_buffer pb2 = []" "pb_mtu pb2 = pb_mtu (packet_builder ts)"
    by (simp_all add: pb2_def set_encryption_key_def set_session_id_def PacketBuilder_reset_def)
  have af: "add_frame pb2 f = (True, pb3)"
    unfolding pb3_def using pb2 fit by (intro add_frame_to_empty) simp_all
  have k3: "pb_has_key pb3" "pb_key pb3 = send_key (session_keys ts)"
    "pb_nonce_base pb3 = send_nonce_base (session_keys ts)"
    "pb_session_id pb3 = current_session_id (session_rotator ts)"
    "pb_mtu pb3 = pb_mtu (packet_builder ts)"
    by (simp_all add: pb3_def pb2_def set_encryption_key_def set_session_id_def
        PacketBuilder_reset_def)
  have ne: "payload_buffer pb3 \<noteq> []"
    by (simp add: pb3_def serialize_frame_nonempty)
  have len: "length (payload_buffer pb3) \<le> 65535"
    using fit small by (simp add: pb3_def)
  have "\<forall>g \<in> set [f]. frame_wf g" using wf by simp
  from parse_frames_serialize [OF this]
  have pf: "parse_frames (payload_buffer pb3) = Some [f]"
    by (simp add: pb3_def)
  from build_parse_round_trip [OF aead k3(1) ne len pf pk(1), of "send_sequence ts"] pk(2,3) k3
  obtain packet where b: "build L pb3 (send_sequence ts) = (Inr packet, pb3)"
    and pr: "parse L p packet =
               Inr \<lparr>pp_session_id = current_session_id (session_rotator ts),
                    pp_packet_counter = send_sequence ts, pp_frames = [f]\<rparr>"
    by auto
  have "send_packet_internal L env ts f =
          Inr (True,
               ts\<lparr>rate_limiter := consume (rate_limiter ts) (frame_size f),
                  packet_builder := pb3,
                  retransmission :=
                    (if holds_DataFrame f
                     then snd (register_packet (retransmission ts) (send_sequence ts) packet
                                 (time_ms env))
                     else retransmission ts),
                  wire := wire ts @ [packet],
                  send_sequence := send_sequence ts + 1,
                  stats := (stats ts)\<lparr>packets_sent := packets_sent (stats ts) + 1,
                             bytes_sent := bytes_sent (stats ts) + size_of packet\<rparr>,
                  session_rotator := on_packet_sent (session_rotator ts) (size_of packet)\<rparr>)"
    using af b net
    by (simp add: send_packet_internal_def try_consume_allowed [OF rl] Let_def
        pb2_def [symmetric])
  moreover have "length packet = length (serialize_frame f) + 32"
    using build_length [OF aead b ne] by (simp add: pb3_def)
  ultimately show ?thesis using pr k3(5) by blast
qed

lemma send_packet_internal_other_frames:
  assumes "\<not> holds_DataFrame f" and "send_packet_internal L env ts f = Inr (ok, ts')"
  shows "retransmission ts' = retransmission ts"
  using assms
  by (auto simp: send_packet_internal_def Let_def
      split: prod.splits bool.splits sum.splits if_splits)

lemma send_fragments_register_nothing:
  assumes "list_all (\<lambda>f. \<not> holds_DataFrame f) frags"
    and "send_fragments L env ts frags success = Inr (ok, ts')"
  shows "retransmission ts' = retransmission ts"
  using assms
proof (induction frags arbitrary: ts success)
  case Nil
  then show ?case by simp
next
  case (Cons f frags)
  from Cons.prems(2) obtain ok1 ts1 where
    s1: "send_packet_internal L env ts f = Inr (ok1, ts1)"
    and rest: "send_fragments L env ts1 frags (if \<not> ok1 then False else success) = Inr (ok, ts')"
    by (auto split: sum.splits)
  from Cons.prems(1) have nf: "\<not> holds_DataFrame f" and nfs: "list_all (\<lambda>f. \<not> holds_DataFrame f) frags"
    by simp_all
  from Cons.IH [OF nfs rest] send_packet_internal_other_frames [OF nf s1]
  show ?case by simp
qed

lemma fragment_loop_frames:
  "list_all (\<lambda>f. \<not> holds_DataFrame f) (fragment_loop n max_fragment msg_id total_fragments dat offset i)"
  by (induction n arbitrary: offset i) (simp_all add: Let_def holds_DataFrame_def)

lemma send_large_registers_nothing:
  assumes big: "\<not> size_of dat \<le> mtu (ts_config ts) - PacketHeader_SIZE - FrameHeader_SIZE - 8
                    - POLY1305_TAG_SIZE"
    and s: "send L env ts dat = Inr (ok, ts')"
  shows "retransmission ts' = retransmission ts"
proof (cases "ts_state ts = CONNECTED")
  case False
  with s show ?thesis by (simp add: send_def)
next
  case True
  from s True big obtain fragments ts1 where
    fd: "fragment_data ts dat = Some (fragments, ts1)"
    and sf: "send_fragments L env
               (ts1\<lparr>stats := (stats ts1)\<lparr>messages_fragmented :=
                                messages_fragmented (stats ts1) + 1\<rparr>\<rparr>)
               fragments True = Inr (ok, ts')"
    by (auto simp: send_def Let_def split: option.splits)
  from fd have fr: "list_all (\<lambda>f. \<not> holds_DataFrame f) fragments"
    and r1: "retransmission ts1 = retransmission ts"
    by (auto simp: fragment_data_def Let_def fragment_loop_frames split: if_splits)
  from send_fragments_register_nothing [OF fr sf] r1 show ?thesis by simp
qed

lemma send_data_key_and_frame:
  assumes aead: "aead_correct L"
    and st: "ts_state ts = CONNECTED"
    and m: "pb_mtu (packet_builder ts) = mtu (ts_config ts)" "unat (mtu (ts_config ts)) \<le> 65535"
    and fit: "length dat + 44 \<le> unat (mtu (ts_config ts))"
    and rl: "RateLimiter_check (rate_limiter ts) (frame_size (DataFrame (send_sequence ts) dat))"
    and net: "\<And>d. send_to env d"
    and pk: "parser_has_key p" "parser_key p = send_key (session_keys ts)"
      "parser_nonce_base p = send_nonce_base (session_keys ts)"
  shows "\<exists>packet ts'.
           send L env ts dat = Inr (True, ts')
           \<and> retransmission ts' =
               snd (register_packet (retransmission ts) (send_sequence ts + 1) packet (time_ms env))
           \<and> wire ts' = wire ts @ [packet]
           \<and> length packet = length dat + 44
           \<and> parse L p packet =
               Inr \<lparr>pp_session_id = current_session_id (session_rotator ts),
                    pp_packet_counter = send_sequence ts + 1,
                    pp_frames = [DataFrame (send_sequence ts) dat]\<rparr>
           \<and> send_sequence ts' = send_sequence ts + 2"
proof -
  define f where "f = DataFrame (send_sequence ts) dat"
  define ts1 where "ts1 = ts\<lparr>send_sequence := send_sequence ts + 1\<rparr>"
  have small: "size_of dat \<le> mtu (ts_config ts) - PacketHeader_SIZE - FrameHeader_SIZE - 8
                 - POLY1305_TAG_SIZE"
  proof -
    have "length dat < 2 ^ 64"
      using fit unsigned_less [of "mtu (ts_config ts)", where ?'a = nat] by simp
    then have s: "unat (size_of dat) = length dat" by (rule unat_size_of)
    have "(44 :: u64) \<le> mtu (ts_config ts)"
      using fit by (simp add: word_le_nat_alt)
    then have "unat (mtu (ts_config ts) - 44) = unat (mtu (ts_config ts)) - 44"
      by (simp add: unat_sub)
    then have "size_of dat \<le> mtu (ts_config ts) - 44"
      using s fit by (simp add: word_le_nat_alt)
    then show ?thesis
      by (simp add: PacketHeader_SIZE_def FrameHeader_SIZE_def POLY1305_TAG_SIZE_def)
  qed
  have sd: "send L env ts dat = send_packet_internal L env ts1 f"
    using st small by (simp add: send_def Let_def f_def ts1_def)
  have wf: "frame_wf f"
    using fit m(2) by (simp add: f_def frame_wf_def)
  have fit1: "length (serialize_frame f) + 32 \<le> unat (pb_mtu (packet_builder ts1))"
    using fit m(1) by (simp add: f_def ts1_def length_serialize_frame)
  have rl1: "RateLimiter_check (rate_limiter ts1) (frame_size f)"
    using rl by (simp add: ts1_def f_def)
  have small1: "unat (pb_mtu (packet_builder ts1)) \<le> 65535"
    using m by (simp add: ts1_def)
  have pk1: "parser_key p = send_key (session_keys ts1)"
    "parser_nonce_base p = send_nonce_base (session_keys ts1)"
    using pk(2,3) by (simp_all add: ts1_def)
  from send_packet_internal_accepted [OF aead rl1 wf fit1 small1 net pk(1) pk1]
  obtain packet pb where
    r: "send_packet_internal L env ts1 f =
          Inr (True,
               ts1\<lparr>rate_limiter := consume (rate_limiter ts1) (frame_size f),
                   packet_builder := pb,
                   retransmission :=
                     (if holds_DataFrame f
                      then snd (register_packet (retransmission ts1) (send_sequence ts1) packet
                                  (time_ms env))
                      else retransmission ts1),
                   wire := wire ts1 @ [packet],
                   send_sequence := send_sequence ts1 + 1,
                   stats := (stats ts1)\<lparr>packets_sent := packets_sent (stats ts1) + 1,
                              bytes_sent := bytes_sent (stats ts1) + size_of packet\<rparr>,
                   session_rotator := on_packet_sent (session_rotator ts1) (size_of packet)\<rparr>)"
    and pr: "parse L p packet =
               Inr \<lparr>pp_session_id = current_session_id (session_rotator ts1),
                    pp_packet_counter = send_sequence ts1, pp_frames = [f]\<rparr>"
    and lp: "length packet = length (serialize_frame f) + 32"
    by blast
  show ?thesis
    using sd r pr lp by (simp add: ts1_def f_def holds_DataFrame_def length_serialize_frame)
qed

lemma TransportSession_construct_default:
  "mtu cfg = 1400 \<Longrightarrow> TransportSession_construct cfg sid = Inr (TransportSession_new cfg sid)"
  by (simp add: TransportSession_construct_def PacketBuilder_construct_default)



lemma consume_tokens:
  "RateLimiter_check rl n \<Longrightarrow>
   packet_tokens (consume rl n) = packet_tokens rl - 1
   \<and> byte_tokens (consume rl n) = byte_tokens rl - n"
  by (auto simp: RateLimiter_check_def consume_def Let_def word_le_nat_alt word_less_nat_alt)

text \<open>
  Claim C7 (what the send path registers for retransmission). The first half holds:
  \<open>send_packet_internal\<close> calls \<open>register_packet\<close> under \<open>holds_alternative<DataFrame>\<close> only, so
  HANDSHAKE, FRAGMENT and the other frame kinds leave the retransmission manager as it
  was (lemmas \<open>send_packet_internal_other_frames\<close>, \<open>send_large_registers_nothing\<close>). The
  second half fails. \<open>send\<close> writes \<open>send_sequence_++\<close> into the frame, and
  \<open>send_packet_internal\<close> then registers the packet under \<open>send_sequence_\<close>, which is already
  one larger (lemma \<open>send_data_key_and_frame\<close>). Below, a session built with the default
  configuration sends its two handshake messages (packet counters 1 and 2, nothing
  registered), becomes connected and sends the two bytes \<open>hi\<close>: the sent DATA frame carries
  sequence number 3, and the single unacked entry, holding the sealed datagram, has key 4.
\<close>
theorem data_packet_registered_under_packet_counter:
  "(let cfg = \<lparr>mtu = 1400,
               cfg_rate_limiter = \<lparr>packets_per_second = 10000, bytes_per_second = 100000000,
                                   burst_packets = 100, burst_bytes = 1000000\<rparr>,
               cfg_retransmission = \<lparr>initial_rto_ms = 200, min_rto_ms = 100,
                                     max_rto_ms = 10000, max_retries = 5,
                                     max_unacked_packets = 1024, max_unacked_bytes = 1048576,
                                     rtt_alpha = 1 / 8, rtt_beta = 1 / 4\<rparr>\<rparr>;
        env = \<lparr>time_ms = 5000, send_to = (\<lambda>d. True)\<rparr>;
        keys = \<lparr>send_key = replicate 32 1, recv_key = replicate 32 2,
                send_nonce_base = replicate 12 3, recv_nonce_base = replicate 12 4\<rparr>;
        peer = set_decryption_key PacketParser_new (replicate 32 1) (replicate 12 3);
        ts0 = TransportSession_new cfg 0x1122334455667788
    in case send_handshake_message demo_sodium env ts0 (replicate 73 1) of
         Inl e \<Rightarrow> False
       | Inr (ok1, ts1) \<Rightarrow>
      (case send_handshake_message demo_sodium env ts1 (replicate 41 3) of
         Inl e \<Rightarrow> False
       | Inr (ok2, ts2) \<Rightarrow>
      (case send demo_sodium env (handshake_completed ts2 keys) [0x68, 0x69] of
         Inl e \<Rightarrow> False
       | Inr (ok3, ts3) \<Rightarrow>
           ok1 \<and> ok2 \<and> ok3
           \<and> unacked_keys ts2 = [] \<and> send_sequence ts2 = 3
           \<and> unacked_keys ts3 = [4]
           \<and> map (\<lambda>(seq, entry). up_data entry) (unacked (retransmission ts3)) = [last (wire ts3)]
           \<and> (case parse demo_sodium peer (last (wire ts3)) of
                 Inl e \<Rightarrow> False
               | Inr pp \<Rightarrow> pp_packet_counter pp = 4
                           \<and> pp_frames pp = [DataFrame 3 [0x68, 0x69]]))))"
proof -
  define cfg where
    "cfg = \<lparr>mtu = 1400,
            cfg_rate_limiter = \<lparr>packets_per_second = 10000, bytes_per_second = 100000000,
                                burst_packets = 100, burst_bytes = 1000000\<rparr>,
            cfg_retransmission = \<lparr>initial_rto_ms = 200, min_rto_ms = 100,
                                  max_rto_ms = 10000, max_retries = 5,
                                  max_unacked_packets = 1024, max_unacked_bytes = 1048576,
                                  rtt_alpha = 1 / 8, rtt_beta = 1 / 4\<rparr>\<rparr>"
  define env :: Env where "env = \<lparr>time_ms = 5000, send_to = (\<lambda>d. True)\<rparr>"
  define keys where
    "keys = \<lparr>send_key = replicate 32 1, recv_key = replicate 32 2,
             send_nonce_base = replicate 12 3, recv_nonce_base = replicate 12 4\<rparr>"
  define peer where "peer = set_decryption_key PacketParser_new (replicate 32 1) (replicate 12 3)"
  define p0 where "p0 = set_decryption_key PacketParser_new (replicate 32 0) (replicate 12 0)"
  define ts0 where "ts0 = TransportSession_new cfg 0x1122334455667788"
  define f1 where "f1 = HandshakeFrame 1 (replicate 73 1)"
  define f2 where "f2 = HandshakeFrame 1 (replicate 41 3)"
  note demo_aead_correct [simp]
  have net: "send_to env d" for d by (simp add: env_def)
  have p0: "parser_has_key p0" "parser_key p0 = replicate 32 0"
    "parser_nonce_base p0 = replicate 12 0"
    by (simp_all add: p0_def set_decryption_key_def)
  have peer: "parser_has_key peer" "parser_key peer = replicate 32 1"
    "parser_nonce_base peer = replicate 12 3"
    by (simp_all add: peer_def set_decryption_key_def)
  have t0: "pb_mtu (packet_builder ts0) = 1400" "send_sequence ts0 = 1"
    "unacked (retransmission ts0) = []" "unacked_bytes (retransmission ts0) = 0"
    "rm_config (retransmission ts0) = cfg_retransmission cfg"
    "packet_tokens (rate_limiter ts0) = 100" "byte_tokens (rate_limiter ts0) = 1000000"
    "session_keys ts0 = \<lparr>send_key = replicate 32 0, recv_key = replicate 32 0,
                          send_nonce_base = replicate 12 0, recv_nonce_base = replicate 12 0\<rparr>"
    "mtu (ts_config ts0) = 1400" "wire ts0 = []"
    by (simp_all add: ts0_def TransportSession_new_def cfg_def PacketBuilder_new_def
        RetransmissionManager_new_def set_retransmit_callback_def set_drop_callback_def
        RateLimiter_new_def)
  have rl0: "RateLimiter_check (rate_limiter ts0) (frame_size f1)"
    by (simp add: RateLimiter_check_def t0 f1_def size_of_def FrameHeader_SIZE_def
        word_le_nat_alt)
  have "\<exists>packet pb.
          send_packet_internal demo_sodium env ts0 f1 =
            Inr (True,
                 ts0\<lparr>rate_limiter := consume (rate_limiter ts0) (frame_size f1),
                     packet_builder := pb,
                     retransmission :=
                       (if holds_DataFrame f1
                        then snd (register_packet (retransmission ts0) (send_sequence ts0) packet
                                    (time_ms env))
                        else retransmission ts0),
                     wire := wire ts0 @ [packet],
                     send_sequence := send_sequence ts0 + 1,
                     stats := (stats ts0)\<lparr>packets_sent := packets_sent (stats ts0) + 1,
                                bytes_sent := bytes_sent (stats ts0) + size_of packet\<rparr>,
                     session_rotator := on_packet_sent (session_rotator ts0) (size_of packet)\<rparr>)
          \<and> pb_mtu pb = pb_mtu (packet_builder ts0)
          \<and> length packet = length (serialize_frame f1) + 32
          \<and> parse demo_sodium p0 packet =
              Inr \<lparr>pp_session_id = current_session_id (session_rotator ts0),
                   pp_packet_counter = send_sequence ts0, pp_frames = [f1]\<rparr>"
    by (rule send_packet_internal_accepted [OF _ rl0 _ _ _ net p0(1)])
      (simp_all add: t0 p0 f1_def frame_wf_def length_serialize_frame)
  then obtain ts1 where
    s1: "send_packet_internal demo_sodium env ts0 f1 = Inr (True, ts1)"
    and t1: "pb_mtu (packet_builder ts1) = 1400" "send_sequence ts1 = 2"
      "retransmission ts1 = retransmission ts0"
      "rate_limiter ts1 = consume (rate_limiter ts0) (frame_size f1)"
      "session_keys ts1 = session_keys ts0" "mtu (ts_config ts1) = 1400"
    by (auto simp: t0 f1_def holds_DataFrame_def)
  have tok1: "packet_tokens (rate_limiter ts1) = 99" "byte_tokens (rate_limiter ts1) = 999922"
    using consume_tokens [OF rl0]
    by (simp_all add: t1 t0 f1_def size_of_def FrameHeader_SIZE_def)
  have rl1: "RateLimiter_check (rate_limiter ts1) (frame_size f2)"
    by (simp add: RateLimiter_check_def tok1 f2_def size_of_def FrameHeader_SIZE_def
        word_le_nat_alt)
  have "\<exists>packet pb.
          send_packet_internal demo_sodium env ts1 f2 =
            Inr (True,
                 ts1\<lparr>rate_limiter := consume (rate_limiter ts1) (frame_size f2),
                     packet_builder := pb,
                     retransmission :=
                       (if holds_DataFrame f2
                        then snd (register_packet (retransmission ts1) (send_sequence ts1) packet
                                    (time_ms env))
                        else retransmission ts1),
                     wire := wire ts1 @ [packet],
                     send_sequence := send_sequence ts1 + 1,
                     stats := (stats ts1)\<lparr>packets_sent := packets_sent (stats ts1) + 1,
                                bytes_sent := bytes_sent (stats ts1) + size_of packet\<rparr>,
                     session_rotator := on_packet_sent (session_rotator ts1) (size_of packet)\<rparr>)
          \<and> pb_mtu pb = pb_mtu (packet_builder ts1)
          \<and> length packet = length (serialize_frame f2) + 32
          \<and> parse demo_sodium p0 packet =
              Inr \<lparr>pp_session_id = current_session_id (session_rotator ts1),
                   pp_packet_counter = send_sequence ts1, pp_frames = [f2]\<rparr>"
    by (rule send_packet_internal_accepted [OF _ rl1 _ _ _ net p0(1)])
      (simp_all add: t0 t1 p0 f2_def frame_wf_def length_serialize_frame)
  then obtain ts2 where
    s2: "send_packet_internal demo_sodium env ts1 f2 = Inr (True, ts2)"
    and t2: "pb_mtu (packet_builder ts2) = 1400" "send_sequence ts2 = 3"
      "retransmission ts2 = retransmission ts0"
      "rate_limiter ts2 = consume (rate_limiter ts1) (frame_size f2)"
      "mtu (ts_config ts2) = 1400"
    by (auto simp: t1 f2_def holds_DataFrame_def)
  define ts3 where "ts3 = handshake_completed ts2 keys"
  have t3: "ts_state ts3 = CONNECTED" "pb_mtu (packet_builder ts3) = 1400"
    "send_sequence ts3 = 3" "retransmission ts3 = retransmission ts0"
    "rate_limiter ts3 = rate_limiter ts2" "mtu (ts_config ts3) = 1400"
    "session_keys ts3 = keys"
    by (simp_all add: ts3_def handshake_completed_def set_state_def set_encryption_key_def t2)
  have tok2: "packet_tokens (rate_limiter ts3) = 98" "byte_tokens (rate_limiter ts3) = 999876"
    using consume_tokens [OF rl1]
    by (simp_all add: t3 t2 tok1 f2_def size_of_def FrameHeader_SIZE_def)
  have rl3: "RateLimiter_check (rate_limiter ts3) (frame_size (DataFrame (send_sequence ts3) [0x68, 0x69]))"
    by (simp add: RateLimiter_check_def tok2 size_of_def FrameHeader_SIZE_def word_le_nat_alt)
  have "\<exists>packet ts'.
           send demo_sodium env ts3 [0x68, 0x69] = Inr (True, ts')
           \<and> retransmission ts' =
               snd (register_packet (retransmission ts3) (send_sequence ts3 + 1) packet (time_ms env))
           \<and> wire ts' = wire ts3 @ [packet]
           \<and> length packet = length [0x68 :: u8, 0x69] + 44
           \<and> parse demo_sodium peer packet =
               Inr \<lparr>pp_session_id = current_session_id (session_rotator ts3),
                    pp_packet_counter = send_sequence ts3 + 1,
                    pp_frames = [DataFrame (send_sequence ts3) [0x68, 0x69]]\<rparr>
           \<and> send_sequence ts' = send_sequence ts3 + 2"
    by (rule send_data_key_and_frame [OF _ t3(1) _ _ _ rl3 net peer(1)])
      (simp_all add: t3 peer keys_def)
  then obtain packet ts4 where
    s4: "send demo_sodium env ts3 [0x68, 0x69] = Inr (True, ts4)"
    and r4: "retransmission ts4 = snd (register_packet (retransmission ts0) 4 packet 5000)"
    and w4: "wire ts4 = wire ts3 @ [packet]"
    and l4: "length packet = 46"
    and p4: "parse demo_sodium peer packet =
               Inr \<lparr>pp_session_id = current_session_id (session_rotator ts3),
                    pp_packet_counter = 4, pp_frames = [DataFrame 3 [0x68, 0x69]]\<rparr>"
    by (auto simp: t3 env_def)
  have u4: "unacked (retransmission ts4) =
              [(4, \<lparr>up_data = packet, send_time_ms = 5000, last_sent_ms = 5000,
                    retransmit_count = 0\<rparr>)]"
    by (simp add: r4 register_packet_def t0 cfg_def size_of_def l4 map_count_def
        word_le_nat_alt word_less_nat_alt)
  show ?thesis
    unfolding Let_def send_handshake_message_def
    using s1 s2 s4 u4 w4 p4 t2 t0
    by (simp add: cfg_def [symmetric] env_def [symmetric] keys_def [symmetric]
        peer_def [symmetric] ts0_def [symmetric] f1_def [symmetric] f2_def [symmetric]
        ts3_def [symmetric] unacked_keys_def)
qed

end
